(* ===== verification/Prelude.thy ===== *)
theory Prelude
  imports Main "HOL-Library.Word" "HOL-Library.Monad_Syntax" "HOL-Library.Multiset"
begin

unbundle bit_operations_syntax

text \<open>
  Shared vocabulary of the development: the machine integers the C code uses, checked
  array accesses (a C read or write outside its object is \<^const>\<open>None\<close>), C strings as
  lists of bytes up to the first NUL, and the lemmas on them that every component uses.
\<close>

section \<open>Machine integers\<close>

type_synonym u8 = "8 word"
type_synonym u16 = "16 word"
type_synonym u32 = "32 word"
type_synonym u64 = "64 word"

text \<open>C's implicit conversions of a mathematical integer to a signed type of 16 and 32
  bits (two's complement, as gcc and clang define them on x86-64).\<close>

definition int16_of :: "int \<Rightarrow> int" where
  "int16_of i = sint (word_of_int i :: 16 word)"

definition int32_of :: "int \<Rightarrow> int" where
  "int32_of i = sint (word_of_int i :: 32 word)"

lemma int16_of_id: "- 32768 \<le> i \<Longrightarrow> i < 32768 \<Longrightarrow> int16_of i = i"
  by (simp add: int16_of_def sint_sbintrunc' signed_take_bit_int_eq_self)

lemma int32_of_id: "- 2147483648 \<le> i \<Longrightarrow> i < 2147483648 \<Longrightarrow> int32_of i = i"
  by (simp add: int32_of_def sint_sbintrunc' signed_take_bit_int_eq_self)

section \<open>Checked array accesses\<close>

named_theorems cmem \<open>rewrite rules for checked reads and writes\<close>

definition rd :: "'a list \<Rightarrow> nat \<Rightarrow> 'a option" where
  "rd xs i = (if i < length xs then Some (xs ! i) else None)"

definition wr :: "'a list \<Rightarrow> nat \<Rightarrow> 'a \<Rightarrow> 'a list option" where
  "wr xs i v = (if i < length xs then Some (xs[i := v]) else None)"

lemma rd_in [cmem]: "i < length xs \<Longrightarrow> rd xs i = Some (xs ! i)"
  by (simp add: rd_def)

lemma rd_out [cmem]: "length xs \<le> i \<Longrightarrow> rd xs i = None"
  by (simp add: rd_def)

lemma wr_in [cmem]: "i < length xs \<Longrightarrow> wr xs i v = Some (xs[i := v])"
  by (simp add: wr_def)

lemma wr_out [cmem]: "length xs \<le> i \<Longrightarrow> wr xs i v = None"
  by (simp add: wr_def)

lemma rd_Some_iff: "rd xs i = Some v \<longleftrightarrow> i < length xs \<and> v = xs ! i"
  by (auto simp: rd_def)

lemma wr_Some_iff: "wr xs i v = Some ys \<longleftrightarrow> i < length xs \<and> ys = xs[i := v]"
  by (auto simp: wr_def)

lemma wr_length: "wr xs i v = Some ys \<Longrightarrow> length ys = length xs"
  by (auto simp: wr_def split: if_splits)

section \<open>C strings\<close>

text \<open>A \<open>char *\<close> is the list of bytes it points to; the string it denotes ends at the first
  NUL byte.\<close>

abbreviation NUL :: char where
  "NUL \<equiv> CHR 0x00"

definition c_str :: "string \<Rightarrow> string" where
  "c_str s = takeWhile (\<lambda>c. c \<noteq> NUL) s"

definition c_strlen :: "string \<Rightarrow> nat" where
  "c_strlen s = length (c_str s)"

lemma c_str_no_nul [simp]: "NUL \<notin> set s \<Longrightarrow> c_str s = s"
  unfolding c_str_def by (subst takeWhile_eq_all_conv) blast

lemma c_strlen_no_nul [simp]: "NUL \<notin> set s \<Longrightarrow> c_strlen s = length s"
  by (simp add: c_strlen_def)

lemma nul_notin_c_str [simp]: "NUL \<notin> set (c_str s)"
  unfolding c_str_def by (blast dest: set_takeWhileD)

lemma c_str_append_nul [simp]: "NUL \<notin> set s \<Longrightarrow> c_str (s @ NUL # t) = s"
  unfolding c_str_def by (subst takeWhile_append2) auto

lemma c_str_idem [simp]: "c_str (c_str s) = c_str s"
  by simp

lemma take_c_strlen [simp]: "take (c_strlen s) s = c_str s"
  unfolding c_strlen_def c_str_def by (rule takeWhile_eq_take [symmetric])

lemma c_strlen_le: "c_strlen s \<le> length s"
  by (simp add: c_strlen_def c_str_def length_takeWhile_le)

section \<open>Little-endian byte order\<close>

text \<open>The \<open>n\<close> low bytes of a number, least significant first, and the number they denote:
  how an x86-64 machine lays out an integer in memory.\<close>

fun le_bytes :: "nat \<Rightarrow> nat \<Rightarrow> u8 list" where
  "le_bytes 0 v = []"
| "le_bytes (Suc n) v = word_of_nat v # le_bytes n (v div 256)"

fun le_val :: "u8 list \<Rightarrow> nat" where
  "le_val [] = 0"
| "le_val (b # bs) = unat b + 256 * le_val bs"

lemma le_bytes_numeral:
  "le_bytes (numeral k) v = word_of_nat v # le_bytes (pred_numeral k) (v div 256)"
  by (simp only: numeral_eq_Suc [of k] le_bytes.simps)

lemma length_le_bytes [simp]: "length (le_bytes n v) = n"
  by (induction n arbitrary: v) auto

lemma le_val_le_bytes: "le_val (le_bytes n v) = v mod 256 ^ n"
proof (induction n arbitrary: v)
  case 0
  then show ?case by simp
next
  case (Suc n)
  have "v mod (256 * 256 ^ n) = 256 * (v div 256 mod 256 ^ n) + v mod 256"
    by (rule mod_mult2_eq)
  then show ?case using Suc by (simp add: unat_of_nat)
qed

lemma le_val_bound: "le_val bs < 256 ^ length bs"
proof (induction bs)
  case Nil
  then show ?case by simp
next
  case (Cons b bs)
  have "unat b < 256" using unsigned_less [of b] by simp
  then show ?case using Cons by simp
qed

lemma le_bytes_le_val: "le_bytes (length bs) (le_val bs) = bs"
proof (induction bs)
  case Nil
  then show ?case by simp
next
  case (Cons b bs)
  have "unat b < 256" using unsigned_less [of b] by simp
  moreover have "word_of_nat (256 * le_val bs) = (0 :: u8)"
    unfolding word_of_nat_eq_0_iff by (simp add: dvd_def)
  then have "(word_of_nat (unat b + 256 * le_val bs) :: u8) = b"
    by (simp only: of_nat_add) simp
  ultimately show ?case using Cons by simp
qed

section \<open>Bit fields as numbers\<close>

lemma or_high_bits: "x < 2 ^ k \<Longrightarrow> (y * 2 ^ k) OR x = y * 2 ^ k + (x :: nat)"
proof -
  assume "x < 2 ^ k"
  then have "take_bit k x = x" by (simp add: take_bit_nat_eq_self)
  then have "\<not> bit x n" if "k \<le> n" for n
    using that by (metis bit_take_bit_iff not_less)
  then have "\<not> bit (push_bit k y) n \<or> \<not> bit x n" for n
    by (auto simp: bit_push_bit_iff_nat)
  then have "push_bit k y + x = push_bit k y OR x" by (intro disjunctive_add) blast
  then show ?thesis by (simp add: push_bit_eq_mult)
qed

lemma and_mod: "(x :: nat) AND 63 = x mod 64" "x AND 31 = x mod 32" "x AND 15 = x mod 16"
    "x AND 7 = x mod 8" "x AND 3 = x mod 4" "x AND 1 = x mod 2"
  using take_bit_eq_mask [of 6 x] take_bit_eq_mask [of 5 x] take_bit_eq_mask [of 4 x]
    take_bit_eq_mask [of 3 x] take_bit_eq_mask [of 2 x] take_bit_eq_mask [of 1 x]
  by (simp_all add: mask_eq_exp_minus_1 take_bit_eq_mod)

lemma unat_drop: "unat (drop_bit k (c :: u32)) = unat c div 2 ^ k"
  unfolding unsigned_drop_bit_eq using unsigned_less [of c, where ?'a = nat]
  by (simp add: drop_bit_eq_div take_bit_nat_eq_self)

lemma unat_ucast_u8 [simp]: "unat (ucast (x :: u8) :: u32) = unat x"
  using unsigned_less [of x, where ?'a = nat] by (simp add: unsigned_ucast_eq take_bit_nat_eq_self)

lemma u8_bound: "unat (x :: u8) < 256"
  using unsigned_less [of x, where ?'a = nat] by simp

lemma unat_shifted_or:
  fixes x y :: u32
  assumes "unat y < 2 ^ k" and "unat x * 2 ^ k < 2 ^ 32"
  shows "unat (push_bit k x OR y) = unat x * 2 ^ k + unat y"
proof -
  have "unat (push_bit k x) = unat x * 2 ^ k"
    unfolding unsigned_push_bit_eq using assms(2) by (simp add: push_bit_eq_mult take_bit_nat_eq_self)
  then show ?thesis by (simp only: unsigned_or_eq or_high_bits [OF assms(1)])
qed

end
