(* ===== verification/Kvm_Stubs.thy ===== *)
theory Kvm_Stubs
  imports Prelude
begin

text \<open>
  The assembly stubs through which a guest program calls the virtual machine monitor: each
  stub of \<^verbatim>\<open>kvm_api.h\<close> loads a hypercall number into \<^verbatim>\<open>eax\<close>, writes it to I/O port 0 and, if
  the call comes back, returns. The Go binding repeats the table in \<^verbatim>\<open>go/varnish/kvm_api.c\<close>.
\<close>

section \<open>The stubs of kvm_api.h\<close>

datatype request_stub =
    Register_Func | Wait_For_Requests | Wait_For_Requests_Paused
  | Wait_For_Socket_Events_Paused | Sys_Set_Cacheable | Sys_Backend_Response
  | Begin_Streaming_Response | Sys_Http_Append | Sys_Http_Set | Sys_Http_Find
  | Sys_Http_Method | Sys_Regex_Compile | Sys_Regex_Free | Sys_Regex_Match
  | Sys_Regex_Subst | Sys_Regex_Copyto | Sys_Sockets_Write

datatype storage_stub =
    Shared_Memory_Area | Sys_Make_Ephemeral | Sys_Is_Storage | Sys_Storage_Allow
  | Storage_Callv | Sys_Storage_Task | Stop_Storage_Task | Storage_Return | Storage_Noreturn

datatype system_stub =
    Multiprocess | Multiprocess_Array | Multiprocess_Clone | Multiprocess_Wait
  | Get_Meminfo | Sys_Fetch | Sys_Request | Sys_Log | Sys_Is_Debug | Sys_Breakpoint

text \<open>The code after the \<^verbatim>\<open>out\<close> instruction: \<open>True\<close> if the stub has a \<^verbatim>\<open>ret\<close>.\<close>

record stub_code =
  eax :: nat
  has_ret :: bool

definition hypercall :: "nat \<Rightarrow> stub_code" where
  "hypercall n = \<lparr>eax = n, has_ret = True\<rparr>"

definition hypercall_noret :: "nat \<Rightarrow> stub_code" where
  "hypercall_noret n = \<lparr>eax = n, has_ret = False\<rparr>"

fun request_stub_code :: "request_stub \<Rightarrow> stub_code" where
  "request_stub_code Register_Func = hypercall 0x10000"
| "request_stub_code Wait_For_Requests = hypercall 0x10001"
| "request_stub_code Wait_For_Requests_Paused = hypercall 0x10002"
| "request_stub_code Wait_For_Socket_Events_Paused = hypercall 0x10002"
| "request_stub_code Sys_Set_Cacheable = hypercall 0x10005"
| "request_stub_code Sys_Backend_Response = hypercall 0x10010"
| "request_stub_code Begin_Streaming_Response = hypercall_noret 0x10012"
| "request_stub_code Sys_Http_Append = hypercall 0x10020"
| "request_stub_code Sys_Http_Set = hypercall 0x10021"
| "request_stub_code Sys_Http_Find = hypercall 0x10022"
| "request_stub_code Sys_Http_Method = hypercall 0x10023"
| "request_stub_code Sys_Regex_Compile = hypercall 0x10030"
| "request_stub_code Sys_Regex_Free = hypercall 0x10031"
| "request_stub_code Sys_Regex_Match = hypercall 0x10032"
| "request_stub_code Sys_Regex_Subst = hypercall 0x10033"
| "request_stub_code Sys_Regex_Copyto = hypercall 0x10035"
| "request_stub_code Sys_Sockets_Write = hypercall 0x10500"

fun storage_stub_code :: "storage_stub \<Rightarrow> stub_code" where
  "storage_stub_code Shared_Memory_Area = hypercall 0x10700"
| "storage_stub_code Sys_Make_Ephemeral = hypercall 0x10703"
| "storage_stub_code Sys_Is_Storage = hypercall 0x10706"
| "storage_stub_code Sys_Storage_Allow = hypercall 0x10707"
| "storage_stub_code Storage_Callv = hypercall 0x10708"
| "storage_stub_code Sys_Storage_Task = hypercall 0x10709"
| "storage_stub_code Stop_Storage_Task = hypercall 0x1070A"
| "storage_stub_code Storage_Return = hypercall 0x10011"
| "storage_stub_code Storage_Noreturn = hypercall_noret 0x10013"

fun system_stub_code :: "system_stub \<Rightarrow> stub_code" where
  "system_stub_code Multiprocess = hypercall 0x10710"
| "system_stub_code Multiprocess_Array = hypercall 0x10711"
| "system_stub_code Multiprocess_Clone = hypercall 0x10712"
| "system_stub_code Multiprocess_Wait = hypercall 0x10713"
| "system_stub_code Get_Meminfo = hypercall 0x10A00"
| "system_stub_code Sys_Fetch = hypercall 0x20000"
| "system_stub_code Sys_Request = hypercall 0x20001"
| "system_stub_code Sys_Log = hypercall 0x7F000"
| "system_stub_code Sys_Is_Debug = hypercall 0x7FDEB"
| "system_stub_code Sys_Breakpoint = hypercall 0x7F7F7"

datatype stub = Request request_stub | Storage storage_stub | System system_stub

fun stub_code_of :: "stub \<Rightarrow> stub_code" where
  "stub_code_of (Request r) = request_stub_code r"
| "stub_code_of (Storage s) = storage_stub_code s"
| "stub_code_of (System s) = system_stub_code s"

text \<open>The two stubs that read the per-CPU area instead of calling out.\<close>

definition vcpuid :: "(nat \<Rightarrow> u32) \<Rightarrow> u32" where
  "vcpuid gs = gs 0"

definition vcpureqid :: "(nat \<Rightarrow> u32) \<Rightarrow> u32" where
  "vcpureqid gs = gs 4"

section \<open>The stubs of the Go binding\<close>

datatype adns_stub = Sys_Adns_New | Sys_Adns_Free | Sys_Adns_Config | Sys_Adns_Get

datatype go_stub = Go_Request request_stub | Go_Adns adns_stub
  | Go_Storage storage_stub | Go_System system_stub

text \<open>\<open>None\<close> for a stub of \<^verbatim>\<open>kvm_api.h\<close> that the Go file does not define.\<close>

fun go_request_stub_code :: "request_stub \<Rightarrow> stub_code option" where
  "go_request_stub_code Register_Func = Some (hypercall 0x10000)"
| "go_request_stub_code Wait_For_Requests = Some (hypercall_noret 0x10001)"
| "go_request_stub_code Wait_For_Requests_Paused = Some (hypercall 0x10002)"
| "go_request_stub_code Wait_For_Socket_Events_Paused = None"
| "go_request_stub_code Sys_Set_Cacheable = Some (hypercall 0x10005)"
| "go_request_stub_code Sys_Backend_Response = Some (hypercall 0x10010)"
| "go_request_stub_code Begin_Streaming_Response = Some (hypercall_noret 0x10012)"
| "go_request_stub_code Sys_Http_Append = Some (hypercall 0x10020)"
| "go_request_stub_code Sys_Http_Set = Some (hypercall 0x10021)"
| "go_request_stub_code Sys_Http_Find = Some (hypercall 0x10022)"
| "go_request_stub_code Sys_Http_Method = Some (hypercall 0x10023)"
| "go_request_stub_code Sys_Regex_Compile = Some (hypercall 0x10030)"
| "go_request_stub_code Sys_Regex_Free = Some (hypercall 0x10031)"
| "go_request_stub_code Sys_Regex_Match = Some (hypercall 0x10032)"
| "go_request_stub_code Sys_Regex_Subst = Some (hypercall 0x10033)"
| "go_request_stub_code Sys_Regex_Copyto = Some (hypercall 0x10035)"
| "go_request_stub_code Sys_Sockets_Write = None"

fun go_adns_stub_code :: "adns_stub \<Rightarrow> stub_code option" where
  "go_adns_stub_code Sys_Adns_New = Some (hypercall 0x10200)"
| "go_adns_stub_code Sys_Adns_Free = Some (hypercall 0x10201)"
| "go_adns_stub_code Sys_Adns_Config = Some (hypercall 0x10202)"
| "go_adns_stub_code Sys_Adns_Get = Some (hypercall 0x10203)"

fun go_storage_stub_code :: "storage_stub \<Rightarrow> stub_code option" where
  "go_storage_stub_code Shared_Memory_Area = Some (hypercall 0x10700)"
| "go_storage_stub_code Sys_Make_Ephemeral = Some (hypercall 0x10703)"
| "go_storage_stub_code Sys_Is_Storage = Some (hypercall 0x10706)"
| "go_storage_stub_code Sys_Storage_Allow = Some (hypercall 0x10707)"
| "go_storage_stub_code Storage_Callv = Some (hypercall 0x10708)"
| "go_storage_stub_code Sys_Storage_Task = Some (hypercall 0x10709)"
| "go_storage_stub_code Stop_Storage_Task = Some (hypercall 0x1070A)"
| "go_storage_stub_code Storage_Return = Some (hypercall 0x10011)"
| "go_storage_stub_code Storage_Noreturn = Some (hypercall_noret 0x10013)"

fun go_system_stub_code :: "system_stub \<Rightarrow> stub_code option" where
  "go_system_stub_code Multiprocess = Some (hypercall 0x10710)"
| "go_system_stub_code Multiprocess_Array = Some (hypercall 0x10711)"
| "go_system_stub_code Multiprocess_Clone = Some (hypercall 0x10712)"
| "go_system_stub_code Multiprocess_Wait = Some (hypercall 0x10713)"
| "go_system_stub_code Get_Meminfo = Some (hypercall 0x10A00)"
| "go_system_stub_code Sys_Fetch = Some (hypercall 0x20000)"
| "go_system_stub_code Sys_Request = Some (hypercall 0x20001)"
| "go_system_stub_code Sys_Log = Some (hypercall 0x7F000)"
| "go_system_stub_code Sys_Is_Debug = Some (hypercall 0x7FDEB)"
| "go_system_stub_code Sys_Breakpoint = Some (hypercall 0x7F7F7)"

fun go_stub_code :: "go_stub \<Rightarrow> stub_code option" where
  "go_stub_code (Go_Request r) = go_request_stub_code r"
| "go_stub_code (Go_Adns a) = go_adns_stub_code a"
| "go_stub_code (Go_Storage s) = go_storage_stub_code s"
| "go_stub_code (Go_System s) = go_system_stub_code s"

section \<open>The numbers identify the calls\<close>

lemmas stub_simps = hypercall_def hypercall_noret_def

text \<open>The only two stubs of the table that share a number are the two that pause the
  machine: a monitor that dispatches on \<^verbatim>\<open>eax\<close> can tell every other pair apart.\<close>

definition pausing :: "stub \<Rightarrow> bool" where
  "pausing s \<longleftrightarrow> s = Request Wait_For_Requests_Paused \<or> s = Request Wait_For_Socket_Events_Paused"

lemma request_numbers_below: "eax (request_stub_code r) < 0x10700"
  by (cases r) (simp_all add: stub_simps)

lemma storage_number_not_request: "eax (storage_stub_code s) \<noteq> eax (request_stub_code r)"
  by (cases s; cases r) (simp_all add: stub_simps)

lemma system_number_not_request: "eax (system_stub_code s) \<noteq> eax (request_stub_code r)"
  by (cases s; cases r) (simp_all add: stub_simps)

lemma system_number_not_storage: "eax (system_stub_code s) \<noteq> eax (storage_stub_code t)"
  by (cases s; cases t) (simp_all add: stub_simps)

lemma storage_numbers_inj: "eax (storage_stub_code s) = eax (storage_stub_code t) \<Longrightarrow> s = t"
  by (cases s; cases t) (simp_all add: stub_simps)

lemma system_numbers_inj: "eax (system_stub_code s) = eax (system_stub_code t) \<Longrightarrow> s = t"
  by (cases s; cases t) (simp_all add: stub_simps)

lemma request_numbers_inj:
  "eax (request_stub_code s) = eax (request_stub_code t) \<Longrightarrow>
    s = t \<or> pausing (Request s) \<and> pausing (Request t)"
  by (cases s; cases t) (simp_all add: stub_simps pausing_def)

end
