(* ===== verification/Shared_Memory.thy ===== *)
theory Shared_Memory
  imports Prelude
begin

text \<open>
  The bump allocator over the memory shared by all machines, \<^verbatim>\<open>internal_shm_alloc\<close> of
  \<^verbatim>\<open>kvm_api.h\<close>. Pointers and sizes are 64-bit words, as in the code; the area is what the
  monitor answers.
\<close>

record shm_info =
  shm_ptr :: u64
  shm_end :: u64

definition internal_shm_alloc ::
    "shm_info \<Rightarrow> shm_info \<Rightarrow> u64 \<Rightarrow> u64 \<Rightarrow> u64 option \<times> shm_info" where
  "internal_shm_alloc area info sz align =
     (let info1 = (if shm_ptr info = 0 then area else info);
          p = (shm_ptr info1 + (align - 1)) AND NOT (align - 1);
          info2 = info1\<lparr>shm_ptr := p + sz\<rparr>
      in (if p + sz \<le> shm_end info2 then Some p else None, info2))"

text \<open>A program that allocates several objects, each with its sz and alignment.\<close>

fun shm_allocs :: "shm_info \<Rightarrow> shm_info \<Rightarrow> (u64 \<times> u64) list \<Rightarrow> u64 option list \<times> shm_info" where
  "shm_allocs area info [] = ([], info)"
| "shm_allocs area info ((sz, align) # rs) =
     (let (p, info1) = internal_shm_alloc area info sz align;
          (ps, info2) = shm_allocs area info1 rs
      in (p # ps, info2))"

definition demand :: "(u64 \<times> u64) list \<Rightarrow> nat" where
  "demand rs = (\<Sum>(sz, align)\<leftarrow>rs. unat sz + unat align)"

definition pow2 :: "u64 \<Rightarrow> bool" where
  "pow2 a \<longleftrightarrow> (\<exists>k < 64. a = 2 ^ k)"

lemma demand_simps [simp]:
  "demand [] = 0" "demand ((s, a) # rs) = unat s + unat a + demand rs"
  by (simp_all add: demand_def)

section \<open>Rounding up\<close>

lemma unat_clear_low:
  fixes x :: "'a::len word"
  shows "unat (x AND NOT (mask k)) = unat x - unat x mod 2 ^ k"
proof -
  have "x AND NOT (mask k) = x AND NOT (take_bit k x)"
    by (rule bit_eqI) (auto simp: bit_simps)
  also have "\<dots> = x - take_bit k x"
    by (rule disjunctive_diff [symmetric]) (simp add: bit_simps)
  finally have eq: "x AND NOT (mask k) = x - take_bit k x" .
  have t: "unat (take_bit k x) = unat x mod 2 ^ k"
    by (simp add: unsigned_take_bit_eq flip: take_bit_eq_mod)
  then have "take_bit k x \<le> x"
    by (simp add: word_le_nat_alt)
  then show ?thesis
    by (simp add: eq unat_sub t)
qed

lemma unat_pow2:
  assumes "k < 64"
  shows "unat (2 ^ k :: u64) = 2 ^ k"
proof -
  have "(2::nat) ^ k < 2 ^ 64" using assms by (rule power_strict_increasing) simp
  then show ?thesis using unat_of_nat [of "2 ^ k", where 'a = 64] by simp
qed

lemma round_up:
  fixes x a :: u64
  assumes "pow2 a" and "unat x + unat a \<le> 2 ^ 64"
  shows "unat x \<le> unat ((x + (a - 1)) AND NOT (a - 1))"
    and "unat ((x + (a - 1)) AND NOT (a - 1)) < unat x + unat a"
    and "unat a dvd unat ((x + (a - 1)) AND NOT (a - 1))"
proof -
  obtain k where k: "k < 64" "a = 2 ^ k" using assms(1) by (auto simp: pow2_def)
  have a: "unat a = 2 ^ k" using k by (simp add: unat_pow2)
  have "(1::u64) \<le> 2 ^ k" using a k by (simp add: word_le_nat_alt)
  then have am: "unat (a - 1) = 2 ^ k - 1" using a k by (simp add: unat_sub)
  have ge: "(1::nat) \<le> 2 ^ k" by simp
  have s: "unat (x + (a - 1)) = unat x + (2 ^ k - 1)"
    using assms(2) a am ge by (subst unat_add_lem [THEN iffD1]) auto
  have m: "a - 1 = mask k" using k by (simp add: mask_eq_exp_minus_1)
  let ?y = "unat x + (2 ^ k - 1)"
  have v: "unat ((x + (a - 1)) AND NOT (a - 1)) = ?y - ?y mod 2 ^ k"
    using s unat_clear_low [of "x + (a - 1)" k] by (simp add: m)
  have "?y mod 2 ^ k < 2 ^ k" by simp
  then show "unat x \<le> unat ((x + (a - 1)) AND NOT (a - 1))" using v by linarith
  show "unat ((x + (a - 1)) AND NOT (a - 1)) < unat x + unat a" using v a ge by linarith
  show "unat a dvd unat ((x + (a - 1)) AND NOT (a - 1))"
    unfolding v a by (metis dvd_minus_mod)
qed

section \<open>One allocation, then many\<close>

text \<open>What one allocation does from a state whose pointer is set, when neither the rounding
  nor the end of the block wraps around.\<close>

lemma internal_shm_alloc_step:
  assumes "shm_ptr info \<noteq> 0" and "pow2 align"
    and "unat (shm_ptr info) + unat sz + unat align \<le> 2 ^ 64"
    and "internal_shm_alloc area info sz align = (r, info2)"
  shows "shm_end info2 = shm_end info"
    and "unat (shm_ptr info2) < unat (shm_ptr info) + unat sz + unat align"
    and "unat (shm_ptr info) \<le> unat (shm_ptr info2) - unat sz"
    and "unat sz \<le> unat (shm_ptr info2)"
    and "r = (if shm_ptr info2 \<le> shm_end info2 then Some (shm_ptr info2 - sz) else None)"
    and "unat (shm_ptr info2 - sz) = unat (shm_ptr info2) - unat sz"
    and "unat align dvd unat (shm_ptr info2) - unat sz"
proof -
  let ?p = "(shm_ptr info + (align - 1)) AND NOT (align - 1)"
  note up = round_up [OF assms(2), of "shm_ptr info"]
  have b: "unat (shm_ptr info) + unat align \<le> 2 ^ 64" using assms(3) by linarith
  have nw: "unat ?p + unat sz < 2 ^ 64" using up(2)[OF b] assms(3) by linarith
  then have add: "unat (?p + sz) = unat ?p + unat sz"
    using unat_add_lem [of ?p sz] by simp
  have info2: "info2 = info\<lparr>shm_ptr := ?p + sz\<rparr>"
    and r: "r = (if ?p + sz \<le> shm_end info then Some ?p else None)"
    using assms(1,4) by (auto simp: internal_shm_alloc_def Let_def)
  show "shm_end info2 = shm_end info" by (simp add: info2)
  show "unat (shm_ptr info2) < unat (shm_ptr info) + unat sz + unat align"
    using up(2)[OF b] add by (simp add: info2)
  show "unat (shm_ptr info) \<le> unat (shm_ptr info2) - unat sz"
    using up(1)[OF b] add by (simp add: info2)
  show "unat sz \<le> unat (shm_ptr info2)" using add by (simp add: info2)
  show "r = (if shm_ptr info2 \<le> shm_end info2 then Some (shm_ptr info2 - sz) else None)"
    by (simp add: info2 r)
  show "unat (shm_ptr info2 - sz) = unat (shm_ptr info2) - unat sz"
    using add by (simp add: info2)
  show "unat align dvd unat (shm_ptr info2) - unat sz"
    using up(3)[OF b] add by (simp add: info2)
qed

text \<open>The blocks handed out by a run, as \<open>(start, sz, alignment)\<close>, in order.\<close>

fun blocks :: "(u64 \<times> u64) list \<Rightarrow> u64 option list \<Rightarrow> (nat \<times> nat \<times> nat) list" where
  "blocks ((s, a) # rs) (Some p # ps) = (unat p, unat s, unat a) # blocks rs ps"
| "blocks ((s, a) # rs) (None # ps) = blocks rs ps"
| "blocks _ _ = []"

definition block_in :: "nat \<Rightarrow> nat \<Rightarrow> nat \<times> nat \<times> nat \<Rightarrow> bool" where
  "block_in lo hi b = (case b of (p, s, a) \<Rightarrow> lo \<le> p \<and> p + s \<le> hi \<and> a dvd p)"

definition block_before :: "nat \<times> nat \<times> nat \<Rightarrow> nat \<times> nat \<times> nat \<Rightarrow> bool" where
  "block_before b c = (fst b + fst (snd b) \<le> fst c)"

lemma block_in_mono: "block_in lo hi b \<Longrightarrow> lo' \<le> lo \<Longrightarrow> block_in lo' hi b"
  by (auto simp: block_in_def split: prod.splits)

lemma shm_allocs_blocks:
  assumes "shm_ptr info \<noteq> 0" and "\<forall>(s, a) \<in> set rs. pow2 a"
    and "unat (shm_ptr info) + demand rs \<le> 2 ^ 64"
  shows "list_all (block_in (unat (shm_ptr info)) (unat (shm_end info)))
           (blocks rs (fst (shm_allocs area info rs)))
       \<and> sorted_wrt block_before (blocks rs (fst (shm_allocs area info rs)))"
  using assms
proof (induction rs arbitrary: info)
  case Nil
  then show ?case by simp
next
  case (Cons r rs)
  obtain s a where r: "r = (s, a)" by fastforce
  obtain p info2 where step: "internal_shm_alloc area info s a = (p, info2)" by fastforce
  have "pow2 a" and bound: "unat (shm_ptr info) + unat s + unat a \<le> 2 ^ 64"
    using Cons.prems r by auto
  note st = internal_shm_alloc_step [OF Cons.prems(1) \<open>pow2 a\<close> bound step]
  have pos: "0 < unat (shm_ptr info)" using Cons.prems(1) by (simp add: unat_gt_0)
  then have nz: "shm_ptr info2 \<noteq> 0" using st(3,4) by auto
  have dm: "unat (shm_ptr info2) + demand rs \<le> 2 ^ 64"
    using Cons.prems(3) st(2) r by simp
  have IH: "list_all (block_in (unat (shm_ptr info2)) (unat (shm_end info)))
       (blocks rs (fst (shm_allocs area info2 rs)))"
     "sorted_wrt block_before (blocks rs (fst (shm_allocs area info2 rs)))"
    using Cons.IH [OF nz _ dm] Cons.prems(2) st(1) by auto
  have le: "unat (shm_ptr info) \<le> unat (shm_ptr info2)" using st(3) by linarith
  have tail: "list_all (block_in (unat (shm_ptr info)) (unat (shm_end info)))
       (blocks rs (fst (shm_allocs area info2 rs)))"
    using IH(1) block_in_mono [OF _ le] by (auto simp: list_all_iff)
  have out: "fst (shm_allocs area info (r # rs)) = p # fst (shm_allocs area info2 rs)"
    by (simp add: r step split: prod.splits)
  show ?case
  proof (cases "shm_ptr info2 \<le> shm_end info")
    case False
    then have "p = None" using st(1,5) by simp
    then show ?thesis using tail IH(2) out r by simp
  next
    case True
    then have p: "p = Some (shm_ptr info2 - s)" using st(1,5) by simp
    let ?b = "(unat (shm_ptr info2 - s), unat s, unat a)"
    have b: "block_in (unat (shm_ptr info)) (unat (shm_end info)) ?b"
      using st(3,4,6,7) True by (simp add: block_in_def word_le_nat_alt)
    have "\<forall>c \<in> set (blocks rs (fst (shm_allocs area info2 rs))). block_before ?b c"
      using IH(1) st(4,6) by (auto simp: list_all_iff block_in_def block_before_def)
    then show ?thesis using b tail IH(2) out r p by simp
  qed
qed

text \<open>When the area can hold everything asked for, every request is served.\<close>

lemma shm_allocs_all_served:
  assumes "shm_ptr info \<noteq> 0" and "\<forall>(s, a) \<in> set rs. pow2 a"
    and "unat (shm_ptr info) + demand rs \<le> unat (shm_end info)"
  shows "None \<notin> set (fst (shm_allocs area info rs))"
  using assms
proof (induction rs arbitrary: info)
  case Nil
  then show ?case by simp
next
  case (Cons r rs)
  obtain s a where r: "r = (s, a)" by fastforce
  obtain p info2 where step: "internal_shm_alloc area info s a = (p, info2)" by fastforce
  have "unat (shm_end info) < 2 ^ 64" using unsigned_less [of "shm_end info"] by simp
  then have "pow2 a" and bound: "unat (shm_ptr info) + unat s + unat a \<le> 2 ^ 64"
    using Cons.prems r by auto
  note st = internal_shm_alloc_step [OF Cons.prems(1) \<open>pow2 a\<close> bound step]
  have "0 < unat (shm_ptr info)" using Cons.prems(1) by (simp add: unat_gt_0)
  then have nz: "shm_ptr info2 \<noteq> 0" using st(3,4) by auto
  have dm: "unat (shm_ptr info2) + demand rs \<le> unat (shm_end info2)"
    using Cons.prems(3) st(1,2) r by simp
  have "None \<notin> set (fst (shm_allocs area info2 rs))"
    using Cons.IH [OF nz _ dm] Cons.prems(2) by simp
  moreover have "p \<noteq> None" using st(1,5) dm by (auto simp: word_le_nat_alt)
  ultimately show ?case by (auto simp: r step split: prod.splits)
qed

lemma shm_allocs_first:
  assumes "shm_ptr info = 0"
  shows "shm_allocs area info (r # rs) = shm_allocs area area (r # rs)"
  using assms by (cases r) (simp add: internal_shm_alloc_def Let_def)

end
