(* ===== verification/Guest.thy ===== *)
theory Guest
  imports Prelude
begin

text \<open>
  How a guest program runs: a C function of a guest is a function of the world it runs in,
  with three outcomes. It may return a value, it may stop the machine (a response concludes
  the request, \<^verbatim>\<open>wait_for_requests\<close> freezes the program), or it may fault (a failed
  \<^verbatim>\<open>assert\<close>, an access outside an object). The world records every hypercall made, with its
  data, and holds the static variables of the program, of any type. What the monitor answers
  is a parameter, the record \<open>host\<close>: each answer may depend on all calls made before it.
\<close>

section \<open>The data that crosses the hypercall boundary\<close>

record response_extra =
  rx_headers :: "string list"
  rx_cached :: bool
  rx_ttl :: "int \<times> int"
  rx_grace :: "int \<times> int"
  rx_keep :: "int \<times> int"

text \<open>\<^verbatim>\<open>struct curl_op\<close>. A \<^verbatim>\<open>NULL\<close> pointer is \<^const>\<open>None\<close>; \<open>op_ctype\<close> is the 128-byte array.\<close>

record curl_op =
  op_status :: nat
  op_post_buflen :: nat
  op_post_buffer :: "string option"
  op_headers :: "string option"
  op_headers_length :: nat
  op_content :: "string option"
  op_content_length :: nat
  op_ctlen :: nat
  op_ctype :: string

text \<open>\<^verbatim>\<open>struct curl_fields\<close>: the two arrays of \<^verbatim>\<open>CURL_FIELDS_COUNT\<close> entries.\<close>

record curl_fields =
  cf_ptr :: "string option list"
  cf_len :: "nat list"

definition CURL_FIELDS_COUNT :: nat where
  "CURL_FIELDS_COUNT = 12"

record curl_options =
  co_interface :: "string option"
  co_follow_location :: bool
  co_dummy_fetch :: bool
  co_tcp_fast_open :: bool
  co_dont_verify_host :: bool

record meminfo =
  max_memory :: u64
  max_reqmem :: u64
  reqmem_upper :: u64
  reqmem_current :: u64

text \<open>The zero-initialised structs \<^verbatim>\<open>= {}\<close>.\<close>

definition curl_op_zero :: curl_op where
  "curl_op_zero = \<lparr>op_status = 0, op_post_buflen = 0, op_post_buffer = None,
     op_headers = None, op_headers_length = 0, op_content = None, op_content_length = 0,
     op_ctlen = 0, op_ctype = replicate 128 NUL\<rparr>"

definition curl_fields_zero :: curl_fields where
  "curl_fields_zero = \<lparr>cf_ptr = replicate CURL_FIELDS_COUNT None,
     cf_len = replicate CURL_FIELDS_COUNT 0\<rparr>"

definition curl_options_zero :: curl_options where
  "curl_options_zero = \<lparr>co_interface = None, co_follow_location = False,
     co_dummy_fetch = False, co_tcp_fast_open = False, co_dont_verify_host = False\<rparr>"

section \<open>Hypercalls and the monitor\<close>

text \<open>Functions handed to the monitor are known by their names in the source.\<close>

datatype hcall =
    HRegister nat string
  | HWait
  | HSetCacheable bool int int int
  | HResponse int string string "response_extra option"
  | HStream int string nat string string
  | HHttpAppend int string
  | HHttpSet int string
  | HHttpFind int string "nat option"
  | HHttpMethod nat
  | HStorageAllow string
  | HStorageCall string "string list" nat
  | HStorageTask string string int int
  | HStorageReturn string
  | HFetch string curl_op "curl_fields option" "curl_options option"
  | HLog string
  | HShmArea
  | HMeminfo

record host =
  ans_append :: "hcall list \<Rightarrow> int \<Rightarrow> string \<Rightarrow> int"
  ans_set :: "hcall list \<Rightarrow> int \<Rightarrow> string \<Rightarrow> int"
  ans_find :: "hcall list \<Rightarrow> int \<Rightarrow> string \<Rightarrow> nat option \<Rightarrow> string \<times> nat"
  ans_method :: "hcall list \<Rightarrow> nat \<Rightarrow> string \<times> nat"
  ans_cacheable :: "hcall list \<Rightarrow> int"
  ans_callv :: "hcall list \<Rightarrow> string \<Rightarrow> string list \<Rightarrow> nat \<Rightarrow> string \<times> int"
  ans_task :: "hcall list \<Rightarrow> string \<Rightarrow> int"
  ans_fetch :: "hcall list \<Rightarrow> string \<Rightarrow> curl_op \<Rightarrow> curl_fields option \<Rightarrow>
    curl_options option \<Rightarrow> int \<times> curl_op"
  ans_shm_area :: "u64 \<times> u64"

section \<open>Guest code\<close>

record 's world =
  calls :: "hcall list"
  vars :: 's

datatype 'a outcome = Val 'a | Stop | Fault

type_synonym ('s, 'a) guest = "'s world \<Rightarrow> 'a outcome \<times> 's world"

definition ret :: "'a \<Rightarrow> ('s, 'a) guest" where
  "ret a = (\<lambda>w. (Val a, w))"

definition seq :: "('s, 'a) guest \<Rightarrow> ('a \<Rightarrow> ('s, 'b) guest) \<Rightarrow> ('s, 'b) guest" where
  "seq m f = (\<lambda>w. case m w of
     (Val a, w') \<Rightarrow> f a w' | (Stop, w') \<Rightarrow> (Stop, w') | (Fault, w') \<Rightarrow> (Fault, w'))"

abbreviation andthen :: "('s, unit) guest \<Rightarrow> ('s, 'b) guest \<Rightarrow> ('s, 'b) guest" where
  "andthen m n \<equiv> seq m (\<lambda>_. n)"

definition fault :: "('s, 'a) guest" where
  "fault = (\<lambda>w. (Fault, w))"

definition stop :: "('s, 'a) guest" where
  "stop = (\<lambda>w. (Stop, w))"

definition get_vars :: "('s, 's) guest" where
  "get_vars = (\<lambda>w. (Val (vars w), w))"

definition put_vars :: "'s \<Rightarrow> ('s, unit) guest" where
  "put_vars s = (\<lambda>w. (Val (), w\<lparr>vars := s\<rparr>))"

definition issue :: "hcall \<Rightarrow> (hcall list \<Rightarrow> 'a) \<Rightarrow> ('s, 'a) guest" where
  "issue h ans = (\<lambda>w. (Val (ans (calls w)), w\<lparr>calls := calls w @ [h]\<rparr>))"

text \<open>\<^verbatim>\<open>assert\<close>, and reading \<open>n\<close> bytes through a pointer.\<close>

definition assertg :: "bool \<Rightarrow> ('s, unit) guest" where
  "assertg b = (if b then ret () else fault)"

definition read_bytes :: "string \<Rightarrow> nat \<Rightarrow> ('s, string) guest" where
  "read_bytes buf n = (if n \<le> length buf then ret (take n buf) else fault)"

text \<open>\<^verbatim>\<open>malloc\<close> is a parameter of the code that calls it: it gives a fresh block of the size asked
  for, with whatever it contains, or \<^const>\<open>None\<close> for \<^verbatim>\<open>NULL\<close>.\<close>

definition lawful_malloc :: "(nat \<Rightarrow> string option) \<Rightarrow> bool" where
  "lawful_malloc malloc \<longleftrightarrow> (\<forall>n b. malloc n = Some b \<longrightarrow> length b = n)"

text \<open>A nullable pointer may be read for zero bytes only when it is \<^verbatim>\<open>NULL\<close>.\<close>

definition read_ptr :: "string option \<Rightarrow> nat \<Rightarrow> ('s, string) guest" where
  "read_ptr p n = (case p of Some b \<Rightarrow> read_bytes b n | None \<Rightarrow> if n = 0 then ret [] else fault)"

lemma seq_ret [simp]: "seq (ret a) f = f a"
  by (simp add: seq_def ret_def)

lemma seq_fault [simp]: "seq fault f = fault"
  by (simp add: seq_def fault_def)

lemma seq_stop [simp]: "seq stop f = stop"
  by (simp add: seq_def stop_def)

lemma seq_assoc [simp]: "seq (seq m f) g = seq m (\<lambda>a. seq (f a) g)"
  by (rule ext) (simp add: seq_def split: prod.splits outcome.splits)

lemma seq_issue [simp]:
  "seq (issue h ans) f w = f (ans (calls w)) (w\<lparr>calls := calls w @ [h]\<rparr>)"
  by (simp add: seq_def issue_def)

lemma seq_get [simp]: "seq get_vars f w = f (vars w) w"
  by (simp add: seq_def get_vars_def)

lemma seq_put [simp]: "seq (put_vars s) f w = f () (w\<lparr>vars := s\<rparr>)"
  by (simp add: seq_def put_vars_def)

lemma assertg_simps [simp]: "assertg True = ret ()" "assertg False = fault"
  by (simp_all add: assertg_def)

lemma read_bytes_ok [simp]: "n \<le> length buf \<Longrightarrow> read_bytes buf n = ret (take n buf)"
  by (simp add: read_bytes_def)

lemma read_bytes_over [simp]: "length buf < n \<Longrightarrow> read_bytes buf n = fault"
  by (simp add: read_bytes_def)

lemma read_ptr_simps [simp]:
  "read_ptr (Some b) n = read_bytes b n" "read_ptr None 0 = ret []"
  "0 < n \<Longrightarrow> read_ptr None n = fault"
  by (simp_all add: read_ptr_def)

lemma run_simps [simp]:
  "ret a w = (Val a, w)" "fault w = (Fault, w)" "stop w = (Stop, w)"
  "issue h ans w = (Val (ans (calls w)), w\<lparr>calls := calls w @ [h]\<rparr>)"
  "get_vars w = (Val (vars w), w)" "put_vars s w = (Val (), w\<lparr>vars := s\<rparr>)"
  by (simp_all add: ret_def fault_def stop_def issue_def get_vars_def put_vars_def)

lemma seq_Pair [simp]: "seq (Pair (Val a)) f = f a"
  by (rule ext) (simp add: seq_def)

lemma seq_lambda [simp]: "seq (\<lambda>w. (Val (g w), h w)) f = (\<lambda>w. f (g w) (h w))"
  by (rule ext) (simp add: seq_def)

text \<open>The response of a run is the last call of its trace, when it is one.\<close>

definition responded :: "('a outcome \<times> 's world) \<Rightarrow> (int \<times> string \<times> string) option" where
  "responded r = (case r of (Stop, w) \<Rightarrow>
      (case rev (calls w) of HResponse st ct body _ # _ \<Rightarrow> Some (st, ct, body) | _ \<Rightarrow> None)
    | _ \<Rightarrow> None)"

lemma responded_response [simp]:
  "responded (Stop, w\<lparr>calls := cs @ [HResponse st ct body x]\<rparr>) = Some (st, ct, body)"
  by (simp add: responded_def)

lemma responded_Val [simp]: "responded (Val a, w) = None"
  by (simp add: responded_def)

lemma responded_seq_Stop: "m w = (Stop, w') \<Longrightarrow> responded (seq m f w) = responded (m w)"
  by (simp add: seq_def responded_def)

lemma responded_seq_Val: "m w = (Val a, w') \<Longrightarrow> responded (seq m f w) = responded (f a w')"
  by (simp add: seq_def)

lemma responded_Stop: "responded r \<noteq> None \<Longrightarrow> fst r = Stop"
  by (simp add: responded_def split: prod.splits outcome.splits)

text \<open>Code that stops the machine has answered the request.\<close>

definition answers :: "('s, 'a) guest \<Rightarrow> bool" where
  "answers m \<longleftrightarrow> (\<forall>w. fst (m w) = Stop \<longrightarrow> responded (m w) \<noteq> None)"

lemma answersD: "answers m \<Longrightarrow> fst (m w) = Stop \<Longrightarrow> responded (m w) \<noteq> None"
  by (simp add: answers_def)

lemma answers_ret [simp]: "answers (ret a)"
  by (simp add: answers_def)

section \<open>Callbacks with a fallback\<close>

text \<open>The handlers of the language bindings run a callback of the guest language and then a
  response of their own, which matters only when the callback returns without one. What they
  rely on is that their response always concludes the request, with a fixed status, type and
  body.\<close>

locale fallback_reply =
  fixes reply :: "('s, unit) guest" and st :: int and ct :: string and body :: string
  assumes reply_run: "reply w = (Stop, w\<lparr>calls := calls w @ [HResponse st ct body None]\<rparr>)"
begin

lemma responded_reply [simp]: "responded (reply w) = Some (st, ct, body)"
  by (simp add: reply_run)

lemma responded_after:
  assumes "fst (m w) \<noteq> Fault"
  shows "responded (seq m (\<lambda>_. reply) w)
    = (if fst (m w) = Stop then responded (m w) else Some (st, ct, body))"
proof (cases "m w")
  case (Pair r w')
  then show ?thesis using assms
    by (cases r) (simp_all add: responded_seq_Stop responded_seq_Val)
qed

lemma answered_after:
  assumes "fst (m w) \<noteq> Fault" and "answers m"
  shows "responded (seq m (\<lambda>_. reply) w) \<noteq> None"
  using responded_after [of m w] assms(1) answersD [OF assms(2), of w] by simp

end

end
