(* ===== verification/Kvm_Api.thy ===== *)
theory Kvm_Api
  imports Guest
begin

text \<open>
  The C API of \<^verbatim>\<open>kvm_api.h\<close>: its inline functions, over the hypercalls of theory
  \<^verbatim>\<open>Guest\<close>. Functions of the standard library that format text are given their result: a
  formatted text is \<^const>\<open>None\<close> when \<^verbatim>\<open>vsnprintf\<close> reports an encoding error.
\<close>

section \<open>Registering callbacks\<close>

definition register_func :: "nat \<Rightarrow> string \<Rightarrow> ('s, unit) guest" where
  "register_func n f = issue (HRegister n f) (\<lambda>_. ())"

definition set_backend_get :: "string \<Rightarrow> ('s, unit) guest" where
  "set_backend_get f = register_func 1 f"

definition set_backend_post :: "string \<Rightarrow> ('s, unit) guest" where
  "set_backend_post f = register_func 2 f"

definition set_backend_request :: "string \<Rightarrow> ('s, unit) guest" where
  "set_backend_request f = register_func 3 f"

definition set_backend_stream_post :: "string \<Rightarrow> ('s, unit) guest" where
  "set_backend_stream_post f = register_func 4 f"

definition set_on_error :: "string \<Rightarrow> ('s, unit) guest" where
  "set_on_error f = register_func 5 f"

definition set_on_live_update :: "string \<Rightarrow> ('s, unit) guest" where
  "set_on_live_update f = register_func 6 f"

definition set_on_live_restore :: "string \<Rightarrow> ('s, unit) guest" where
  "set_on_live_restore f = register_func 7 f"

definition set_socket_prepare_for_pause :: "string \<Rightarrow> ('s, unit) guest" where
  "set_socket_prepare_for_pause f = register_func 12 f"

definition wait_for_requests :: "('s, unit) guest" where
  "wait_for_requests = andthen (issue HWait (\<lambda>_. ())) stop"

lemmas register_defs = register_func_def set_backend_get_def set_backend_post_def
  set_backend_request_def set_backend_stream_post_def set_on_error_def
  set_on_live_update_def set_on_live_restore_def set_socket_prepare_for_pause_def

text \<open>The macros that read the environment of \<^verbatim>\<open>main\<close>. \<^verbatim>\<open>strcmp\<close> of an unset variable
  is a read through \<^verbatim>\<open>NULL\<close>: \<^const>\<open>None\<close>.\<close>

definition is_sandboxed_main :: "(string \<rightharpoonup> string) \<Rightarrow> bool" where
  "is_sandboxed_main env \<longleftrightarrow> env ''KVM_NAME'' \<noteq> None"

definition is_linux_main :: "(string \<rightharpoonup> string) \<Rightarrow> bool" where
  "is_linux_main env \<longleftrightarrow> \<not> is_sandboxed_main env"

definition is_storage :: "(string \<rightharpoonup> string) \<Rightarrow> bool option" where
  "is_storage env = map_option (\<lambda>v. v = ''storage'') (env ''KVM_TYPE'')"

definition is_request :: "(string \<rightharpoonup> string) \<Rightarrow> bool option" where
  "is_request env = map_option (\<lambda>v. v = ''request'') (env ''KVM_TYPE'')"

definition is_debug :: "(string \<rightharpoonup> string) \<Rightarrow> bool option" where
  "is_debug env = map_option (\<lambda>v. v = ''1'') (env ''KVM_DEBUG'')"

section \<open>Requests and responses\<close>

record kvm_request_header =
  rh_field :: string
  rh_field_colon :: nat
  rh_field_len :: nat

record kvm_request =
  rq_method :: string
  rq_url :: string
  rq_arg :: string
  rq_content_type :: string
  rq_content :: "string option"
  rq_content_len :: nat
  rq_headers :: "kvm_request_header list"
  rq_num_headers :: nat
  rq_info_flags :: u16

definition is_warmup_request :: "kvm_request \<Rightarrow> bool" where
  "is_warmup_request r \<longleftrightarrow> rq_info_flags r AND 1 \<noteq> 0"

text \<open>A response concludes the request: the monitor does not resume the machine.\<close>

definition sys_backend_response ::
    "int \<Rightarrow> string option \<Rightarrow> nat \<Rightarrow> string option \<Rightarrow> nat \<Rightarrow> response_extra option \<Rightarrow> ('s, 'a) guest" where
  "sys_backend_response status t tlen c clen extra =
     seq (read_ptr t tlen) (\<lambda>t'. seq (read_ptr c clen) (\<lambda>c'.
       andthen (issue (HResponse (int16_of status) t' c' extra) (\<lambda>_. ())) stop))"

definition backend_response ::
    "int \<Rightarrow> string option \<Rightarrow> nat \<Rightarrow> string option \<Rightarrow> nat \<Rightarrow> ('s, 'a) guest" where
  "backend_response status t tlen c clen = sys_backend_response status t tlen c clen None"

definition backend_response_str :: "int \<Rightarrow> string \<Rightarrow> string \<Rightarrow> ('s, 'a) guest" where
  "backend_response_str status ctype content =
     sys_backend_response status (Some ctype) (c_strlen ctype) (Some content) (c_strlen content) None"

definition backend_response_extra ::
    "int \<Rightarrow> string option \<Rightarrow> nat \<Rightarrow> string option \<Rightarrow> nat \<Rightarrow> response_extra option \<Rightarrow> ('s, 'a) guest" where
  "backend_response_extra status t tlen c clen extra =
     sys_backend_response status t tlen c clen extra"

definition begin_streaming_response ::
    "int \<Rightarrow> string \<Rightarrow> nat \<Rightarrow> nat \<Rightarrow> string \<Rightarrow> string \<Rightarrow> ('s, 'a) guest" where
  "begin_streaming_response status t tlen content_length cb arg =
     seq (read_bytes t tlen) (\<lambda>t'.
       andthen (issue (HStream (int16_of status) t' content_length cb arg) (\<lambda>_. ())) stop)"

lemma backend_response_str_run [simp]:
  "backend_response_str st ct body w =
     (Stop, w\<lparr>calls := calls w @ [HResponse (int16_of st) (c_str ct) (c_str body) None]\<rparr>)"
  by (simp add: backend_response_str_def sys_backend_response_def c_strlen_le)

lemma backend_response_run:
  "tlen \<le> length t \<Longrightarrow> clen \<le> length c \<Longrightarrow> backend_response st (Some t) tlen (Some c) clen w =
     (Stop, w\<lparr>calls := calls w @ [HResponse (int16_of st) (take tlen t) (take clen c) None]\<rparr>)"
  by (simp add: backend_response_def sys_backend_response_def)

lemma seq_backend_response_str [simp]:
  "seq (backend_response_str st ct body) f = backend_response_str st ct body"
  by (rule ext) (simp add: seq_def)

text \<open>The responses the bindings fall back on.\<close>

interpretation str_reply: fallback_reply "backend_response_str st ct body" "int16_of st" "c_str ct"
  "c_str body" for st ct body
  by unfold_locales simp

interpretation len_reply: fallback_reply
  "backend_response st (Some ct) (length ct) (Some body) (length body)" "int16_of st" ct body
  for st ct body
  by unfold_locales (simp add: backend_response_run)

section \<open>Header fields\<close>

definition REQ :: int where "REQ = 0"
definition RESP :: int where "RESP = 1"
definition BEREQ :: int where "BEREQ = 0"
definition BERESP :: int where "BERESP = 1"
definition HTTP_FMT_SIZE :: nat where "HTTP_FMT_SIZE = 4096"

text \<open>\<^verbatim>\<open>vsnprintf(buffer, sizeof(buffer), ...)\<close> on a buffer with contents \<open>buf\<close>: the text is
  cut to fit, a NUL follows it, and the value returned is the length of the whole text, \<open>-1\<close> for
  an encoding error (\<^const>\<open>None\<close>).\<close>

definition vsnprintf :: "string \<Rightarrow> string option \<Rightarrow> string \<times> int" where
  "vsnprintf buf out = (case out of
     None \<Rightarrow> (buf, -1)
   | Some text \<Rightarrow> (let k = min (length text) (length buf - 1) in
       (if buf = [] then [] else take k text @ NUL # drop (k + 1) buf, int (length text))))"

text \<open>An \<^verbatim>\<open>int\<close> passed as \<^verbatim>\<open>size_t\<close>.\<close>

definition size_t_of :: "int \<Rightarrow> nat" where
  "size_t_of i = nat (i mod 2 ^ 64)"

definition sys_http_append :: "host \<Rightarrow> int \<Rightarrow> string \<Rightarrow> nat \<Rightarrow> ('s, int) guest" where
  "sys_http_append h whr buf len =
     seq (read_bytes buf len) (\<lambda>f. issue (HHttpAppend whr f) (\<lambda>cs. ans_append h cs whr f))"

definition sys_http_set :: "host \<Rightarrow> int \<Rightarrow> string \<Rightarrow> nat \<Rightarrow> ('s, int) guest" where
  "sys_http_set h whr buf len =
     seq (read_bytes buf len) (\<lambda>f. issue (HHttpSet whr f) (\<lambda>cs. ans_set h cs whr f))"

definition http_append_str :: "host \<Rightarrow> int \<Rightarrow> string \<Rightarrow> ('s, unit) guest" where
  "http_append_str h whr str =
     seq (sys_http_append h whr str (c_strlen str)) (\<lambda>_. ret ())"

definition http_appendf :: "host \<Rightarrow> string \<Rightarrow> int \<Rightarrow> string option \<Rightarrow> ('s, unit) guest" where
  "http_appendf h stack whr out =
     (let (buffer, len) = vsnprintf stack out
      in seq (sys_http_append h whr buffer (size_t_of len)) (\<lambda>_. ret ()))"

definition http_set_str :: "host \<Rightarrow> int \<Rightarrow> string \<Rightarrow> ('s, unit) guest" where
  "http_set_str h whr field =
     seq (sys_http_set h whr field (c_strlen field)) (\<lambda>_. ret ())"

definition http_setf :: "host \<Rightarrow> string \<Rightarrow> int \<Rightarrow> string option \<Rightarrow> ('s, unit) guest" where
  "http_setf h stack whr out =
     (let (buffer, len) = vsnprintf stack out
      in seq (sys_http_set h whr buffer (size_t_of len)) (\<lambda>_. ret ()))"

definition http_unset_str :: "host \<Rightarrow> int \<Rightarrow> string \<Rightarrow> ('s, int) guest" where
  "http_unset_str h whr key = sys_http_set h whr key (c_strlen key)"

definition http_unset :: "host \<Rightarrow> int \<Rightarrow> string \<Rightarrow> nat \<Rightarrow> ('s, int) guest" where
  "http_unset h whr key len = sys_http_set h whr key len"

text \<open>\<^verbatim>\<open>sys_http_find\<close> into a buffer of \<open>outl\<close> bytes (\<^const>\<open>None\<close>: the buffer is \<^verbatim>\<open>NULL\<close>);
  the monitor answers with the bytes it wrote and the length it returns.\<close>

definition sys_http_find ::
    "host \<Rightarrow> int \<Rightarrow> string \<Rightarrow> nat \<Rightarrow> nat option \<Rightarrow> ('s, string \<times> nat) guest" where
  "sys_http_find h whr key klen outl =
     seq (read_bytes key klen) (\<lambda>k.
       issue (HHttpFind whr k outl) (\<lambda>cs. ans_find h cs whr k outl))"

definition http_find_str :: "host \<Rightarrow> int \<Rightarrow> string \<Rightarrow> nat \<Rightarrow> ('s, string \<times> nat) guest" where
  "http_find_str h whr key outl = sys_http_find h whr key (c_strlen key) (Some outl)"

definition http_find_strlen :: "host \<Rightarrow> int \<Rightarrow> string \<Rightarrow> ('s, nat) guest" where
  "http_find_strlen h whr key =
     seq (sys_http_find h whr key (c_strlen key) None) (\<lambda>(_, n). ret n)"

text \<open>Writing \<open>bytes\<close> at the start of an array with contents \<open>arr\<close>.\<close>

definition overwrite :: "string \<Rightarrow> string \<Rightarrow> string option" where
  "overwrite arr bytes =
     (if length bytes \<le> length arr then Some (bytes @ drop (length bytes) arr) else None)"

text \<open>The result is the contents of the heap block of \<^verbatim>\<open>len + 1\<close> bytes. Nothing tests what
  \<^verbatim>\<open>malloc\<close> returns: \<^verbatim>\<open>result[len] = 0\<close> is written through \<^verbatim>\<open>NULL\<close> when there is no memory.
  \<^verbatim>\<open>len\<close> is an \<^verbatim>\<open>unsigned\<close>, and so is \<^verbatim>\<open>len + 1\<close>.\<close>

definition http_alloc_find ::
    "host \<Rightarrow> (nat \<Rightarrow> string option) \<Rightarrow> string \<Rightarrow> int \<Rightarrow> string \<Rightarrow> ('s, string) guest" where
  "http_alloc_find h malloc stack whr key =
     seq (sys_http_find h whr key (c_strlen key) (Some HTTP_FMT_SIZE)) (\<lambda>(bytes, found).
       let len = found mod 2 ^ 32 in
       case overwrite stack bytes of None \<Rightarrow> fault | Some buffer \<Rightarrow>
       (case malloc ((len + 1) mod 2 ^ 32) of None \<Rightarrow> fault | Some result \<Rightarrow>
          seq (read_bytes buffer len) (\<lambda>r.
          case overwrite result r of None \<Rightarrow> fault | Some result1 \<Rightarrow>
          (case wr result1 len NUL of None \<Rightarrow> fault | Some result2 \<Rightarrow> ret result2))))"

text \<open>The monitor is called with \<^verbatim>\<open>NULL\<close> when there is no memory; the write after it faults.\<close>

definition http_alloc_method :: "host \<Rightarrow> (nat \<Rightarrow> string option) \<Rightarrow> ('s, string) guest" where
  "http_alloc_method h malloc =
     seq (issue (HHttpMethod 15) (\<lambda>cs. ans_method h cs 15)) (\<lambda>(bytes, len).
       case malloc 16 of None \<Rightarrow> fault | Some block \<Rightarrow>
       (case overwrite block bytes of None \<Rightarrow> fault | Some result \<Rightarrow>
          (case wr result (len mod 2 ^ 32) NUL of None \<Rightarrow> fault | Some r \<Rightarrow> ret r)))"

lemma overwrite_all [simp]:
  "length block = Suc (length bytes) \<Longrightarrow> overwrite block bytes = Some (bytes @ [last block])"
  by (cases block rule: rev_exhaust) (auto simp: overwrite_def)

lemma http_alloc_find_run:
  assumes "lawful_malloc malloc" and "length stack = HTTP_FMT_SIZE"
    and "ans_find h (calls w) whr (c_str key) (Some HTTP_FMT_SIZE) = (bytes, length bytes)"
    and "length bytes \<le> HTTP_FMT_SIZE"
  shows "http_alloc_find h malloc stack whr key w =
    ((if malloc (length bytes + 1) = None then Fault else Val (bytes @ [NUL])),
     w\<lparr>calls := calls w @ [HHttpFind whr (c_str key) (Some HTTP_FMT_SIZE)]\<rparr>)"
proof -
  have n: "length bytes mod 4294967296 = length bytes"
      "(length bytes + 1) mod 4294967296 = length bytes + 1"
    using assms(4) by (simp_all add: HTTP_FMT_SIZE_def)
  have s: "overwrite stack bytes = Some (bytes @ drop (length bytes) stack)"
    using assms(2,4) by (simp add: overwrite_def)
  show ?thesis
  proof (cases "malloc (length bytes + 1)")
    case None
    then show ?thesis
      using assms(3) by (simp add: http_alloc_find_def sys_http_find_def c_strlen_le n s Let_def
          del: One_nat_def add_Suc_right)
  next
    case (Some block)
    then have "length block = Suc (length bytes)" using assms(1) by (simp add: lawful_malloc_def)
    then show ?thesis
      using Some assms(3)
      by (simp add: http_alloc_find_def sys_http_find_def c_strlen_le n s wr_def Let_def
          del: One_nat_def add_Suc_right)
  qed
qed

lemma http_appendf_run:
  assumes "length stack = HTTP_FMT_SIZE" and "length text < 2 ^ 31"
  shows "http_appendf h stack whr (Some text) w =
    (if length text < HTTP_FMT_SIZE then (Val (), w\<lparr>calls := calls w @ [HHttpAppend whr text]\<rparr>)
     else if length text = HTTP_FMT_SIZE then
       (Val (), w\<lparr>calls := calls w @ [HHttpAppend whr (butlast text @ [NUL])]\<rparr>)
     else (Fault, w))"
proof -
  have "size_t_of (int (length text)) = length text"
    using assms(2) by (simp add: size_t_of_def)
  moreover have "stack \<noteq> []" using assms(1) by (auto simp: HTTP_FMT_SIZE_def)
  ultimately show ?thesis using assms
    by (auto simp: http_appendf_def vsnprintf_def sys_http_append_def Let_def HTTP_FMT_SIZE_def
        butlast_conv_take)
qed

section \<open>Cacheability and storage\<close>

text \<open>A finite \<^verbatim>\<open>float\<close> as mantissa and exponent, \<open>m * 2 ^ e\<close> with a mantissa of at most 24
  bits. Multiplying by 1000 rounds to the nearest value, ties to an even mantissa; the
  conversion to an integer type truncates.\<close>

type_synonym f32 = "int \<times> int"

fun bit_length :: "nat \<Rightarrow> nat" where
  "bit_length n = (if n = 0 then 0 else Suc (bit_length (n div 2)))"

declare bit_length.simps [simp del]

definition f32_round :: "int \<Rightarrow> int \<Rightarrow> f32" where
  "f32_round m e =
     (let s = bit_length (nat \<bar>m\<bar>) - 24; q = \<bar>m\<bar> div 2 ^ s; r = \<bar>m\<bar> mod 2 ^ s
      in if s = 0 then (m, e)
         else (sgn m * (if 2 * r > 2 ^ s \<or> 2 * r = 2 ^ s \<and> odd q then q + 1 else q), e + int s))"

definition f32_times_1000 :: "f32 \<Rightarrow> f32" where
  "f32_times_1000 x = f32_round (fst x * 1000) (snd x)"

definition f32_trunc :: "f32 \<Rightarrow> int" where
  "f32_trunc x = (if 0 \<le> snd x then fst x * 2 ^ nat (snd x)
     else sgn (fst x) * (\<bar>fst x\<bar> div 2 ^ nat (- snd x)))"

definition sys_set_cacheable :: "host \<Rightarrow> bool \<Rightarrow> int \<Rightarrow> int \<Rightarrow> int \<Rightarrow> ('s, int) guest" where
  "sys_set_cacheable h cached ttl_ms grace_ms keep_ms =
     issue (HSetCacheable cached ttl_ms grace_ms keep_ms) (ans_cacheable h)"

definition set_cacheable :: "host \<Rightarrow> bool \<Rightarrow> f32 \<Rightarrow> f32 \<Rightarrow> f32 \<Rightarrow> ('s, int) guest" where
  "set_cacheable h cached ttl grace keep =
     sys_set_cacheable h cached (f32_trunc (f32_times_1000 ttl))
       (f32_trunc (f32_times_1000 grace)) (f32_trunc (f32_times_1000 keep))"

text \<open>A vector of buffers is a list of the byte strings that \<^verbatim>\<open>{data, len}\<close> pairs denote;
  the result is the bytes copied into \<^verbatim>\<open>dst\<close> and the value returned.\<close>

record virtbuffer =
  vb_data :: "string option"
  vb_len :: nat

fun read_buffers :: "virtbuffer list \<Rightarrow> ('s, string list) guest" where
  "read_buffers [] = ret []"
| "read_buffers (b # bs) = seq (read_ptr (vb_data b) (vb_len b)) (\<lambda>x.
     seq (read_buffers bs) (\<lambda>xs. ret (x # xs)))"

definition storage_callv ::
    "host \<Rightarrow> string \<Rightarrow> nat \<Rightarrow> virtbuffer list \<Rightarrow> nat \<Rightarrow> ('s, string \<times> int) guest" where
  "storage_callv h func n bufs reslen =
     (if n \<le> length bufs then
        seq (read_buffers (take n bufs)) (\<lambda>bs.
          issue (HStorageCall func bs reslen) (\<lambda>cs. ans_callv h cs func bs reslen))
      else fault)"

definition storage_call ::
    "host \<Rightarrow> string \<Rightarrow> string option \<Rightarrow> nat \<Rightarrow> nat \<Rightarrow> ('s, string \<times> int) guest" where
  "storage_call h func src len reslen =
     storage_callv h func 1 [\<lparr>vb_data = src, vb_len = len\<rparr>] reslen"

definition sys_storage_task ::
    "host \<Rightarrow> string \<Rightarrow> string option \<Rightarrow> nat \<Rightarrow> int \<Rightarrow> int \<Rightarrow> ('s, int) guest" where
  "sys_storage_task h task data len start period =
     seq (read_ptr data len) (\<lambda>d. issue (HStorageTask task d start period) (\<lambda>cs. ans_task h cs task))"

definition storage_task :: "host \<Rightarrow> string \<Rightarrow> string option \<Rightarrow> nat \<Rightarrow> ('s, int) guest" where
  "storage_task h task data len = sys_storage_task h task data len 0 0"

definition schedule_storage_task ::
    "host \<Rightarrow> string \<Rightarrow> string option \<Rightarrow> nat \<Rightarrow> f32 \<Rightarrow> f32 \<Rightarrow> ('s, int) guest" where
  "schedule_storage_task h task data len start period =
     sys_storage_task h task data len (f32_trunc (f32_times_1000 start))
       (f32_trunc (f32_times_1000 period))"

definition storage_return :: "string option \<Rightarrow> nat \<Rightarrow> ('s, unit) guest" where
  "storage_return data len = seq (read_ptr data len) (\<lambda>d. issue (HStorageReturn d) (\<lambda>_. ()))"

definition storage_return_nothing :: "('s, unit) guest" where
  "storage_return_nothing = storage_return None 0"

definition sys_storage_allow :: "string \<Rightarrow> ('s, unit) guest" where
  "sys_storage_allow f = issue (HStorageAllow f) (\<lambda>_. ())"

section \<open>Logging and fetching\<close>

definition sys_log :: "string \<Rightarrow> nat \<Rightarrow> ('s, unit) guest" where
  "sys_log buf len = seq (read_bytes buf len) (\<lambda>t. issue (HLog t) (\<lambda>_. ()))"

definition log_overflow :: string where
  "log_overflow = ''(ERROR: Log buffer overflowed)''"

definition vlogf :: "string \<Rightarrow> string option \<Rightarrow> ('s, unit) guest" where
  "vlogf stack out =
     (let (buffer, len) = vsnprintf stack out
      in if len \<ge> 0 \<and> len < int (length buffer) then sys_log buffer (nat len)
         else sys_log log_overflow (length log_overflow))"

definition curl_setfield :: "curl_fields \<Rightarrow> nat \<Rightarrow> string \<Rightarrow> curl_fields option" where
  "curl_setfield f idx value = do {
     p \<leftarrow> wr (cf_ptr f) idx (Some value);
     l \<leftarrow> wr (cf_len f) idx (c_strlen value mod 2 ^ 16);
     Some (f\<lparr>cf_ptr := p, cf_len := l\<rparr>)
   }"

definition sys_fetch :: "host \<Rightarrow> string \<Rightarrow> nat \<Rightarrow> curl_op \<Rightarrow> curl_fields option \<Rightarrow>
    curl_options option \<Rightarrow> ('s, int \<times> curl_op) guest" where
  "sys_fetch h url urllen op flds options =
     seq (read_bytes url urllen) (\<lambda>u.
       issue (HFetch u op flds options) (\<lambda>cs. ans_fetch h cs u op flds options))"

end
