(* ===== verification/C_Examples.thy ===== *)
theory C_Examples
  imports Kvm_Api
begin

text \<open>
  The C example programs of the folder \<^verbatim>\<open>c/\<close>: \<^verbatim>\<open>counter.c\<close> (with its interleavings across
  machines), \<^verbatim>\<open>storage.c\<close>, \<^verbatim>\<open>streaming.c\<close>, \<^verbatim>\<open>fetch.c\<close> and \<^verbatim>\<open>hello_world.c\<close>.
\<close>

section \<open>counter.c\<close>

definition digit_char :: "nat \<Rightarrow> char" where
  "digit_char d = char_of (48 + d)"

fun nat_dec :: "nat \<Rightarrow> string" where
  "nat_dec n = (if n < 10 then [digit_char n] else nat_dec (n div 10) @ [digit_char (n mod 10)])"

declare nat_dec.simps [simp del]

text \<open>\<^verbatim>\<open>%d\<close>.\<close>

definition int_dec :: "int \<Rightarrow> string" where
  "int_dec i = (if i < 0 then CHR ''-'' # nat_dec (nat (- i)) else nat_dec (nat i))"

definition counter_text :: "u32 \<Rightarrow> string" where
  "counter_text v = ''Hello '' @ int_dec (sint v) @ '' World!''"

text \<open>The handler run by one machine alone; the variable is the shared integer. \<open>stack\<close> is
  the 64-byte buffer before the call.\<close>

definition counter_on_get :: "string \<Rightarrow> (u32, unit) guest" where
  "counter_on_get stack = seq get_vars (\<lambda>c. andthen (put_vars (c + 1)) (seq get_vars (\<lambda>c'.
     let (buffer, len) = vsnprintf stack (Some (counter_text c'))
     in backend_response 200 (Some ''text/plain'') (c_strlen ''text/plain'') (Some buffer)
          (size_t_of len))))"

lemma length_nat_dec: "n < 10 ^ k \<Longrightarrow> 0 < k \<Longrightarrow> length (nat_dec n) \<le> k"
proof (induction k arbitrary: n)
  case 0
  then show ?case by simp
next
  case (Suc k)
  show ?case
  proof (cases "n < 10")
    case True
    then show ?thesis by (simp add: nat_dec.simps [of n])
  next
    case False
    then have "0 < k" using Suc.prems(1) by (cases k) auto
    moreover have "n div 10 < 10 ^ k" using Suc.prems(1) by (simp add: less_mult_imp_div_less)
    ultimately show ?thesis using Suc.IH False by (simp add: nat_dec.simps [of n])
  qed
qed

lemma length_counter_text: "length (counter_text v) \<le> 24"
proof -
  have "\<bar>sint v\<bar> \<le> 2 ^ 31" using sint_ge [of v] sint_less [of v] by simp
  then have "nat (sint v) < 10 ^ 10" "nat (- sint v) < 10 ^ 10" by auto
  then have "length (nat_dec (nat (sint v))) \<le> 10" "length (nat_dec (nat (- sint v))) \<le> 10"
    by (auto intro: length_nat_dec)
  then show ?thesis by (simp add: counter_text_def int_dec_def)
qed

lemma counter_on_get_responds:
  assumes "length stack = 64"
  shows "responded (counter_on_get stack w) = Some (200, ''text/plain'', counter_text (vars w + 1))
    \<and> vars (snd (counter_on_get stack w)) = vars w + 1"
proof -
  let ?t = "counter_text (vars w + 1)"
  have len: "length ?t < 64" using length_counter_text [of "vars w + 1"] by simp
  then have "vsnprintf stack (Some ?t) = (?t @ NUL # drop (length ?t + 1) stack, int (length ?t))"
    using assms by (auto simp: vsnprintf_def Let_def min_def)
  moreover have "size_t_of (int (length ?t)) = length ?t" using len by (simp add: size_t_of_def)
  ultimately show ?thesis
    by (simp add: counter_on_get_def backend_response_run c_strlen_le int16_of_id)
qed

text \<open>Many machines serve requests at once. Each adds one atomically and reads the counter
  in a second access before it responds with what it read.\<close>

datatype vm_pc = Arrived | Added | Responded u32

record counter_sys =
  shared :: u32
  vms :: "nat \<Rightarrow> vm_pc"

definition counter_init :: counter_sys where
  "counter_init = \<lparr>shared = 0, vms = (\<lambda>_. Arrived)\<rparr>"

inductive counter_step :: "counter_sys \<Rightarrow> counter_sys \<Rightarrow> bool" where
  fetch_and_add: "vms s i = Arrived \<Longrightarrow>
    counter_step s (s\<lparr>shared := shared s + 1, vms := (vms s)(i := Added)\<rparr>)"
| respond: "vms s i = Added \<Longrightarrow>
    counter_step s (s\<lparr>vms := (vms s)(i := Responded (shared s))\<rparr>)"

inductive_cases counter_stepE: "counter_step s t"

inductive counter_reachable :: "counter_sys \<Rightarrow> bool" where
  init: "counter_reachable counter_init"
| step: "counter_reachable s \<Longrightarrow> counter_step s t \<Longrightarrow> counter_reachable t"

definition counted :: "counter_sys \<Rightarrow> nat set" where
  "counted s = {i. vms s i \<noteq> Arrived}"

definition counter_inv :: "counter_sys \<Rightarrow> bool" where
  "counter_inv s \<longleftrightarrow> finite (counted s) \<and> shared s = word_of_nat (card (counted s)) \<and>
     (\<forall>i v. vms s i = Responded v \<longrightarrow>
        (\<exists>n. 1 \<le> n \<and> n \<le> card (counted s) \<and> v = word_of_nat n))"

lemma counter_inv_init: "counter_inv counter_init"
  by (simp add: counter_inv_def counter_init_def counted_def)

lemma counter_inv_fetch_and_add:
  assumes inv: "counter_inv s" and "vms s i = Arrived"
  shows "counter_inv (s\<lparr>shared := shared s + 1, vms := (vms s)(i := Added)\<rparr>)" (is "counter_inv ?t")
proof -
  have "counted ?t = insert i (counted s)" and "i \<notin> counted s"
    using assms(2) by (auto simp: counted_def)
  then have c: "card (counted ?t) = Suc (card (counted s))" and f: "finite (counted ?t)"
    using inv by (simp_all add: counter_inv_def)
  have "\<exists>n. 1 \<le> n \<and> n \<le> card (counted ?t) \<and> v = word_of_nat n"
    if "vms ?t j = Responded v" for j v
  proof -
    have "vms s j = Responded v" using that by (simp split: if_splits)
    then obtain n where "1 \<le> n" "n \<le> card (counted s)" "v = word_of_nat n"
      using inv by (auto simp: counter_inv_def)
    then show ?thesis using c by (intro exI [of _ n]) simp
  qed
  moreover have "shared ?t = word_of_nat (card (counted ?t))"
    using inv c by (simp add: counter_inv_def)
  ultimately show ?thesis unfolding counter_inv_def using f by blast
qed

lemma counter_inv_respond:
  assumes inv: "counter_inv s" and "vms s i = Added"
  shows "counter_inv (s\<lparr>vms := (vms s)(i := Responded (shared s))\<rparr>)" (is "counter_inv ?t")
proof -
  have eq: "counted ?t = counted s" and "i \<in> counted s"
    using assms(2) by (auto simp: counted_def)
  then have "1 \<le> card (counted s)"
    using inv by (auto simp: counter_inv_def Suc_le_eq card_gt_0_iff)
  then have "\<exists>n. 1 \<le> n \<and> n \<le> card (counted ?t) \<and> v = word_of_nat n"
    if "vms ?t j = Responded v" for j v
    using that inv unfolding eq by (auto simp: counter_inv_def split: if_splits)
  moreover have "finite (counted ?t)" and "shared ?t = word_of_nat (card (counted ?t))"
    unfolding eq using inv by (simp_all add: counter_inv_def)
  ultimately show ?thesis unfolding counter_inv_def by blast
qed

lemma counter_inv_reachable: "counter_reachable s \<Longrightarrow> counter_inv s"
  by (induction rule: counter_reachable.induct)
    (auto intro: counter_inv_init counter_inv_fetch_and_add counter_inv_respond elim: counter_stepE)

section \<open>storage.c\<close>

text \<open>The static variables: the heap block \<open>cont\<close> points to and \<open>cont_len\<close>. \<^verbatim>\<open>malloc\<close> is a
  parameter: the fresh block, with whatever it contains, or \<^const>\<open>None\<close>.\<close>

record storage_vars =
  cont :: "string option"
  cont_len :: nat

definition storage_modify_content ::
    "(nat \<Rightarrow> string option) \<Rightarrow> virtbuffer list \<Rightarrow> nat \<Rightarrow> (storage_vars, unit) guest" where
  "storage_modify_content malloc buffers res = (case buffers of [] \<Rightarrow> fault | b # _ \<Rightarrow>
     (case malloc (vb_len b + 1) of None \<Rightarrow> fault | Some new_buf \<Rightarrow>
       seq (read_ptr (vb_data b) (vb_len b)) (\<lambda>bytes.
       (case overwrite new_buf bytes of None \<Rightarrow> fault | Some new_buf1 \<Rightarrow>
       (case wr new_buf1 (vb_len b + 1) NUL of None \<Rightarrow> fault | Some new_buf2 \<Rightarrow>
         andthen (put_vars \<lparr>cont = Some new_buf2, cont_len = vb_len b\<rparr>)
           storage_return_nothing)))))"

definition storage_get_content :: "virtbuffer list \<Rightarrow> nat \<Rightarrow> (storage_vars, unit) guest" where
  "storage_get_content buffers res =
     seq get_vars (\<lambda>s. storage_return (cont s) (cont_len s))"

definition storage_on_get :: "host \<Rightarrow> string \<Rightarrow> (storage_vars, unit) guest" where
  "storage_on_get h stack =
     andthen (http_append_str h RESP ''X-Hello: World'')
     (seq (storage_call h ''get_content'' None 0 65536) (\<lambda>(bytes, len).
      case overwrite stack bytes of None \<Rightarrow> fault | Some buffer \<Rightarrow>
      seq (set_cacheable h False (10, 0) (0, 0) (0, 0)) (\<lambda>_.
        backend_response 200 (Some ''text/plain'') (c_strlen ''text/plain'') (Some buffer)
          (size_t_of len))))"

definition storage_on_post :: "host \<Rightarrow> string \<Rightarrow> nat \<Rightarrow> (storage_vars, unit) guest" where
  "storage_on_post h data len =
     seq (storage_call h ''modify_content'' (Some data) len 0) (\<lambda>_.
       backend_response_str 200 ''text/plain'' ''OK'')"

definition storage_on_live_update :: "(storage_vars, unit) guest" where
  "storage_on_live_update = seq get_vars (\<lambda>s. case cont s of None \<Rightarrow> fault
     | Some b \<Rightarrow> if NUL \<in> set b then storage_return (Some b) (c_strlen b) else fault)"

text \<open>\<open>restored\<close> is what the monitor writes into the block handed to \<^verbatim>\<open>storage_return\<close>.\<close>

definition storage_on_resume_update ::
    "(nat \<Rightarrow> string option) \<Rightarrow> string \<Rightarrow> nat \<Rightarrow> (storage_vars, unit) guest" where
  "storage_on_resume_update malloc restored len = seq get_vars (\<lambda>s.
     case malloc len of None \<Rightarrow> fault | Some block \<Rightarrow>
       andthen (storage_return (Some block) len)
       (case overwrite block restored of None \<Rightarrow> fault | Some b \<Rightarrow>
         put_vars (s\<lparr>cont := Some b\<rparr>)))"

definition storage_main :: "host \<Rightarrow> (nat \<Rightarrow> string option) \<Rightarrow> (storage_vars, unit) guest" where
  "storage_main h malloc = seq get_vars (\<lambda>s.
     case malloc (length ''Hello World!'' + 1) of None \<Rightarrow> fault | Some block \<Rightarrow>
     (case overwrite block (''Hello World!'' @ [NUL]) of None \<Rightarrow> fault | Some b \<Rightarrow>
       andthen (put_vars (s\<lparr>cont := Some b\<rparr>))
       (seq (schedule_storage_task h ''test'' None 0 (0, 0) (3, -1)) (\<lambda>_.
        andthen (set_backend_get ''on_get'') (andthen (set_backend_post ''on_post'')
        (andthen (set_on_live_update ''on_live_update'')
        (andthen (set_on_live_restore ''on_resume_update'') wait_for_requests)))))))"

text \<open>The task that \<^verbatim>\<open>main\<close> schedules: it fetches a path made of its return address, given here
  as \<^verbatim>\<open>%p\<close> prints it.\<close>

definition storage_test :: "host \<Rightarrow> string \<Rightarrow> string \<Rightarrow> (storage_vars, unit) guest" where
  "storage_test h stack ra =
     (let (buffer, len) = vsnprintf stack (Some (CHR ''/'' # ra))
      in seq (sys_fetch h buffer (c_strlen buffer) curl_op_zero None None) (\<lambda>_. ret ()))"

text \<open>\<^verbatim>\<open>free(cont)\<close> in \<^verbatim>\<open>modify_content\<close> ends the life of the old block; nothing refers to it
  afterwards, so the model drops it.\<close>

lemma modify_content_faults:
  assumes "lawful_malloc malloc"
  shows "fst (storage_modify_content malloc bufs res w) = Fault"
proof (cases bufs)
  case Nil
  then show ?thesis by (simp add: storage_modify_content_def)
next
  case (Cons b bs)
  show ?thesis
  proof (cases "malloc (vb_len b + 1)")
    case None
    then show ?thesis using Cons by (simp add: storage_modify_content_def)
  next
    case (Some nb)
    then have len: "length nb = vb_len b + 1" using assms by (simp add: lawful_malloc_def)
    have "wr nb1 (vb_len b + 1) NUL = None" if "overwrite nb bytes = Some nb1" for bytes nb1
    proof -
      have "length nb1 = length nb" using that by (auto simp: overwrite_def split: if_splits)
      then show ?thesis using len by (simp add: wr_out)
    qed
    then have "(case overwrite nb bytes of None \<Rightarrow> fault | Some nb1 \<Rightarrow>
        (case wr nb1 (vb_len b + 1) NUL of None \<Rightarrow> fault | Some nb2 \<Rightarrow>
          andthen (put_vars \<lparr>cont = Some nb2, cont_len = vb_len b\<rparr>) storage_return_nothing))
        = fault" for bytes
      by (auto split: option.splits)
    then show ?thesis using Cons Some
      by (auto simp: storage_modify_content_def seq_def read_ptr_def read_bytes_def
          split: option.splits)
  qed
qed

section \<open>streaming.c\<close>

definition stream_data :: string where
  "stream_data = ''Hello Varnish World!''"

text \<open>The piece \<^verbatim>\<open>{&d[written], 1}\<close>; \<^const>\<open>None\<close> where the pointer leaves the array (which
  has a NUL after the text).\<close>

definition stream_cb :: "string \<Rightarrow> nat \<Rightarrow> nat \<Rightarrow> nat \<Rightarrow> string option" where
  "stream_cb d max_len written tot =
     map_option (\<lambda>c. [c]) (rd (d @ [NUL]) written)"

text \<open>The literal \<^verbatim>\<open>0.01\<close>, converted to \<^verbatim>\<open>float\<close>, is \<open>10737418 * 2 ^ (-30)\<close>.\<close>

definition streaming_on_get :: "host \<Rightarrow> (unit, unit) guest" where
  "streaming_on_get h =
     seq (set_cacheable h False (10737418, -30) (0, 0) (0, 0)) (\<lambda>_.
       begin_streaming_response 200 ''text/plain'' (c_strlen ''text/plain'')
         (length stream_data) ''stream'' stream_data)"

text \<open>The delivery loop the header documents: the monitor asks for at most \<open>max_len\<close> bytes
  until \<open>tot\<close> bytes are written; an empty or too long answer fails the delivery.\<close>

fun deliver :: "(nat \<Rightarrow> nat \<Rightarrow> nat \<Rightarrow> string option) \<Rightarrow> nat \<Rightarrow> nat \<Rightarrow> nat \<Rightarrow> nat \<Rightarrow> string option" where
  "deliver cb max_len 0 written tot = (if written = tot then Some [] else None)"
| "deliver cb max_len (Suc fuel) written tot =
     (if written = tot then Some [] else
      case cb max_len written tot of None \<Rightarrow> None
      | Some piece \<Rightarrow> if piece = [] \<or> max_len < length piece then None
          else map_option (\<lambda>rest. piece @ rest)
            (deliver cb max_len fuel (written + length piece) tot))"

lemma deliver_stream:
  "1 \<le> m \<Longrightarrow> written \<le> length d \<Longrightarrow> length d - written \<le> fuel \<Longrightarrow>
    deliver (stream_cb d) m fuel written (length d) = Some (drop written d)"
proof (induction fuel arbitrary: written)
  case 0
  then show ?case by simp
next
  case (Suc fuel)
  show ?case
  proof (cases "written = length d")
    case True
    then show ?thesis by simp
  next
    case False
    then have lt: "written < length d" using Suc.prems(2) by simp
    then have "deliver (stream_cb d) m fuel (written + 1) (length d) = Some (drop (written + 1) d)"
      using Suc.prems by (intro Suc.IH) auto
    moreover have "stream_cb d m written (length d) = Some [d ! written]"
      using lt by (simp add: stream_cb_def rd_def nth_append)
    ultimately show ?thesis using lt Suc.prems(1) by (simp add: Cons_nth_drop_Suc)
  qed
qed

section \<open>fetch.c and hello_world.c\<close>

text \<open>\<^verbatim>\<open>strstr\<close> and \<^verbatim>\<open>strchr\<close> on the string at the start of a list: the rest of the string
  from the match, or \<^const>\<open>None\<close>.\<close>

fun is_prefix_of :: "string \<Rightarrow> string \<Rightarrow> bool" where
  "is_prefix_of [] s = True"
| "is_prefix_of (c # cs) [] = False"
| "is_prefix_of (c # cs) (d # ds) = (c = d \<and> is_prefix_of cs ds)"

fun strstr :: "string \<Rightarrow> string \<Rightarrow> string option" where
  "strstr [] needle = (if needle = [] then Some [] else None)"
| "strstr (c # cs) needle =
     (if is_prefix_of needle (c # cs) then Some (c # cs) else strstr cs needle)"

fun strchr_pos :: "string \<Rightarrow> char \<Rightarrow> nat option" where
  "strchr_pos [] x = None"
| "strchr_pos (c # cs) x = (if c = x then Some 0 else map_option Suc (strchr_pos cs x))"

definition fetch_on_get :: "host \<Rightarrow> (unit, unit) guest" where
  "fetch_on_get h =
     andthen (http_append_str h RESP ''X-Hello: World'')
     (let flds = curl_fields_zero\<lparr>cf_ptr := (cf_ptr curl_fields_zero)[0 := Some ''X-Hello: World''],
                                  cf_len := (cf_len curl_fields_zero)[0 := 14]\<rparr>;
          curl_url = ''http://127.0.0.1:7070/headers''
      in seq (sys_fetch h curl_url (c_strlen curl_url) curl_op_zero (Some flds) None) (\<lambda>(_, op).
         case op_headers op of None \<Rightarrow> fault | Some hdrs \<Rightarrow>
         (case strstr (c_str hdrs) ''Server: '' of None \<Rightarrow> fault | Some srv \<Rightarrow>
         (case strchr_pos srv (CHR 0x0D) of None \<Rightarrow> fault | Some n \<Rightarrow>
           andthen (http_append_str h RESP (take n srv))
           (seq (set_cacheable h (op_status op = 200) (10, 0) (0, 0) (0, 0)) (\<lambda>_.
             backend_response 200 (Some (op_ctype op)) (op_ctlen op) (op_content op)
               (op_content_length op)))))))"

text \<open>One turn of the loop in \<^verbatim>\<open>main\<close>: the request that \<^verbatim>\<open>wait_for_requests_paused\<close>
  delivered is answered.\<close>

definition hello_serve :: "host \<Rightarrow> string \<Rightarrow> (unit, unit) guest" where
  "hello_serve h stack =
     andthen (http_appendf h stack RESP (Some ''X-Hello: World''))
       (backend_response_str 200 ''text/plain'' ''Hello World!'')"

end
