(* ===== verification/Compress_Examples.thy ===== *)
theory Compress_Examples
  imports C_Examples
begin

text \<open>
  The compression programs \<^verbatim>\<open>c/zlib/zlib.c\<close> and \<^verbatim>\<open>c/zstd/zstd.c\<close>. The compression libraries
  are parameters: what \<^verbatim>\<open>inflate\<close>, \<^verbatim>\<open>deflate\<close> and the ZSTD calls answer for an input.
\<close>

section \<open>Case-insensitive search\<close>

definition ascii_lower :: "char \<Rightarrow> char" where
  "ascii_lower c = (if of_char c \<ge> (65::nat) \<and> of_char c \<le> (90::nat)
     then char_of (of_char c + (32::nat)) else c)"

definition strcasestr :: "string \<Rightarrow> string \<Rightarrow> bool" where
  "strcasestr hay needle = (strstr (map ascii_lower (c_str hay)) (map ascii_lower needle) \<noteq> None)"

section \<open>zlib.c\<close>

record zlib_lib =
  inflate_ans :: "string \<Rightarrow> nat option \<Rightarrow> int \<times> string"
  compress_bound :: "nat \<Rightarrow> nat"
  deflate_init_ans :: "int"
  deflate_ans :: "string \<Rightarrow> nat option \<Rightarrow> int \<times> string"

definition Z_OK :: int where "Z_OK = 0"
definition Z_STREAM_END :: int where "Z_STREAM_END = 1"
definition Z_STREAM_ERROR :: int where "Z_STREAM_ERROR = -2"

text \<open>The second argument of both is the room offered, \<^const>\<open>None\<close> when \<^verbatim>\<open>next_out\<close> is
  \<^verbatim>\<open>NULL\<close>. zlib's documented contract: output never exceeds the room, and without an output
  buffer the answer is \<^verbatim>\<open>Z_STREAM_ERROR\<close>.\<close>

definition zlib_lawful :: "zlib_lib \<Rightarrow> bool" where
  "zlib_lawful z \<longleftrightarrow>
     (\<forall>inp n. length (snd (inflate_ans z inp (Some n))) \<le> n) \<and>
     (\<forall>inp n. length (snd (deflate_ans z inp (Some n))) \<le> n) \<and>
     (\<forall>inp. inflate_ans z inp None = (Z_STREAM_ERROR, [])) \<and>
     (\<forall>inp. deflate_ans z inp None = (Z_STREAM_ERROR, []))"

text \<open>\<^verbatim>\<open>(uInt)\<close>: zlib counts what is available in 32 bits.\<close>

definition uInt_of :: "nat \<Rightarrow> nat" where
  "uInt_of n = n mod 2 ^ 32"

text \<open>\<open>malloc_ok\<close> says whether the 512 MB block is granted.\<close>

definition zlib_on_get :: "host \<Rightarrow> zlib_lib \<Rightarrow> bool \<Rightarrow> string \<Rightarrow> ('s, unit) guest" where
  "zlib_on_get h z malloc_ok url =
     (let op0 = curl_op_zero\<lparr>op_headers_length := 16384\<rparr> in
      case curl_setfield curl_fields_zero 0 ''Accept-Encoding: gzip'' of None \<Rightarrow> fault | Some flds \<Rightarrow>
      seq (sys_fetch h url (c_strlen url) op0 (Some flds) None) (\<lambda>(rc, op).
      andthen (if rc \<noteq> 0 then backend_response_str 503 ''text/plain''
                 ''Failed to retrieve asset from backend'' else ret ())
      (if (case op_headers op of None \<Rightarrow> False | Some hs \<Rightarrow> strcasestr hs ''Content-Encoding: gzip'')
       then (seq (read_ptr (op_content op) (uInt_of (op_content_length op))) (\<lambda>inp.
           let room = (if malloc_ok then Some (512 * 2 ^ 20) else None);
               (res, out) = inflate_ans z inp room in
           if (case room of None \<Rightarrow> 0 | Some n \<Rightarrow> n) < length out then fault
           else if res > 0 then
             backend_response 200 (Some (op_ctype op)) (op_ctlen op)
               (if malloc_ok then Some out else None) (length out)
           else backend_response 200 (Some (op_ctype op)) (op_ctlen op) (op_content op)
                  (op_content_length op)))
       else backend_response 200 (Some (op_ctype op)) (op_ctlen op) (op_content op)
              (op_content_length op))))"

text \<open>The static buffer: the size of the block \<open>compression_buffer\<close> points to, if it is not
  \<^verbatim>\<open>NULL\<close>, and \<open>compression_buffer_size\<close>. \<open>realloc_ok\<close> says whether \<^verbatim>\<open>realloc\<close> succeeds.\<close>

record zlib_vars =
  compression_buffer :: "nat option"
  compression_buffer_size :: nat

definition zlib_deflate_part ::
    "host \<Rightarrow> zlib_lib \<Rightarrow> string \<Rightarrow> string \<Rightarrow> (zlib_vars, unit) guest" where
  "zlib_deflate_part h z ctype inp = seq get_vars (\<lambda>s.
     if deflate_init_ans z \<noteq> Z_OK then
       backend_response_str 503 ''text/plain'' ''Failed to initialize compression''
     else (let (res, out) = deflate_ans z inp
                (map_option (\<lambda>_. uInt_of (compression_buffer_size s)) (compression_buffer s)) in
       if (case compression_buffer s of None \<Rightarrow> 0 | Some block \<Rightarrow> block) < length out then fault
       else if res \<noteq> Z_STREAM_END then
         backend_response_str 503 ''text/plain'' ''Failed to compress data''
       else andthen (http_set_str h RESP ''Content-Encoding: gzip'')
         (andthen (http_set_str h RESP ''Vary: Accept-Encoding'')
           (backend_response 200 (Some ctype) (c_strlen ctype)
             (map_option (\<lambda>_. out) (compression_buffer s)) (length out)))))"

definition zlib_on_post ::
    "host \<Rightarrow> zlib_lib \<Rightarrow> bool \<Rightarrow> string \<Rightarrow> string \<Rightarrow> nat \<Rightarrow> (zlib_vars, unit) guest" where
  "zlib_on_post h z realloc_ok ctype content content_length =
     seq get_vars (\<lambda>s. seq (read_bytes content (uInt_of content_length)) (\<lambda>inp.
       let needed = compress_bound z content_length in
       andthen
         (if compression_buffer_size s < needed then
            (if realloc_ok then put_vars \<lparr>compression_buffer = Some needed,
                                         compression_buffer_size = needed\<rparr>
             else andthen (put_vars (s\<lparr>compression_buffer := None\<rparr>))
               (backend_response_str 503 ''text/plain'' ''Failed to allocate compression buffer''))
          else ret ())
         (zlib_deflate_part h z ctype inp)))"

definition zlib_main :: "bool \<Rightarrow> (zlib_vars, int) guest" where
  "zlib_main malloc_ok =
     (if \<not> malloc_ok then ret 1
      else andthen (put_vars \<lparr>compression_buffer = Some (4 * 2 ^ 20),
                             compression_buffer_size = 4 * 2 ^ 20\<rparr>)
        (andthen (set_backend_get ''on_get'') (andthen (set_backend_post ''on_post'')
          (andthen wait_for_requests (ret 0)))))"

text \<open>A buffer has the recorded size; after a failed \<^verbatim>\<open>realloc\<close> there is none.\<close>

definition zlib_inv :: "zlib_vars \<Rightarrow> bool" where
  "zlib_inv s \<longleftrightarrow> compression_buffer s \<in> {None, Some (compression_buffer_size s)}"

lemma uInt_of_le [simp]: "uInt_of n \<le> n"
  by (simp add: uInt_of_def)

lemma uInt_of_less [simp]: "n < 2 ^ 32 \<Longrightarrow> uInt_of n = n"
  by (simp add: uInt_of_def)

lemma sys_http_set_run [simp]:
  "len \<le> length buf \<Longrightarrow> sys_http_set h whr buf len w =
    (Val (ans_set h (calls w) whr (take len buf)), w\<lparr>calls := calls w @ [HHttpSet whr (take len buf)]\<rparr>)"
  by (simp add: sys_http_set_def)

lemma http_set_str_run [simp]:
  "http_set_str h whr f w = (Val (), w\<lparr>calls := calls w @ [HHttpSet whr (c_str f)]\<rparr>)"
  by (simp add: http_set_str_def seq_def c_strlen_le)

text \<open>What the deflating part answers and leaves, for a buffer that satisfies the invariant.\<close>

lemma zlib_deflate_part_responds:
  assumes "zlib_lawful z" and "zlib_inv (vars w)"
  shows "\<exists>st ct body. responded (zlib_deflate_part h z ctype inp w) = Some (st, ct, body)
    \<and> st \<in> {200, 503}
    \<and> (st = 200 \<longrightarrow> ct = c_str ctype \<and>
        (Z_STREAM_END, body) = deflate_ans z inp (Some (uInt_of (compression_buffer_size (vars w)))))
    \<and> vars (snd (zlib_deflate_part h z ctype inp w)) = vars w"
proof (cases "compression_buffer (vars w)")
  case None
  then have "deflate_ans z inp None = (Z_STREAM_ERROR, [])" using assms(1) by (simp add: zlib_lawful_def)
  then show ?thesis using None
    by (simp add: zlib_deflate_part_def responded_def int16_of_id
        Z_STREAM_ERROR_def Z_STREAM_END_def)
next
  case (Some block)
  then have block: "block = compression_buffer_size (vars w)" using assms(2) by (simp add: zlib_inv_def)
  obtain res out where d: "deflate_ans z inp (Some (uInt_of block)) = (res, out)" by fastforce
  have "length out \<le> uInt_of block"
    using assms(1) d by (metis snd_conv zlib_lawful_def)
  then have "length out \<le> block" by (rule le_trans) simp
  then show ?thesis using Some d
    by (simp add: zlib_deflate_part_def responded_def int16_of_id block
        backend_response_run c_strlen_le seq_def)
qed

lemma zlib_on_post_responds:
  assumes "zlib_lawful z" and "zlib_inv (vars w)" and "n \<le> length content"
  shows "\<exists>st ct body. responded (zlib_on_post h z realloc_ok ctype content n w) = Some (st, ct, body)
    \<and> st \<in> {200, 503}
    \<and> (st = 200 \<longrightarrow> ct = c_str ctype \<and> (\<exists>room.
        (Z_STREAM_END, body) = deflate_ans z (take (n mod 2 ^ 32) content) (Some (room mod 2 ^ 32))
        \<and> compress_bound z n \<le> room))
    \<and> zlib_inv (vars (snd (zlib_on_post h z realloc_ok ctype content n w)))"
proof -
  let ?w1 = "w\<lparr>vars := \<lparr>compression_buffer = Some (compress_bound z n),
     compression_buffer_size = compress_bound z n\<rparr>\<rparr>"
  let ?inp = "take (uInt_of n) content"
  have n: "uInt_of n \<le> length content" using assms(3) uInt_of_le le_trans by blast
  consider (keep) "compress_bound z n \<le> compression_buffer_size (vars w)"
    | (grow) "compression_buffer_size (vars w) < compress_bound z n" realloc_ok
    | (fail) "compression_buffer_size (vars w) < compress_bound z n" "\<not> realloc_ok"
    by linarith
  then show ?thesis
  proof cases
    case keep
    then have "zlib_on_post h z realloc_ok ctype content n w = zlib_deflate_part h z ctype ?inp w"
      using n by (simp add: zlib_on_post_def Let_def)
    then show ?thesis
      using zlib_deflate_part_responds [OF assms(1,2), of h ctype ?inp] keep assms(2)
      unfolding uInt_of_def by auto
  next
    case grow
    then have e: "zlib_on_post h z realloc_ok ctype content n w = zlib_deflate_part h z ctype ?inp ?w1"
      using n by (simp add: zlib_on_post_def Let_def)
    have i: "zlib_inv (vars ?w1)" by (simp add: zlib_inv_def)
    show ?thesis
      using zlib_deflate_part_responds [OF assms(1) i, of h ctype ?inp] i
      unfolding e uInt_of_def by auto
  next
    case fail
    then show ?thesis using n assms(2)
      by (simp add: zlib_on_post_def Let_def int16_of_id zlib_inv_def)
  qed
qed

section \<open>zstd.c\<close>

datatype zstd_size = Content_Size_Error | Content_Size_Unknown | Content_Size nat

record zstd_lib =
  frame_content_size :: "string \<Rightarrow> zstd_size"
  decompress_ans :: "string \<Rightarrow> nat \<Rightarrow> string option"

text \<open>\<open>r_size\<close> bytes are allocated and \<open>r_size\<close> bytes sent; \<open>junk\<close> is what the fresh block
  holds beyond the decompressed bytes.\<close>

definition zstd_on_get :: "host \<Rightarrow> zstd_lib \<Rightarrow> (nat \<Rightarrow> string option) \<Rightarrow> string \<Rightarrow> string \<Rightarrow>
    string option \<Rightarrow> ('s, unit) guest" where
  "zstd_on_get h z malloc stack url arg =
     (case curl_setfield curl_fields_zero 0 ''Accept-Encoding: gzip'' of None \<Rightarrow> fault | Some flds \<Rightarrow>
      seq (sys_fetch h url (c_strlen url) curl_op_zero (Some flds) None) (\<lambda>(rc, op).
      andthen (if rc \<noteq> 0 then backend_response_str 503 ''text/plain''
                 ''Failed to retrieve asset from backend'' else ret ())
      (andthen (case arg of None \<Rightarrow> ret ()
                | Some a \<Rightarrow> http_appendf h stack RESP (Some (''Content-Disposition: '' @ c_str a)))
      (seq (read_ptr (op_content op) (op_content_length op)) (\<lambda>inp.
        case frame_content_size z inp of
          Content_Size r_size \<Rightarrow>
            (case malloc r_size of None \<Rightarrow> fault | Some r_buff \<Rightarrow>
             (case decompress_ans z inp r_size of
                None \<Rightarrow> andthen (http_set_str h RESP ''Content-Encoding: zstd'')
                  (backend_response 200 (Some (op_ctype op)) (op_ctlen op) (op_content op)
                    (op_content_length op))
              | Some out \<Rightarrow> (case overwrite r_buff out of None \<Rightarrow> fault
                  | Some r_buff1 \<Rightarrow> backend_response 200 (Some (op_ctype op)) 0 (Some r_buff1) r_size)))
        | _ \<Rightarrow> backend_response 200 (Some (op_ctype op)) (op_ctlen op) (op_content op)
                 (op_content_length op))))))"

end
