(* ===== verification/Lang_Bindings.thy ===== *)
theory Lang_Bindings
  imports Compress_Examples
begin

text \<open>
  The C halves of the language bindings: \<^verbatim>\<open>nim/env\<close>, \<^verbatim>\<open>deno/varnish-deno.c\<close>, the functions of
  \<^verbatim>\<open>go/varnish\<close>, \<^verbatim>\<open>kotlin/env\<close> and \<^verbatim>\<open>nelua/env\<close>. Code of the guest language is a parameter:
  the trampolines that run a registered callback.
\<close>

section \<open>Nim: callbacks with a fallback response\<close>

record nim_vars =
  request_handler :: "u64 option"
  post_handler :: "u64 option"
  error_handler :: "u64 option"

definition set_get_handler :: "u64 option \<Rightarrow> (nim_vars, unit) guest" where
  "set_get_handler handler = seq get_vars (\<lambda>s. put_vars (s\<lparr>request_handler := handler\<rparr>))"

definition set_post_handler :: "u64 option \<Rightarrow> (nim_vars, unit) guest" where
  "set_post_handler handler = seq get_vars (\<lambda>s. put_vars (s\<lparr>post_handler := handler\<rparr>))"

definition set_error_handler :: "u64 option \<Rightarrow> (nim_vars, unit) guest" where
  "set_error_handler handler = seq get_vars (\<lambda>s. put_vars (s\<lparr>error_handler := handler\<rparr>))"

definition nim_get ::
    "(u64 \<Rightarrow> string \<Rightarrow> string \<Rightarrow> (nim_vars, unit) guest) \<Rightarrow> string \<Rightarrow> string \<Rightarrow> (nim_vars, unit) guest" where
  "nim_get backend_get_trampoline url arg = seq get_vars (\<lambda>s.
     andthen (case request_handler s of Some f \<Rightarrow> backend_get_trampoline f url arg | None \<Rightarrow> ret ())
       (backend_response 404 (Some ''text/plain'') (length ''text/plain'')
          (Some ''No response'') (length ''No response'')))"

definition nim_post ::
    "(u64 \<Rightarrow> string \<Rightarrow> string \<Rightarrow> string \<Rightarrow> string \<Rightarrow> (nim_vars, unit) guest) \<Rightarrow>
     string \<Rightarrow> string \<Rightarrow> string \<Rightarrow> string \<Rightarrow> (nim_vars, unit) guest" where
  "nim_post backend_post_trampoline url arg ctype data = seq get_vars (\<lambda>s.
     andthen (case post_handler s of Some f \<Rightarrow> backend_post_trampoline f url arg ctype data
              | None \<Rightarrow> ret ())
       (backend_response 404 (Some ''text/plain'') (length ''text/plain'')
          (Some ''No response'') (length ''No response'')))"

definition nim_error ::
    "(u64 \<Rightarrow> string \<Rightarrow> string \<Rightarrow> string \<Rightarrow> (nim_vars, unit) guest) \<Rightarrow>
     string \<Rightarrow> string \<Rightarrow> string \<Rightarrow> (nim_vars, unit) guest" where
  "nim_error backend_error_trampoline url arg error = seq get_vars (\<lambda>s.
     andthen (case error_handler s of Some f \<Rightarrow> backend_error_trampoline f url arg error
              | None \<Rightarrow> ret ())
       (backend_response_str 500 ''text/plain'' error))"

definition nim_main :: "(nim_vars, unit) guest \<Rightarrow> (nim_vars, unit) guest" where
  "nim_main NimMain = andthen NimMain (andthen (set_backend_get ''nim_get'')
     (andthen (set_backend_post ''nim_post'') (andthen (set_on_error ''nim_error'')
       wait_for_requests)))"

text \<open>A handler never lets a request go unanswered: what the callback leaves undone, the
  fallback does.\<close>

lemma nim_get_responds:
  assumes "\<And>f. request_handler (vars w) = Some f \<Longrightarrow> fst (tramp f url arg w) \<noteq> Fault"
    and "\<And>f. request_handler (vars w) = Some f \<Longrightarrow> answers (tramp f url arg)"
  shows "responded (nim_get tramp url arg w) = (case request_handler (vars w) of
      Some f \<Rightarrow> (if fst (tramp f url arg w) = Stop then responded (tramp f url arg w)
                else Some (404, ''text/plain'', ''No response''))
    | None \<Rightarrow> Some (404, ''text/plain'', ''No response''))
    \<and> responded (nim_get tramp url arg w) \<noteq> None"
proof (cases "request_handler (vars w)")
  case None
  then have "nim_get tramp url arg w = backend_response 404 (Some ''text/plain'')
      (length ''text/plain'') (Some ''No response'') (length ''No response'') w"
    by (simp add: nim_get_def)
  then show ?thesis using None len_reply.responded_reply [of 404 "''text/plain''" "''No response''" w]
    by (simp add: int16_of_id)
next
  case (Some f)
  then have m: "fst (tramp f url arg w) \<noteq> Fault" "answers (tramp f url arg)" using assms by auto
  have "nim_get tramp url arg w = andthen (tramp f url arg)
      (backend_response 404 (Some ''text/plain'') (length ''text/plain'')
          (Some ''No response'') (length ''No response'')) w"
    using Some by (simp add: nim_get_def)
  then show ?thesis
    using len_reply.responded_after [of "tramp f url arg" w 404 "''text/plain''" "''No response''"]
      len_reply.answered_after [of "tramp f url arg" w 404 "''text/plain''" "''No response''"] Some m
    by (simp add: int16_of_id)
qed

section \<open>Nim: function pointers through the storage call\<close>

definition ptr_bytes :: "u64 \<Rightarrow> string" where
  "ptr_bytes p = map (\<lambda>b. char_of (unat b)) (le_bytes 8 (unat p))"

definition bytes_ptr :: "string \<Rightarrow> u64" where
  "bytes_ptr s = word_of_nat (le_val (map (\<lambda>c. word_of_nat (of_char c)) (take 8 s)))"

definition nim_storage ::
    "host \<Rightarrow> u64 \<Rightarrow> u64 \<Rightarrow> string \<Rightarrow> nat \<Rightarrow> nat \<Rightarrow> ('s, string \<times> int) guest" where
  "nim_storage h callback trampoline input inplen reslen =
     storage_callv h ''storage_trampoline'' 3
       [\<lparr>vb_data = Some (ptr_bytes trampoline), vb_len = 8\<rparr>,
        \<lparr>vb_data = Some (ptr_bytes callback), vb_len = 8\<rparr>,
        \<lparr>vb_data = Some input, vb_len = inplen\<rparr>] reslen"

text \<open>\<open>run t f data\<close> calls the function at address \<open>t\<close> with \<open>f\<close> and the bytes.\<close>

definition nim_storage_trampoline ::
    "(u64 \<Rightarrow> u64 \<Rightarrow> string \<Rightarrow> ('s, unit) guest) \<Rightarrow> nat \<Rightarrow> string list \<Rightarrow> nat \<Rightarrow> ('s, unit) guest" where
  "nim_storage_trampoline run n buffers res =
     andthen (assertg (n = 3 \<and> res > 0))
     (case buffers of t # f # d # _ \<Rightarrow>
        if 8 \<le> length t \<and> 8 \<le> length f then
          andthen (run (bytes_ptr t) (bytes_ptr f) d) storage_return_nothing
        else fault
      | _ \<Rightarrow> fault)"

definition nim_storage_task ::
    "host \<Rightarrow> string \<Rightarrow> string option \<Rightarrow> nat \<Rightarrow> f32 \<Rightarrow> f32 \<Rightarrow> ('s, int) guest" where
  "nim_storage_task h callback arg len start period =
     schedule_storage_task h callback arg len start period"

definition nim_finish_storage :: "string option \<Rightarrow> nat \<Rightarrow> ('s, unit) guest" where
  "nim_finish_storage result len = storage_return result len"

text \<open>The memory limits that the monitor reports are a parameter.\<close>

definition nim_workmem_max :: "(hcall list \<Rightarrow> meminfo) \<Rightarrow> ('s, u64) guest" where
  "nim_workmem_max get_meminfo = seq (issue HMeminfo get_meminfo) (\<lambda>info. ret (max_reqmem info))"

definition nim_workmem_current :: "(hcall list \<Rightarrow> meminfo) \<Rightarrow> ('s, u64) guest" where
  "nim_workmem_current get_meminfo =
     seq (issue HMeminfo get_meminfo) (\<lambda>info. ret (reqmem_current info))"

lemma bytes_ptr_ptr_bytes [simp]: "bytes_ptr (ptr_bytes p) = p"
proof -
  have "map (\<lambda>c. word_of_nat (of_char c)) (ptr_bytes p) = le_bytes 8 (unat p)"
    unfolding ptr_bytes_def map_map
  proof (rule map_idI)
    fix b :: u8
    have "unat b < 256" using unsigned_less [of b] by simp
    then show "((\<lambda>c. word_of_nat (of_char c)) \<circ> (\<lambda>b. char_of (unat b))) b = b" by simp
  qed
  moreover have "unat p < 18446744073709551616" using unsigned_less [of p] by simp
  ultimately show ?thesis by (simp add: bytes_ptr_def ptr_bytes_def le_val_le_bytes)
qed

lemma length_ptr_bytes [simp]: "length (ptr_bytes p) = 8"
  by (simp add: ptr_bytes_def)

section \<open>Nim: the HTTP client\<close>

record nim_http_vars =
  cop :: curl_op
  options :: curl_options

definition nim_fetch_failed :: "curl_op \<Rightarrow> curl_op" where
  "nim_fetch_failed op = op\<lparr>op_status := 0, op_content := Some [NUL], op_content_length := 0,
     op_ctlen := 0\<rparr>"

definition curl_fetch_wrapper :: "host \<Rightarrow> string \<Rightarrow> nat \<Rightarrow> (nim_http_vars, unit) guest" where
  "curl_fetch_wrapper h url len = seq get_vars (\<lambda>s.
     let op = (cop s)\<lparr>op_post_buffer := None, op_post_buflen := 0\<rparr>;
         opts = curl_options_zero\<lparr>co_tcp_fast_open := True\<rparr>
     in seq (sys_fetch h url len op None (Some opts)) (\<lambda>(rc, op').
          put_vars \<lparr>cop = (if rc < 0 then nim_fetch_failed op' else op'), options = opts\<rparr>))"

definition curl_post_wrapper ::
    "host \<Rightarrow> string \<Rightarrow> nat \<Rightarrow> string \<Rightarrow> nat \<Rightarrow> string option \<Rightarrow> nat \<Rightarrow> (nim_http_vars, unit) guest" where
  "curl_post_wrapper h url len postct postctlen post postlen = seq get_vars (\<lambda>s.
     let op = (cop s)\<lparr>op_post_buffer := post, op_post_buflen := postlen mod 2 ^ 32,
                     op_ctlen := postctlen mod 2 ^ 32\<rparr>;
         opts = curl_options_zero\<lparr>co_tcp_fast_open := True\<rparr>
     in seq (if postctlen > 0 then seq (read_bytes postct postctlen) (\<lambda>bytes.
               case overwrite (op_ctype op) bytes of None \<Rightarrow> fault
               | Some ct \<Rightarrow> ret (op\<lparr>op_ctype := ct\<rparr>)) else ret op) (\<lambda>op1.
        seq (sys_fetch h url len op1 None (Some opts)) (\<lambda>(rc, op').
          put_vars \<lparr>cop = (if rc < 0 then nim_fetch_failed op' else op'), options = opts\<rparr>)))"

definition curl_get_status :: "(nim_http_vars, nat) guest" where
  "curl_get_status = seq get_vars (\<lambda>s. ret (op_status (cop s)))"

definition curl_get_content_length :: "(nim_http_vars, nat) guest" where
  "curl_get_content_length = seq get_vars (\<lambda>s. ret (op_content_length (cop s)))"

definition curl_get_content :: "(nim_http_vars, string option) guest" where
  "curl_get_content = seq get_vars (\<lambda>s. ret (op_content (cop s)))"

definition curl_get_content_type_length :: "(nim_http_vars, nat) guest" where
  "curl_get_content_type_length = seq get_vars (\<lambda>s. ret (op_ctlen (cop s)))"

definition curl_get_content_type :: "(nim_http_vars, string) guest" where
  "curl_get_content_type = seq get_vars (\<lambda>s. ret (op_ctype (cop s)))"

section \<open>Deno\<close>

text \<open>\<^verbatim>\<open>strncasecmp(a, b, n) == 0\<close> on two strings without their terminators.\<close>

fun strncase_eq :: "nat \<Rightarrow> string \<Rightarrow> string \<Rightarrow> bool" where
  "strncase_eq 0 a b = True"
| "strncase_eq (Suc n) [] [] = True"
| "strncase_eq (Suc n) (c # cs) (d # ds) = (ascii_lower c = ascii_lower d \<and> strncase_eq n cs ds)"
| "strncase_eq (Suc n) a b = False"

definition vd_request_method :: "kvm_request \<Rightarrow> string" where
  "vd_request_method req = rq_method req"

definition vd_request_url :: "kvm_request \<Rightarrow> string" where
  "vd_request_url req = rq_url req"

definition vd_request_argument :: "kvm_request \<Rightarrow> string" where
  "vd_request_argument req = rq_arg req"

text \<open>The loop over the header fields from index \<open>i\<close> on. The outer \<^const>\<open>None\<close> is a read past
  the array of headers, the inner one the code's \<^verbatim>\<open>NULL\<close>.\<close>

function vd_header_loop :: "kvm_request_header list \<Rightarrow> nat \<Rightarrow> string \<Rightarrow> nat \<Rightarrow> string option option" where
  "vd_header_loop hdrs num header i =
     (if i < num then
        (case rd hdrs i of None \<Rightarrow> None | Some hdr \<Rightarrow>
           (let key = c_str (rh_field hdr) in
            case strchr_pos key (CHR '':'') of
              None \<Rightarrow> vd_header_loop hdrs num header (i + 1)
            | Some n \<Rightarrow> if strncase_eq n key (c_str header) then Some (Some key)
                        else vd_header_loop hdrs num header (i + 1)))
      else Some None)"
  by pat_completeness auto
termination
  by (relation "measure (\<lambda>(hdrs, num, header, i). num - i)") auto

declare vd_header_loop.simps [simp del]

definition vd_request_header :: "kvm_request \<Rightarrow> string \<Rightarrow> string option option" where
  "vd_request_header req header =
     vd_header_loop (rq_headers req) (rq_num_headers req) header 0"

definition vd_response_str :: "int \<Rightarrow> string \<Rightarrow> string \<Rightarrow> ('s, unit) guest" where
  "vd_response_str status content_type body = backend_response_str status content_type body"

definition dummy_response_str :: "('s, unit) guest" where
  "dummy_response_str = backend_response_str 200 ''text/plain'' ''Hello, world!''"

definition vd_find_header ::
    "host \<Rightarrow> (nat \<Rightarrow> string option) \<Rightarrow> string \<Rightarrow> string \<Rightarrow> ('s, string) guest" where
  "vd_find_header h malloc stack name = http_alloc_find h malloc stack REQ name"

definition vd_set_req_header :: "host \<Rightarrow> string \<Rightarrow> nat \<Rightarrow> ('s, int) guest" where
  "vd_set_req_header h full len = sys_http_set h REQ full len"

definition vd_set_resp_header :: "host \<Rightarrow> string \<Rightarrow> nat \<Rightarrow> ('s, int) guest" where
  "vd_set_resp_header h full len = sys_http_set h RESP full len"

text \<open>The name of a field is what precedes its colon.\<close>

definition field_name :: "kvm_request_header \<Rightarrow> string option" where
  "field_name hdr = map_option (\<lambda>n. take n (c_str (rh_field hdr)))
     (strchr_pos (c_str (rh_field hdr)) (CHR '':''))"

lemma strchr_pos_lt: "strchr_pos s c = Some n \<Longrightarrow> n < length s"
  by (induction s arbitrary: n) (auto split: if_splits)

lemma strncase_eq_take:
  "n \<le> length a \<Longrightarrow> strncase_eq n a b \<longleftrightarrow>
    n \<le> length b \<and> map ascii_lower (take n a) = map ascii_lower (take n b)"
proof (induction n a b rule: strncase_eq.induct)
qed auto

text \<open>What the code's comparison decides: the name of the field, up to case, is a prefix of
  the name asked for.\<close>

definition names_prefix :: "kvm_request_header \<Rightarrow> string \<Rightarrow> bool" where
  "names_prefix hdr header = (case field_name hdr of None \<Rightarrow> False
     | Some name \<Rightarrow> length name \<le> length (c_str header) \<and>
         map ascii_lower name = map ascii_lower (take (length name) (c_str header)))"

lemma vd_header_loop_find:
  "num \<le> length hdrs \<Longrightarrow> vd_header_loop hdrs num header i =
    Some (map_option (\<lambda>hdr. c_str (rh_field hdr))
      (find (\<lambda>hdr. names_prefix hdr header) (drop i (take num hdrs))))"
proof (induction hdrs num header i rule: vd_header_loop.induct)
  case (1 hdrs num header i)
  show ?case
  proof (cases "i < num")
    case False
    then show ?thesis by (simp add: vd_header_loop.simps [of hdrs num header i])
  next
    case True
    then have i: "i < length hdrs" using 1(3) by simp
    have d: "drop i (take num hdrs) = hdrs ! i # drop (i + 1) (take num hdrs)"
      using True i by (simp add: Cons_nth_drop_Suc [symmetric])
    note IH = 1(1)[OF True, of "hdrs ! i"] 1(2)[OF True, of "hdrs ! i"]
    show ?thesis
    proof (cases "strchr_pos (c_str (rh_field (hdrs ! i))) (CHR '':'')")
      case None
      then show ?thesis
        using IH(1) True i 1(3) d
        by (simp add: vd_header_loop.simps [of hdrs num header i] rd_in names_prefix_def field_name_def)
    next
      case (Some n)
      then have n: "n < length (c_str (rh_field (hdrs ! i)))" by (rule strchr_pos_lt)
      have "names_prefix (hdrs ! i) header \<longleftrightarrow>
          strncase_eq n (c_str (rh_field (hdrs ! i))) (c_str header)"
        using Some n by (simp add: names_prefix_def field_name_def strncase_eq_take take_map min_def)
      then show ?thesis
        using IH(2) Some True i 1(3) d
        by (simp add: vd_header_loop.simps [of hdrs num header i] rd_in)
    qed
  qed
qed

section \<open>Go, Kotlin and Nelua\<close>

definition go_backend_response ::
    "int \<Rightarrow> string option \<Rightarrow> nat \<Rightarrow> string option \<Rightarrow> nat \<Rightarrow> ('s, unit) guest" where
  "go_backend_response status ctype ctlen data datalen =
     sys_backend_response status ctype ctlen data datalen None"

definition go_set_cacheable :: "host \<Rightarrow> bool \<Rightarrow> f32 \<Rightarrow> f32 \<Rightarrow> f32 \<Rightarrow> ('s, int) guest" where
  "go_set_cacheable h cached ttl grace keep =
     sys_set_cacheable h cached (f32_trunc (f32_times_1000 ttl))
       (f32_trunc (f32_times_1000 grace)) (f32_trunc (f32_times_1000 keep))"

definition go_storage_init :: "('s, unit) guest" where
  "go_storage_init = andthen (sys_storage_allow ''storage_trampoline'')
     (sys_storage_allow ''storage_strings_trampoline'')"

definition setup_varnish_for_go :: "('s, unit) guest" where
  "setup_varnish_for_go = andthen go_storage_init (andthen (set_backend_get ''go_get_handler'')
     (andthen (set_backend_post ''go_post_handler'') wait_for_requests))"

definition go_storage_call ::
    "host \<Rightarrow> string option \<Rightarrow> nat \<Rightarrow> string option \<Rightarrow> nat \<Rightarrow> nat \<Rightarrow> ('s, string \<times> int) guest" where
  "go_storage_call h func funclen src len resmax =
     storage_callv h ''storage_trampoline'' 2
       [\<lparr>vb_data = func, vb_len = funclen\<rparr>, \<lparr>vb_data = src, vb_len = len\<rparr>] resmax"

definition go_execute_storage_call_strings ::
    "host \<Rightarrow> virtbuffer list \<Rightarrow> nat \<Rightarrow> nat \<Rightarrow> ('s, string \<times> int) guest" where
  "go_execute_storage_call_strings h bufs n resmax =
     storage_callv h ''storage_strings_trampoline'' n bufs resmax"

definition virtbuffer_at :: "virtbuffer list \<Rightarrow> nat \<Rightarrow> virtbuffer option" where
  "virtbuffer_at buf n = rd buf n"

definition kotlin_on_get :: "(string \<Rightarrow> ('s, unit) guest) \<Rightarrow> string \<Rightarrow> ('s, unit) guest" where
  "kotlin_on_get root_on_get url =
     andthen (root_on_get url) (backend_response_str 404 ''text/plain'' ''Not found'')"

definition kotlin_main :: "('s, unit) guest \<Rightarrow> ('s, unit) guest" where
  "kotlin_main root_main = andthen root_main (andthen (set_backend_get ''on_get'') wait_for_requests)"

definition backend_response1 ::
    "int \<Rightarrow> string option \<Rightarrow> nat \<Rightarrow> string option \<Rightarrow> nat \<Rightarrow> ('s, unit) guest" where
  "backend_response1 status t tlen c clen = sys_backend_response status t tlen c clen None"

end
