(* ===== verification/Python_Binding.thy ===== *)
theory Python_Binding
  imports Kvm_Api
begin

text \<open>
  The \<^verbatim>\<open>varnish\<close> module of the Python binding, \<^verbatim>\<open>python/python.c\<close>, and its \<^verbatim>\<open>main\<close>. The
  interpreter is a parameter: what parsing an argument tuple gives (\<^const>\<open>None\<close>: an exception),
  and which of its calls fail.
\<close>

section \<open>The functions of the module\<close>

datatype py_value = Py_None | Py_Str string | Py_Bytes string | Py_Dict "(string \<times> py_value) list"

text \<open>A \<^verbatim>\<open>PyObject *\<close> result: \<^const>\<open>None\<close> is \<^verbatim>\<open>NULL\<close>, an exception is pending.\<close>

type_synonym 's py_fun = "('s, py_value option) guest"

definition pyv_backend_response_str :: "(int \<times> string \<times> string) option \<Rightarrow> 's py_fun" where
  "pyv_backend_response_str args = (case args of None \<Rightarrow> ret None
     | Some (status, content_type, content) \<Rightarrow>
         andthen (backend_response_str status content_type content) (ret (Some Py_None)))"

definition pyv_backend_response :: "(int \<times> string \<times> string \<times> nat) option \<Rightarrow> 's py_fun" where
  "pyv_backend_response args = (case args of None \<Rightarrow> ret None
     | Some (status, content_type, content, content_len) \<Rightarrow>
         andthen (backend_response status (Some content_type) (c_strlen content_type)
                    (Some content) content_len) (ret (Some Py_None)))"

text \<open>\<^verbatim>\<open>Py_BuildValue\<close> of the request the monitor delivered; a \<^verbatim>\<open>NULL\<close> content is \<^const>\<open>Py_None\<close>.\<close>

definition pyv_wait_for_requests :: "kvm_request \<Rightarrow> 's py_fun" where
  "pyv_wait_for_requests req =
     andthen (issue HWait (\<lambda>_. ()))
     (seq (case rq_content req of None \<Rightarrow> ret Py_None
           | Some c \<Rightarrow> seq (read_bytes c (rq_content_len req)) (\<lambda>b. ret (Py_Bytes b))) (\<lambda>content.
       ret (Some (Py_Dict
         [(''method'', Py_Str (c_str (rq_method req))), (''url'', Py_Str (c_str (rq_url req))),
          (''arg'', Py_Str (c_str (rq_arg req))),
          (''content_type'', Py_Str (c_str (rq_content_type req))),
          (''content'', content)]))))"

definition pyv_log :: "string option \<Rightarrow> 's py_fun" where
  "pyv_log args = (case args of None \<Rightarrow> ret None
     | Some message \<Rightarrow> andthen (sys_log message (c_strlen message)) (ret (Some Py_None)))"

definition pyv_http_set_str :: "host \<Rightarrow> string option \<Rightarrow> 's py_fun" where
  "pyv_http_set_str h args = (case args of None \<Rightarrow> ret None
     | Some field \<Rightarrow> andthen (http_set_str h BERESP field) (ret (Some Py_None)))"

definition pyv_http_unset_str :: "host \<Rightarrow> string option \<Rightarrow> 's py_fun" where
  "pyv_http_unset_str h args = (case args of None \<Rightarrow> ret None
     | Some key \<Rightarrow> seq (http_unset_str h BERESP key) (\<lambda>_. ret (Some Py_None)))"

definition pyv_http_find_str :: "host \<Rightarrow> string \<Rightarrow> string option \<Rightarrow> 's py_fun" where
  "pyv_http_find_str h stack args = (case args of None \<Rightarrow> ret None
     | Some key \<Rightarrow> seq (http_find_str h BEREQ key HTTP_FMT_SIZE) (\<lambda>(bytes, len).
         case overwrite stack bytes of None \<Rightarrow> fault | Some buffer \<Rightarrow>
         if len = 0 then ret (Some Py_None)
         else seq (read_bytes buffer len) (\<lambda>b. ret (Some (Py_Str b)))))"

section \<open>main: which resources are held\<close>

text \<open>\<open>R_Config\<close> is the memory of the \<^verbatim>\<open>PyConfig\<close>, which its documentation says is released by
  \<^verbatim>\<open>PyConfig_Clear\<close>; \<open>R_Varnish\<close> the new reference \<^verbatim>\<open>PyImport_ImportModule\<close> returns.\<close>

datatype py_resource = R_Program | R_Config | R_Interp | R_Varnish | R_File | R_Source | R_Code | R_Module | R_Func
  | R_Args | R_Value

datatype py_act = Acquire py_resource | Release py_resource

text \<open>Which calls succeed. \<^verbatim>\<open>PyTuple_Pack\<close> is handed the C strings of \<^verbatim>\<open>argv\<close> where it takes Python
  objects; \<open>pack_ok\<close> and \<open>call_ok\<close> say what it and the call after it return, when they do.\<close>

record py_env =
  decode_ok :: bool
  config_ok :: bool
  initialize_ok :: bool
  import_ok :: bool
  sandboxed :: bool
  open_ok :: bool
  seek_end_ok :: bool
  malloc_ok :: bool
  seek_set_ok :: bool
  read_ok :: bool
  compile_ok :: bool
  exec_ok :: bool
  getattr_ok :: bool
  pack_ok :: bool
  call_ok :: bool

text \<open>The acts of a run and its exit code; \<open>after\<close> puts acts in front of a run.\<close>

type_synonym py_run = "py_act list \<times> int"

definition after :: "py_act list \<Rightarrow> py_run \<Rightarrow> py_run" where
  "after acts r = (acts @ fst r, snd r)"

definition python_call :: "py_env \<Rightarrow> py_run" where
  "python_call env =
     (if \<not> getattr_ok env then ([Release R_Module, Release R_Interp], 1)
      else after [Acquire R_Func]
        (if \<not> pack_ok env then ([Release R_Func, Release R_Module, Release R_Interp], 1)
         else after [Acquire R_Args]
           (if \<not> call_ok env then
              ([Release R_Args, Release R_Func, Release R_Module, Release R_Interp], 1)
            else ([Acquire R_Value, Release R_Value, Release R_Args, Release R_Func,
                   Release R_Module, Release R_Interp], 0))))"

definition python_exec :: "py_env \<Rightarrow> py_run" where
  "python_exec env =
     (if \<not> compile_ok env then ([Release R_Source, Release R_Interp], 1)
      else after [Acquire R_Code]
        (if \<not> exec_ok env then ([Release R_Code, Release R_Source, Release R_Interp], 1)
         else after [Acquire R_Module, Release R_Code, Release R_Source] (python_call env)))"

definition python_load :: "py_env \<Rightarrow> py_run" where
  "python_load env =
     (if \<not> open_ok env then ([Release R_Interp], 1)
      else after [Acquire R_File]
        (if \<not> (seek_end_ok env \<and> malloc_ok env) then ([Release R_File, Release R_Interp], 1)
         else after [Acquire R_Source]
           (if \<not> seek_set_ok env then ([Release R_Source, Release R_File, Release R_Interp], 1)
            else if \<not> read_ok env then ([Release R_Source, Release R_File, Release R_Interp], 1)
            else after [Release R_File] (python_exec env))))"

definition python_main :: "py_env \<Rightarrow> py_run" where
  "python_main env =
     (let program = (if decode_ok env then [R_Program] else []) in
      after (map Acquire program @ [Acquire R_Config])
        (if \<not> config_ok env then (map Release program, 1)
         else if \<not> initialize_ok env then (map Release program, 1)
         else after (Acquire R_Interp # (if import_ok env then [Acquire R_Varnish] else []))
           (if \<not> sandboxed env then ([Release R_Interp], 0) else python_load env)))"

text \<open>A run is balanced for a resource: it alternates between acquiring and releasing it, and
  holds it at the end only if it held it at the start.\<close>

fun holds_after :: "py_resource \<Rightarrow> bool \<Rightarrow> py_act list \<Rightarrow> bool option" where
  "holds_after r held [] = Some held"
| "holds_after r held (Acquire s # as) =
     (if s \<noteq> r then holds_after r held as else if held then None else holds_after r True as)"
| "holds_after r held (Release s # as) =
     (if s \<noteq> r then holds_after r held as else if held then holds_after r False as else None)"

lemmas python_defs = python_main_def python_load_def python_exec_def python_call_def after_def

lemma python_main_balanced:
  "r \<notin> {R_Program, R_Config, R_Varnish} \<Longrightarrow>
    holds_after r False (fst (python_main env)) = Some False"
  by (cases r) (simp_all add: python_defs Let_def)

lemma python_main_leaks:
  "holds_after R_Program False (fst (python_main env))
    = Some (decode_ok env \<and> config_ok env \<and> initialize_ok env)"
  "holds_after R_Config False (fst (python_main env)) = Some True"
  "holds_after R_Varnish False (fst (python_main env))
    = Some (config_ok env \<and> initialize_ok env \<and> import_ok env)"
  by (simp_all add: python_defs Let_def)

lemma python_main_exit_code:
  "snd (python_main env) = (if config_ok env \<and> initialize_ok env \<and>
     (sandboxed env \<longrightarrow> open_ok env \<and> seek_end_ok env \<and> malloc_ok env \<and> seek_set_ok env \<and>
        read_ok env \<and> compile_ok env \<and> exec_ok env \<and> getattr_ok env \<and> pack_ok env \<and> call_ok env)
     then 0 else 1)"
  by (simp add: python_defs Let_def)

end
