(* ===== verification/Js_App.thy ===== *)
theory Js_App
  imports Kvm_Api
begin

text \<open>
  The JavaScript program of \<^verbatim>\<open>javascript/src/main.c\<close> and \<^verbatim>\<open>http.c\<close>: the functions of the
  \<^verbatim>\<open>varnish\<close> object, the callbacks that run the handlers of the script, and calls into
  storage. The script engine is a parameter, the record \<open>engine\<close>: its conversions of values, its
  property accesses and the calls of script functions. All of them may run script code, so each
  is code of the guest, which may change the world and does with \<open>'s\<close> what it likes. \<open>JStr s\<close> is
  the value \<^verbatim>\<open>JS_NewStringLen\<close> makes of the bytes \<open>s\<close>; the engine has memory for it.
\<close>

section \<open>Values and the engine\<close>

text \<open>\<open>JExc\<close> is \<^verbatim>\<open>JS_EXCEPTION\<close>, with the reason when this file threw it.\<close>

datatype jsval = JUndefined | JTrue | JInt int | JStr string | JArr "jsval list"
  | JObj "(string \<times> jsval) list" | JFun string | JExc "string option"

text \<open>A conversion to text gives \<^const>\<open>None\<close> when it fails: \<^verbatim>\<open>JS_ToCStringLen\<close> then returns \<^verbatim>\<open>NULL\<close>
  and sets the length to 0.\<close>

record 's engine =
  to_int32 :: "jsval \<Rightarrow> ('s, int option) guest"
  to_cstr :: "jsval \<Rightarrow> ('s, string option) guest"
  to_bool :: "jsval \<Rightarrow> int"
  to_float64 :: "jsval \<Rightarrow> ('s, (int \<times> int) option) guest"
  is_array :: "jsval \<Rightarrow> ('s, bool) guest"
  get_index :: "jsval \<Rightarrow> nat \<Rightarrow> ('s, jsval) guest"
  global_prop :: "string \<Rightarrow> ('s, jsval) guest"

definition is_function :: "jsval \<Rightarrow> bool" where
  "is_function v = (case v of JFun _ \<Rightarrow> True | _ \<Rightarrow> False)"

definition is_exception :: "jsval \<Rightarrow> bool" where
  "is_exception v = (case v of JExc _ \<Rightarrow> True | _ \<Rightarrow> False)"

type_synonym 's jscall = "jsval \<Rightarrow> jsval list \<Rightarrow> ('s, jsval) guest"

definition throw_error :: "string \<Rightarrow> jsval" where
  "throw_error reason = JExc (Some reason)"

definition MAX_STORAGE_ARGS :: nat where
  "MAX_STORAGE_ARGS = 12"

section \<open>The functions of the varnish object\<close>

definition js_backend_response :: "'s engine \<Rightarrow> jsval list \<Rightarrow> ('s, jsval) guest" where
  "js_backend_response e argv =
     (if length argv = 3 then
        seq (to_int32 e (argv ! 0)) (\<lambda>r. case r of None \<Rightarrow> ret (JExc None) | Some code \<Rightarrow>
          seq (to_cstr e (argv ! 1)) (\<lambda>t. seq (to_cstr e (argv ! 2)) (\<lambda>c.
            case (t, c) of
              (Some type, Some cont) \<Rightarrow>
                andthen (backend_response code (Some type) (length type) (Some cont) (length cont))
                  (ret (JExc None))
            | _ \<Rightarrow> ret (JExc None))))
      else ret (JExc None))"

text \<open>The result of the conversion is not tested: \<^verbatim>\<open>NULL\<close> is logged as 0 bytes.\<close>

definition js_log_call :: "'s engine \<Rightarrow> jsval list \<Rightarrow> ('s, jsval) guest" where
  "js_log_call e argv =
     (if length argv \<ge> 1 then
        seq (to_cstr e (argv ! 0)) (\<lambda>t.
          andthen (case t of None \<Rightarrow> sys_log [] 0 | Some text \<Rightarrow> sys_log text (length text))
            (ret JTrue))
      else ret (JExc None))"

definition js_cacheable_call :: "host \<Rightarrow> 's engine \<Rightarrow> jsval list \<Rightarrow> ('s, jsval) guest" where
  "js_cacheable_call h e argv =
     (if length argv = 4 then
        (let cached = to_bool e (argv ! 0) in
         seq (to_float64 e (argv ! 1)) (\<lambda>a. case a of None \<Rightarrow> ret (JExc None) | Some ttl \<Rightarrow>
         seq (to_float64 e (argv ! 2)) (\<lambda>b. case b of None \<Rightarrow> ret (JExc None) | Some grace \<Rightarrow>
         seq (to_float64 e (argv ! 3)) (\<lambda>c. case c of None \<Rightarrow> ret (JExc None) | Some keep \<Rightarrow>
           seq (set_cacheable h (cached \<noteq> 0) (f32_round (fst ttl) (snd ttl))
                  (f32_round (fst grace) (snd grace)) (f32_round (fst keep) (snd keep)))
             (\<lambda>_. ret JTrue)))))
      else ret (JExc None))"

definition js_get_call :: "host \<Rightarrow> 's engine \<Rightarrow> string \<Rightarrow> jsval list \<Rightarrow> ('s, jsval) guest" where
  "js_get_call h e stack argv =
     (if length argv = 1 then
        seq (to_cstr e (argv ! 0)) (\<lambda>t. case t of None \<Rightarrow> ret (JExc None) | Some name \<Rightarrow>
          seq (sys_http_find h 4 name (length name) (Some 1024)) (\<lambda>(bytes, len).
            case overwrite stack bytes of None \<Rightarrow> fault | Some buffer \<Rightarrow>
            if len > 0 then seq (read_bytes buffer len) (\<lambda>v. ret (JStr v))
            else ret (throw_error ''HTTP header field could not be found'')))
      else ret (JExc None))"

definition js_set_call :: "host \<Rightarrow> 's engine \<Rightarrow> jsval list \<Rightarrow> ('s, jsval) guest" where
  "js_set_call h e argv =
     (if length argv = 1 then
        seq (to_cstr e (argv ! 0)) (\<lambda>t. case t of None \<Rightarrow> ret (JExc None) | Some field \<Rightarrow>
          seq (sys_http_set h 5 field (length field)) (\<lambda>r.
            if r > 0 then ret JTrue
            else ret (throw_error ''HTTP header field could not be set'')))
      else ret (JExc None))"

definition js_sendfile_call ::
    "(string \<Rightarrow> ('s, unit) guest) \<Rightarrow> 's engine \<Rightarrow> jsval list \<Rightarrow> ('s, jsval) guest" where
  "js_sendfile_call static_site e argv =
     (if length argv = 1 then
        seq (to_cstr e (argv ! 0)) (\<lambda>t. case t of None \<Rightarrow> ret (JExc None)
         | Some filename \<Rightarrow> andthen (static_site (c_str filename)) (ret (JExc None)))
      else ret (JExc None))"

section \<open>Requests\<close>

definition js_on_error :: "'s jscall \<Rightarrow> jsval \<Rightarrow> string \<Rightarrow> string \<Rightarrow> string \<Rightarrow> ('s, unit) guest" where
  "js_on_error call error_func url arg exception =
     seq (call error_func [JStr url, JStr arg, JStr exception]) (\<lambda>_.
       backend_response_str 500 ''text/plain'' ''Internal server error'')"

definition js_on_get :: "'s jscall \<Rightarrow> jsval \<Rightarrow> jsval \<Rightarrow> string \<Rightarrow> string \<Rightarrow> ('s, unit) guest" where
  "js_on_get call backend_func error_func url arg =
     seq (call backend_func [JStr url, JStr arg]) (\<lambda>r.
       andthen (if is_exception r
                then js_on_error call error_func url [] ''Unhandled JavaScript exception''
                else ret ())
         (backend_response_str 404 ''text/plain'' ''Not found''))"

definition js_on_post :: "'s jscall \<Rightarrow> jsval \<Rightarrow> jsval \<Rightarrow> string \<Rightarrow> string \<Rightarrow> string \<Rightarrow> string \<Rightarrow> nat \<Rightarrow>
    ('s, unit) guest" where
  "js_on_post call post_backend_func error_func url arg ctype data len =
     seq (read_bytes data len) (\<lambda>d.
     seq (call post_backend_func [JStr url, JStr arg, JStr ctype, JStr d]) (\<lambda>r.
       andthen (if is_exception r
                then js_on_error call error_func url [] ''Unhandled JavaScript exception''
                else ret ())
         (backend_response_str 404 ''text/plain'' ''Not found'')))"

lemma responded_str [simp]:
  "responded (backend_response_str st ct body w) = Some (int16_of st, c_str ct, c_str body)"
  by (simp add: responded_def)

lemma js_on_error_answers:
  assumes "answers (call error_func [JStr url, JStr arg, JStr ex])"
    and "fst (call error_func [JStr url, JStr arg, JStr ex] w) \<noteq> Fault"
  shows "responded (js_on_error call error_func url arg ex w) \<noteq> None"
  unfolding js_on_error_def by (rule str_reply.answered_after [OF assms(2,1)])

lemma js_on_get_responds:
  assumes "\<And>f vs. answers (call f vs)" and "\<And>f vs w. fst (call f vs w) \<noteq> Fault"
  shows "responded (js_on_get call backend_func error_func url arg w) \<noteq> None
    \<and> (\<forall>v w'. call backend_func [JStr url, JStr arg] w = (Val v, w') \<and> \<not> is_exception v \<longrightarrow>
        responded (js_on_get call backend_func error_func url arg w)
          = Some (404, ''text/plain'', ''Not found''))"
proof (cases "call backend_func [JStr url, JStr arg] w")
  case (Pair r w')
  show ?thesis
  proof (cases r)
    case (Val v)
    let ?err = "js_on_error call error_func url [] ''Unhandled JavaScript exception''"
    have "responded (seq ?err f w') \<noteq> None" for f
    proof -
      have "responded (?err w') \<noteq> None" using js_on_error_answers [OF assms(1,2)] .
      then have "fst (?err w') = Stop" by (rule responded_Stop)
      then show ?thesis using \<open>responded (?err w') \<noteq> None\<close>
        by (cases "?err w'") (simp add: responded_seq_Stop)
    qed
    then show ?thesis using Pair Val
      by (auto simp: js_on_get_def responded_seq_Val int16_of_id)
  next
    case Stop
    then show ?thesis using Pair answersD [OF assms(1), of backend_func "[JStr url, JStr arg]" w]
      by (auto simp: js_on_get_def responded_seq_Stop)
  next
    case Fault
    then show ?thesis using Pair assms(2) [of backend_func "[JStr url, JStr arg]" w] by simp
  qed
qed

section \<open>Storage\<close>

fun js_buffer_values :: "virtbuffer list \<Rightarrow> ('s, jsval list) guest" where
  "js_buffer_values [] = ret []"
| "js_buffer_values (b # bs) = seq (read_ptr (vb_data b) (vb_len b)) (\<lambda>d.
     seq (js_buffer_values bs) (\<lambda>vs. ret (JStr d # vs)))"

text \<open>The callee side, in the storage machine; \<open>buffers\<close> are what the monitor copied in. The
  array \<^verbatim>\<open>argv\<close> has room for \<open>MAX_STORAGE_ARGS\<close> values.\<close>

definition js_storage_trampoline ::
    "'s jscall \<Rightarrow> 's engine \<Rightarrow> virtbuffer list \<Rightarrow> nat \<Rightarrow> ('s, unit) guest" where
  "js_storage_trampoline call e buffers reslen = (case buffers of [] \<Rightarrow> fault | b0 # bs \<Rightarrow>
     (case vb_data b0 of None \<Rightarrow> fault | Some name \<Rightarrow>
      seq (global_prop e (c_str name)) (\<lambda>sfunc.
      andthen (assertg (is_function sfunc))
      (if length bs > MAX_STORAGE_ARGS then fault else
       seq (js_buffer_values bs) (\<lambda>argv.
       seq (call sfunc argv) (\<lambda>r.
         if is_exception r then storage_return_nothing
         else seq (to_cstr e r) (\<lambda>t. case t of None \<Rightarrow> storage_return None 0
           | Some text \<Rightarrow> andthen (assertg (length text \<le> reslen))
               (storage_return (Some text) (length text)))))))))"

text \<open>The conversion of the arguments, which stops at the first that fails.\<close>

fun js_arg_texts :: "'s engine \<Rightarrow> jsval list \<Rightarrow> ('s, string list option) guest" where
  "js_arg_texts e [] = ret (Some [])"
| "js_arg_texts e (v # vs) = seq (to_cstr e v) (\<lambda>t. case t of None \<Rightarrow> ret None
     | Some data \<Rightarrow> seq (js_arg_texts e vs) (\<lambda>ts. ret (map_option (\<lambda>xs. data # xs) ts)))"

abbreviation text_buffer :: "string \<Rightarrow> virtbuffer" where
  "text_buffer s \<equiv> \<lparr>vb_data = Some s, vb_len = length s\<rparr>"

definition js_result_size :: nat where
  "js_result_size = 2 ^ 21"

text \<open>Nothing tests the block that is to hold the result. When there is none, the monitor cannot
  write a byte to it, and no byte can be read from it.\<close>

definition js_storage_call ::
    "host \<Rightarrow> 's engine \<Rightarrow> (nat \<Rightarrow> string option) \<Rightarrow> jsval list \<Rightarrow> ('s, jsval) guest" where
  "js_storage_call h e malloc argv =
     (if length argv \<ge> 1 then
        if length argv > MAX_STORAGE_ARGS then ret (JExc None)
        else seq (js_arg_texts e argv) (\<lambda>ts. case ts of None \<Rightarrow> ret (JExc None) | Some texts \<Rightarrow>
          let result = malloc js_result_size in
          seq (storage_callv h ''storage_trampoline'' (length argv) (map text_buffer texts)
                 js_result_size)
            (\<lambda>(bytes, reslen).
               case overwrite (case result of None \<Rightarrow> [] | Some block \<Rightarrow> block) bytes of
                 None \<Rightarrow> fault
               | Some result1 \<Rightarrow>
                   if reslen \<ge> 0 then seq (read_bytes result1 (nat reslen)) (\<lambda>s. ret (JStr s))
                   else ret (JExc None)))
      else ret (JExc None))"

lemma read_buffers_text [simp]: "read_buffers (map text_buffer ss) = ret ss"
  by (induction ss) simp_all

lemma js_buffer_values_text [simp]: "js_buffer_values (map text_buffer ss) = ret (map JStr ss)"
  by (induction ss) simp_all

lemma seq_Val: "m w = (Val a, w') \<Longrightarrow> seq m f w = f a w'"
  by (simp add: seq_def)

lemma js_arg_texts_length:
  "js_arg_texts e vs w = (Val (Some ts), w') \<Longrightarrow> length ts = length vs"
proof (induction vs arbitrary: ts w)
  case Nil
  then show ?case by simp
next
  case (Cons v vs)
  then obtain d w1 r where "to_cstr e v w = (Val (Some d), w1)"
      "js_arg_texts e vs w1 = (Val (Some r), w')" "ts = d # r"
    by (auto simp: seq_def split: prod.splits outcome.splits option.splits)
  then show ?case using Cons.IH by simp
qed

lemma js_storage_call_run:
  assumes "length argv \<le> MAX_STORAGE_ARGS"
    and "js_arg_texts e argv w = (Val (Some texts), w1)" and "texts \<noteq> []"
    and "ans_callv h (calls w1) ''storage_trampoline'' texts js_result_size = (res, int (length res))"
    and "lawful_malloc malloc" and "length res \<le> js_result_size"
  shows "js_storage_call h e malloc argv w =
    (if malloc js_result_size = None \<and> res \<noteq> [] then Fault else Val (JStr res),
     w1\<lparr>calls := calls w1 @ [HStorageCall ''storage_trampoline'' texts js_result_size]\<rparr>)"
proof -
  have n: "length argv = length texts" using js_arg_texts_length [OF assms(2)] by simp
  have one: "Suc 0 \<le> length texts" using assms(3) by (cases texts) simp_all
  show ?thesis
  proof (cases "malloc js_result_size")
    case None
    then show ?thesis
      using assms(1-4) one by (cases res)
        (auto simp: js_storage_call_def seq_Val storage_callv_def n overwrite_def Let_def)
  next
    case (Some block)
    then have "length block = js_result_size" using assms(5) by (simp add: lawful_malloc_def)
    then show ?thesis
      using Some assms(1-4,6) one
      by (auto simp: js_storage_call_def seq_Val storage_callv_def n overwrite_def Let_def)
  qed
qed

lemma js_storage_trampoline_run:
  assumes "length args \<le> MAX_STORAGE_ARGS" and "global_prop e (c_str name) w = (Val sfunc, w1)"
    and "is_function sfunc" and "call sfunc (map JStr args) w1 = (Val r, w2)"
    and "\<not> is_exception r" and "to_cstr e r w2 = (Val (Some res), w3)"
    and "length res \<le> reslen"
  shows "js_storage_trampoline call e (map text_buffer (name # args)) reslen w
    = (Val (), w3\<lparr>calls := calls w3 @ [HStorageReturn res]\<rparr>)"
  using assms by (simp add: js_storage_trampoline_def seq_Val storage_return_def)

definition js_on_live_update :: "'s jscall \<Rightarrow> 's engine \<Rightarrow> ('s, unit) guest" where
  "js_on_live_update call e = seq (global_prop e ''on_live_update'') (\<lambda>sfunc.
      if \<not> is_function sfunc then ret ()
      else seq (call sfunc []) (\<lambda>r. case r of
         JStr s \<Rightarrow> seq (to_cstr e (JStr s)) (\<lambda>t. case t of None \<Rightarrow> storage_return None 0
           | Some data \<Rightarrow> storage_return (Some data) (length data))
       | _ \<Rightarrow> storage_return_nothing))"

text \<open>\<open>restored\<close> is what the monitor writes into the block of \<^verbatim>\<open>len\<close> bytes, which is not tested
  either.\<close>

definition js_on_resume_update ::
    "'s jscall \<Rightarrow> 's engine \<Rightarrow> (nat \<Rightarrow> string option) \<Rightarrow> string \<Rightarrow> nat \<Rightarrow> ('s, unit) guest" where
  "js_on_resume_update call e malloc restored len =
     andthen (storage_return (malloc len) len)
     (case overwrite (case malloc len of None \<Rightarrow> [] | Some block \<Rightarrow> block) restored of
        None \<Rightarrow> fault
      | Some data \<Rightarrow> seq (global_prop e ''on_resume_update'') (\<lambda>sfunc.
          if \<not> is_function sfunc then ret ()
          else seq (read_bytes data len) (\<lambda>d. seq (call sfunc [JStr d]) (\<lambda>_. ret ()))))"

section \<open>main\<close>

text \<open>The properties of the \<^verbatim>\<open>varnish\<close> object: name, C function, declared argument count.\<close>

definition js_varnish_api :: "(string \<times> string \<times> nat) list" where
  "js_varnish_api =
     [(''log'', ''js_log_call'', 1), (''response'', ''js_backend_response'', 3),
      (''set_cacheable'', ''js_cacheable_call'', 4), (''get'', ''js_get_call'', 1),
      (''set'', ''js_set_call'', 1), (''sendfile'', ''js_sendfile_call'', 1),
      (''storage'', ''js_storage_call'', MAX_STORAGE_ARGS),
      (''fetch'', ''js_http_fetch_call'', 1), (''post'', ''js_http_post_call'', 3)]"

text \<open>The end of \<^verbatim>\<open>main\<close>, once the script has run.\<close>

definition js_main_start :: "'s engine \<Rightarrow> ('s, unit) guest" where
  "js_main_start e =
     seq (global_prop e ''on_get'') (\<lambda>backend_func. andthen (assertg (is_function backend_func))
     (seq (global_prop e ''on_post'') (\<lambda>post_backend_func.
      seq (global_prop e ''on_error'') (\<lambda>error_func.
     andthen (set_backend_get ''on_get'') (andthen (set_backend_post ''on_post'')
     (andthen (set_on_error ''on_error'') (andthen (set_on_live_update ''on_live_update'')
     (andthen (set_on_live_restore ''on_resume_update'') wait_for_requests))))))))"

section \<open>http.c\<close>

text \<open>\<^verbatim>\<open>strchr(hdr, '\r')\<close> from a position of a block: the outer \<^const>\<open>None\<close> is a search that
  runs past the block, the inner one the code's \<^verbatim>\<open>NULL\<close>.\<close>

abbreviation CR :: char where "CR \<equiv> CHR 0x0D"
abbreviation LF :: char where "LF \<equiv> CHR 0x0A"

fun find_cr :: "string \<Rightarrow> nat option option" where
  "find_cr [] = None"
| "find_cr (c # cs) = (if c = CR then Some (Some 0) else if c = NUL then Some None
     else map_option (map_option Suc) (find_cr cs))"

function get_headers_loop :: "string \<Rightarrow> nat \<Rightarrow> nat \<Rightarrow> jsval list option" where
  "get_headers_loop block hdr_end hdr =
     (if hdr < hdr_end then
        (case find_cr (drop hdr block) of
           None \<Rightarrow> None
         | Some None \<Rightarrow> Some []
         | Some (Some n) \<Rightarrow> map_option (\<lambda>rest. JStr (take n (drop hdr block)) # rest)
             (get_headers_loop block hdr_end (hdr + n + 2)))
      else Some [])"
  by pat_completeness auto
termination
  by (relation "measure (\<lambda>(block, hdr_end, hdr). hdr_end - hdr)") auto

declare get_headers_loop.simps [simp del]

definition get_headers :: "curl_op \<Rightarrow> ('s, jsval) guest" where
  "get_headers op = (case op_headers op of
     None \<Rightarrow> if op_headers_length op = 0 then ret (JArr []) else fault
   | Some block \<Rightarrow> (case get_headers_loop block (op_headers_length op) 0 of
       None \<Rightarrow> fault | Some hs \<Rightarrow> ret (JArr hs)))"

lemma find_cr_append: "CR \<notin> set l \<Longrightarrow> NUL \<notin> set l \<Longrightarrow> find_cr (l @ CR # t) = Some (Some (length l))"
  by (induction l) auto

lemma get_headers_loop_lines:
  "\<forall>l \<in> set ls. CR \<notin> set l \<and> NUL \<notin> set l \<Longrightarrow>
    block = pre @ concat (map (\<lambda>l. l @ [CR, LF]) ls) @ rest \<Longrightarrow>
    hend = length (pre @ concat (map (\<lambda>l. l @ [CR, LF]) ls)) \<Longrightarrow>
    get_headers_loop block hend (length pre) = Some (map JStr ls)"
proof (induction ls arbitrary: pre)
  case Nil
  then show ?case by (simp add: get_headers_loop.simps [of _ "length pre"])
next
  case (Cons l ls)
  have d: "drop (length pre) block = l @ CR # LF # concat (map (\<lambda>l. l @ [CR, LF]) ls) @ rest"
    using Cons.prems(2) by simp
  have "get_headers_loop block hend (length (pre @ l @ [CR, LF])) = Some (map JStr ls)"
    using Cons.prems by (intro Cons.IH) auto
  moreover have "find_cr (drop (length pre) block) = Some (Some (length l))"
    unfolding d using Cons.prems(1) by (intro find_cr_append) auto
  moreover have "length pre < hend" using Cons.prems(3) by simp
  ultimately show ?case
    by (simp add: get_headers_loop.simps [of block hend "length pre"] d add.assoc)
qed

lemma get_headers_lines:
  assumes "\<forall>l \<in> set ls. CR \<notin> set l \<and> NUL \<notin> set l"
    and "op_headers op = Some (concat (map (\<lambda>l. l @ [CR, LF]) ls) @ NUL # rest)"
    and "op_headers_length op = length (concat (map (\<lambda>l. l @ [CR, LF]) ls))"
  shows "get_headers op = ret (JArr (map JStr ls))"
  using get_headers_loop_lines [OF assms(1), of _ "[]" "NUL # rest"] assms(2,3)
  by (simp add: get_headers_def)

text \<open>The loop over the twelve fields. An exception while an element is read stops it; a failed
  conversion leaves a null pointer and the length 0, and the loop goes on.\<close>

definition field_len :: "string option \<Rightarrow> nat" where
  "field_len t = (case t of None \<Rightarrow> 0 | Some s \<Rightarrow> length s mod 2 ^ 16)"

fun request_fields_loop ::
    "'s engine \<Rightarrow> jsval \<Rightarrow> nat \<Rightarrow> nat \<Rightarrow> curl_fields \<Rightarrow> ('s, curl_fields) guest" where
  "request_fields_loop e array i 0 flds = ret flds"
| "request_fields_loop e array i (Suc k) flds =
     seq (get_index e array i) (\<lambda>val.
       if is_exception val then ret flds
       else seq (to_cstr e val) (\<lambda>t. request_fields_loop e array (i + 1) k
         (flds\<lparr>cf_ptr := (cf_ptr flds)[i := t], cf_len := (cf_len flds)[i := field_len t]\<rparr>)))"

definition get_request_fields ::
    "'s engine \<Rightarrow> curl_fields \<Rightarrow> jsval \<Rightarrow> ('s, curl_fields option) guest" where
  "get_request_fields e flds array =
     seq (is_array e array) (\<lambda>b.
       if b then seq (request_fields_loop e array 0 CURL_FIELDS_COUNT flds) (\<lambda>f. ret (Some f))
       else ret None)"

text \<open>The elements \<open>i\<close> to \<open>j - 1\<close> are read and converted one after the other: \<open>ws n\<close> is the world
  before element \<open>n\<close> is read, \<open>ts n\<close> what its conversion gives.\<close>

definition elements_read ::
    "'s engine \<Rightarrow> jsval \<Rightarrow> nat \<Rightarrow> nat \<Rightarrow> (nat \<Rightarrow> 's world) \<Rightarrow> (nat \<Rightarrow> string option) \<Rightarrow> bool" where
  "elements_read e array i j ws ts \<longleftrightarrow> (\<forall>n. i \<le> n \<and> n < j \<longrightarrow>
     (\<exists>v u. get_index e array n (ws n) = (Val v, u) \<and> \<not> is_exception v \<and>
        to_cstr e v u = (Val (ts n), ws (Suc n))))"

lemma elements_read_step:
  assumes "elements_read e array i j ws ts" and "i < j"
  shows "request_fields_loop e array i (Suc k) flds (ws i) =
      request_fields_loop e array (Suc i) k
        (flds\<lparr>cf_ptr := (cf_ptr flds)[i := ts i], cf_len := (cf_len flds)[i := field_len (ts i)]\<rparr>)
        (ws (Suc i))"
    and "elements_read e array (Suc i) j ws ts"
proof -
  obtain v u where "get_index e array i (ws i) = (Val v, u)" "\<not> is_exception v"
      "to_cstr e v u = (Val (ts i), ws (Suc i))"
    using assms unfolding elements_read_def by blast
  then show "request_fields_loop e array i (Suc k) flds (ws i) =
      request_fields_loop e array (Suc i) k
        (flds\<lparr>cf_ptr := (cf_ptr flds)[i := ts i], cf_len := (cf_len flds)[i := field_len (ts i)]\<rparr>)
        (ws (Suc i))" by (simp add: seq_Val)
  show "elements_read e array (Suc i) j ws ts" using assms(1) by (simp add: elements_read_def)
qed

text \<open>After the elements up to \<open>j\<close> the fields below \<open>j\<close> are set and the others are as they were.\<close>

definition fields_set :: "(nat \<Rightarrow> string option) \<Rightarrow> nat \<Rightarrow> curl_fields \<Rightarrow> curl_fields" where
  "fields_set ts j flds = flds\<lparr>cf_ptr := map ts [0..<j] @ drop j (cf_ptr flds),
     cf_len := map (\<lambda>n. field_len (ts n)) [0..<j] @ drop j (cf_len flds)\<rparr>"

lemma fields_set_0 [simp]: "fields_set ts 0 flds = flds"
  by (simp add: fields_set_def)

lemma fields_set_Suc:
  assumes "i < length (cf_ptr flds)" and "i < length (cf_len flds)"
  shows "(fields_set ts i flds)\<lparr>cf_ptr := (cf_ptr (fields_set ts i flds))[i := ts i],
      cf_len := (cf_len (fields_set ts i flds))[i := field_len (ts i)]\<rparr> = fields_set ts (Suc i) flds"
  using assms by (simp add: fields_set_def list_update_append Cons_nth_drop_Suc [symmetric])

lemma request_fields_loop_set:
  assumes "elements_read e array i j ws ts" and "i \<le> j" and "j \<le> n"
    and "n \<le> length (cf_ptr flds)" and "n \<le> length (cf_len flds)"
  shows "request_fields_loop e array i (n - i) (fields_set ts i flds) (ws i) =
    request_fields_loop e array j (n - j) (fields_set ts j flds) (ws j)"
  using assms(1,2)
proof (induction "j - i" arbitrary: i)
  case 0
  then show ?case by simp
next
  case (Suc d)
  then have i: "i < j" by simp
  then have "n - i = Suc (n - Suc i)" using assms(3) by simp
  moreover have "i < length (cf_ptr flds)" "i < length (cf_len flds)"
    using i assms(3-5) by simp_all
  ultimately have "request_fields_loop e array i (n - i) (fields_set ts i flds) (ws i) =
      request_fields_loop e array (Suc i) (n - Suc i) (fields_set ts (Suc i) flds) (ws (Suc i))"
    using elements_read_step(1) [OF Suc.prems(1) i] fields_set_Suc [of i flds ts] by simp
  then show ?case
    using Suc.hyps(1) [of "Suc i"] elements_read_step(2) [OF Suc.prems(1) i] Suc.hyps(2) i by simp
qed

lemma get_request_fields_run:
  assumes "is_array e array w = (Val True, ws 0)" and "elements_read e array 0 k ws ts"
    and "k \<le> CURL_FIELDS_COUNT"
    and "k < CURL_FIELDS_COUNT \<longrightarrow> get_index e array k (ws k) = (Val x, w') \<and> is_exception x"
    and "k = CURL_FIELDS_COUNT \<longrightarrow> w' = ws k"
  shows "get_request_fields e curl_fields_zero array w =
    (Val (Some (fields_set ts k curl_fields_zero)), w')"
proof -
  have "request_fields_loop e array 0 CURL_FIELDS_COUNT curl_fields_zero (ws 0) =
      request_fields_loop e array k (CURL_FIELDS_COUNT - k) (fields_set ts k curl_fields_zero) (ws k)"
    using request_fields_loop_set [OF assms(2) _ assms(3), of curl_fields_zero]
    by (simp add: curl_fields_zero_def)
  also have "\<dots> = (Val (fields_set ts k curl_fields_zero), w')"
  proof (cases "k = CURL_FIELDS_COUNT")
    case True
    then show ?thesis using assms(5) by simp
  next
    case False
    then obtain m where "CURL_FIELDS_COUNT - k = Suc m" using assms(3) by (metis Suc_diff_Suc le_neq_implies_less)
    then show ?thesis using False assms(3,4) by (simp add: seq_Val)
  qed
  finally show ?thesis using assms(1) by (simp add: get_request_fields_def seq_Val)
qed

definition js_fetch_result :: "curl_op \<Rightarrow> ('s, jsval) guest" where
  "js_fetch_result op =
     seq (read_bytes (op_ctype op) (op_ctlen op)) (\<lambda>type.
     seq (read_ptr (op_content op) (op_content_length op)) (\<lambda>content.
     seq (get_headers op) (\<lambda>array.
       ret (JObj [(''status'', JInt (int (op_status op))), (''type'', JStr type),
                  (''content'', JStr content), (''headers'', array)]))))"

definition js_http_fetch_call :: "host \<Rightarrow> 's engine \<Rightarrow> string \<Rightarrow> jsval list \<Rightarrow> ('s, jsval) guest" where
  "js_http_fetch_call h e stack argv =
     (if length argv \<ge> 1 then
        seq (to_cstr e (argv ! 0)) (\<lambda>u. case u of None \<Rightarrow> ret (JExc None) | Some url \<Rightarrow>
         seq (if length argv \<ge> 2 then get_request_fields e curl_fields_zero (argv ! 1)
              else ret (Some curl_fields_zero)) (\<lambda>f. case f of
            None \<Rightarrow> andthen
                (vlogf stack (Some (''qjs: fetch('' @ c_str url @ '') request headers failed'')))
                (ret (throw_error ''fetch: Second argument must be array''))
          | Some flds \<Rightarrow> seq (sys_fetch h url (length url) curl_op_zero (Some flds) None) (\<lambda>(rc, op).
              if rc = 0 then js_fetch_result op
              else andthen (vlogf stack (Some (''qjs: fetch('' @ c_str url @ '') failed'')))
                     (ret (throw_error ''fetch() failed'')))))
      else andthen (vlogf stack (Some ''qjs: fetch() not enough arguments''))
             (ret (throw_error ''Not enough arguments to fetch()'')))"

definition js_http_post_call :: "host \<Rightarrow> 's engine \<Rightarrow> string \<Rightarrow> jsval list \<Rightarrow> ('s, jsval) guest" where
  "js_http_post_call h e stack argv =
     (if length argv \<ge> 3 then
        seq (to_cstr e (argv ! 0)) (\<lambda>u. case u of None \<Rightarrow> ret (JExc None) | Some url \<Rightarrow>
        seq (to_cstr e (argv ! 1)) (\<lambda>t. case t of None \<Rightarrow> ret (JExc None) | Some ctype \<Rightarrow>
         (case overwrite (op_ctype curl_op_zero) ctype of None \<Rightarrow> fault | Some ct \<Rightarrow>
          let op1 = curl_op_zero\<lparr>op_ctlen := length ctype, op_ctype := ct\<rparr> in
          seq (if length argv \<ge> 4 then get_request_fields e curl_fields_zero (argv ! 3)
               else ret (Some curl_fields_zero)) (\<lambda>f. case f of
              None \<Rightarrow> andthen
                  (vlogf stack (Some (''qjs: post('' @ c_str url @ '') request headers failed'')))
                  (ret (throw_error ''fetch: Second argument must be array''))
            | Some flds \<Rightarrow>
              seq (to_cstr e (argv ! 2)) (\<lambda>b. case b of None \<Rightarrow> ret (JExc None) | Some buf \<Rightarrow>
               let op2 = op1\<lparr>op_post_buffer := Some buf, op_post_buflen := length buf mod 2 ^ 32\<rparr> in
               seq (sys_fetch h url (length url) op2 (Some flds) None) (\<lambda>(rc, op).
                 if rc = 0 then js_fetch_result op
                 else andthen (vlogf stack (Some (''qjs: post('' @ c_str url @ '') failed'')))
                        (ret (throw_error ''post() failed'')))))))) 
      else andthen (vlogf stack (Some ''qjs: post() not enough arguments''))
             (ret (throw_error ''Not enough arguments to post()'')))"

end
