(* ===== verification/Array_Swap.thy ===== *)
theory Array_Swap
  imports Prelude
begin

text \<open>
  Arrays of elements under exchanges: the \<^verbatim>\<open>exchange_\<close> functions of QuickJS's \<^verbatim>\<open>cutils.c\<close> on
  bytes, the dispatch \<^verbatim>\<open>exchange_func\<close> between them, and the exchange of two elements or of
  two runs of elements that the sorting functions are written with.
\<close>

section \<open>Exchanging elements\<close>

definition swap_el :: "'a list \<Rightarrow> nat \<Rightarrow> nat \<Rightarrow> 'a list option" where
  "swap_el xs i j = do {
     t \<leftarrow> rd xs i;
     u \<leftarrow> rd xs j;
     ys \<leftarrow> wr xs i u;
     wr ys j t
   }"

text \<open>Exchange of \<open>n\<close> units, one after the other, as the loops of the \<^verbatim>\<open>exchange_\<close> functions
  do.\<close>

fun exchange_units :: "nat \<Rightarrow> 'a list \<Rightarrow> nat \<Rightarrow> nat \<Rightarrow> 'a list option" where
  "exchange_units 0 xs a b = Some xs"
| "exchange_units (Suc n) xs a b = do {
     ys \<leftarrow> swap_el xs a b;
     exchange_units n ys (a + 1) (b + 1)
   }"

lemma swap_el_in [simp]:
  "i < length xs \<Longrightarrow> j < length xs \<Longrightarrow> swap_el xs i j = Some (xs[i := xs ! j, j := xs ! i])"
  by (simp add: swap_el_def rd_in wr_in)

lemma mset_swap [simp]:
  "i < length xs \<Longrightarrow> j < length xs \<Longrightarrow> mset (xs[i := xs ! j, j := xs ! i]) = mset xs"
  by (rule mset_swap)

lemma exchange_units_ok:
  assumes "a + n \<le> b" and "b + n \<le> length xs"
  shows "\<exists>ys. exchange_units n xs a b = Some ys \<and> mset ys = mset xs \<and> length ys = length xs \<and>
    (\<forall>k < length xs. ys ! k =
       (if a \<le> k \<and> k < a + n then xs ! (b + (k - a))
        else if b \<le> k \<and> k < b + n then xs ! (a + (k - b)) else xs ! k))"
  using assms
proof (induction n arbitrary: xs a b)
  case 0
  then show ?case by auto
next
  case (Suc n)
  let ?zs = "xs[a := xs ! b, b := xs ! a]"
  have in_range: "a < length xs" "b < length xs" "a < b" using Suc.prems by auto
  obtain ys where ys: "exchange_units n ?zs (a + 1) (b + 1) = Some ys"
      "mset ys = mset ?zs" "length ys = length xs"
      "\<forall>k < length xs. ys ! k =
        (if a + 1 \<le> k \<and> k < a + 1 + n then ?zs ! (b + 1 + (k - (a + 1)))
         else if b + 1 \<le> k \<and> k < b + 1 + n then ?zs ! (a + 1 + (k - (b + 1))) else ?zs ! k)"
    using Suc.IH [of "a + 1" "b + 1" ?zs] Suc.prems by auto
  have "ys ! k = (if a \<le> k \<and> k < a + Suc n then xs ! (b + (k - a))
        else if b \<le> k \<and> k < b + Suc n then xs ! (a + (k - b)) else xs ! k)"
    if k: "k < length xs" for k
  proof -
    consider "k = a" | "k = b" | "a < k" "k < a + Suc n" | "b < k" "k < b + Suc n"
      | "k < a \<or> (a + Suc n \<le> k \<and> k < b) \<or> b + Suc n \<le> k"
      by linarith
    then show ?thesis
    proof cases
      case 3
      then have "b + 1 + (k - (a + 1)) = b + (k - a)" by simp
      then show ?thesis using 3 ys(4) k Suc.prems in_range by (simp add: nth_list_update)
    next
      case 4
      then have "a + 1 + (k - (b + 1)) = a + (k - b)" by simp
      then show ?thesis using 4 ys(4) k Suc.prems in_range by (simp add: nth_list_update)
    qed (use ys(4) k Suc.prems in_range in \<open>auto simp: nth_list_update\<close>)
  qed
  moreover have "mset ys = mset xs" using ys(2) in_range by simp
  ultimately show ?case using ys(1,3) in_range by simp
qed

section \<open>The exchange functions on bytes\<close>

text \<open>A pointer into memory is an index; a 16-, 32- or 64-bit access reads and writes that
  many bytes.\<close>

definition swap_bytes_at :: "nat \<Rightarrow> u8 list \<Rightarrow> nat \<Rightarrow> nat \<Rightarrow> u8 list option" where
  "swap_bytes_at w mem a b =
     (if a + w \<le> length mem \<and> b + w \<le> length mem then
        (let t = take w (drop a mem); u = take w (drop b mem);
             mem1 = take a mem @ u @ drop (a + w) mem
         in Some (take b mem1 @ t @ drop (b + w) mem1))
      else None)"

fun exchange_loop :: "nat \<Rightarrow> nat \<Rightarrow> u8 list \<Rightarrow> nat \<Rightarrow> nat \<Rightarrow> u8 list option" where
  "exchange_loop w 0 mem a b = Some mem"
| "exchange_loop w (Suc n) mem a b = do {
     mem1 \<leftarrow> swap_bytes_at w mem a b;
     exchange_loop w n mem1 (a + w) (b + w)
   }"

definition exchange_bytes :: "u8 list \<Rightarrow> nat \<Rightarrow> nat \<Rightarrow> nat \<Rightarrow> u8 list option" where
  "exchange_bytes mem a b sz = exchange_loop 1 sz mem a b"

definition exchange_one_byte :: "u8 list \<Rightarrow> nat \<Rightarrow> nat \<Rightarrow> nat \<Rightarrow> u8 list option" where
  "exchange_one_byte mem a b sz = swap_bytes_at 1 mem a b"

definition exchange_int16s :: "u8 list \<Rightarrow> nat \<Rightarrow> nat \<Rightarrow> nat \<Rightarrow> u8 list option" where
  "exchange_int16s mem a b sz = exchange_loop 2 (sz div 2) mem a b"

definition exchange_one_int16 :: "u8 list \<Rightarrow> nat \<Rightarrow> nat \<Rightarrow> nat \<Rightarrow> u8 list option" where
  "exchange_one_int16 mem a b sz = swap_bytes_at 2 mem a b"

definition exchange_int32s :: "u8 list \<Rightarrow> nat \<Rightarrow> nat \<Rightarrow> nat \<Rightarrow> u8 list option" where
  "exchange_int32s mem a b sz = exchange_loop 4 (sz div 4) mem a b"

definition exchange_one_int32 :: "u8 list \<Rightarrow> nat \<Rightarrow> nat \<Rightarrow> nat \<Rightarrow> u8 list option" where
  "exchange_one_int32 mem a b sz = swap_bytes_at 4 mem a b"

definition exchange_int64s :: "u8 list \<Rightarrow> nat \<Rightarrow> nat \<Rightarrow> nat \<Rightarrow> u8 list option" where
  "exchange_int64s mem a b sz = exchange_loop 8 (sz div 8) mem a b"

definition exchange_one_int64 :: "u8 list \<Rightarrow> nat \<Rightarrow> nat \<Rightarrow> nat \<Rightarrow> u8 list option" where
  "exchange_one_int64 mem a b sz = swap_bytes_at 8 mem a b"

definition exchange_int128s :: "u8 list \<Rightarrow> nat \<Rightarrow> nat \<Rightarrow> nat \<Rightarrow> u8 list option" where
  "exchange_int128s mem a b sz = exchange_loop 16 (sz div 16) mem a b"

definition exchange_one_int128 :: "u8 list \<Rightarrow> nat \<Rightarrow> nat \<Rightarrow> nat \<Rightarrow> u8 list option" where
  "exchange_one_int128 mem a b sz = swap_bytes_at 16 mem a b"

definition exchange_func ::
    "u64 \<Rightarrow> u64 \<Rightarrow> (u8 list \<Rightarrow> nat \<Rightarrow> nat \<Rightarrow> nat \<Rightarrow> u8 list option)" where
  "exchange_func base sz = (let k = unat ((base OR sz) AND 15) in
     if k = 0 then (if sz = 16 then exchange_one_int128 else exchange_int128s)
     else if k = 8 then (if sz = 8 then exchange_one_int64 else exchange_int64s)
     else if k = 4 \<or> k = 12 then (if sz = 4 then exchange_one_int32 else exchange_int32s)
     else if k = 2 \<or> k = 6 \<or> k = 10 \<or> k = 14 then
       (if sz = 2 then exchange_one_int16 else exchange_int16s)
     else if sz = 1 then exchange_one_byte else exchange_bytes)"

text \<open>Exchanging disjoint ranges of \<open>n\<close> units of \<open>w\<close> bytes exchanges the ranges byte for
  byte, whatever the unit.\<close>

lemma swap_bytes_at_nth:
  assumes "a + w \<le> b" and "b + w \<le> length mem"
  obtains mem1 where "swap_bytes_at w mem a b = Some mem1" and "length mem1 = length mem"
    and "\<And>k. k < length mem \<Longrightarrow> mem1 ! k =
       (if a \<le> k \<and> k < a + w then mem ! (b + (k - a))
        else if b \<le> k \<and> k < b + w then mem ! (a + (k - b)) else mem ! k)"
proof -
  define t u m1 where "t = take w (drop a mem)" and "u = take w (drop b mem)"
    and "m1 = take a mem @ u @ drop (a + w) mem"
  define m2 where "m2 = take b m1 @ t @ drop (b + w) m1"
  have len: "length t = w" "length u = w" "length m1 = length mem"
    using assms by (simp_all add: t_def u_def m1_def)
  have m1: "m1 ! k = (if a \<le> k \<and> k < a + w then mem ! (b + (k - a)) else mem ! k)"
    if "k < length mem" for k
    using that assms len by (auto simp: m1_def nth_append u_def)
  have "m2 ! k = (if b \<le> k \<and> k < b + w then mem ! (a + (k - b)) else m1 ! k)"
    if "k < length mem" for k
    using that assms len by (auto simp: m2_def nth_append t_def)
  then have "m2 ! k = (if a \<le> k \<and> k < a + w then mem ! (b + (k - a))
        else if b \<le> k \<and> k < b + w then mem ! (a + (k - b)) else mem ! k)"
    if "k < length mem" for k
    using that m1 assms(1) by simp
  moreover have "length m2 = length mem" using len assms by (simp add: m2_def)
  moreover have "swap_bytes_at w mem a b = Some m2"
    using assms by (simp add: swap_bytes_at_def t_def u_def m1_def m2_def Let_def)
  ultimately show ?thesis using that by blast
qed

text \<open>The bytes \<open>[a, a+n)\<close> and \<open>[b, b+n)\<close> have changed places.\<close>

definition ranges_swapped :: "u8 list \<Rightarrow> u8 list \<Rightarrow> nat \<Rightarrow> nat \<Rightarrow> nat \<Rightarrow> bool" where
  "ranges_swapped mem mem1 a b n \<longleftrightarrow> length mem1 = length mem \<and>
     (\<forall>k < length mem. mem1 ! k =
       (if a \<le> k \<and> k < a + n then mem ! (b + (k - a))
        else if b \<le> k \<and> k < b + n then mem ! (a + (k - b)) else mem ! k))"

lemma swap_bytes_at_ranges:
  "a + w \<le> b \<Longrightarrow> b + w \<le> length mem \<Longrightarrow>
    \<exists>mem1. swap_bytes_at w mem a b = Some mem1 \<and> ranges_swapped mem mem1 a b w"
  by (rule swap_bytes_at_nth [of a w b mem]) (auto simp: ranges_swapped_def)

lemma ranges_swapped_trans:
  assumes "ranges_swapped mem mem1 a b v" and "ranges_swapped mem1 mem2 (a + v) (b + v) w"
    and "a + v + w \<le> b" and "b + v + w \<le> length mem"
  shows "ranges_swapped mem mem2 a b (v + w)"
proof -
  have "mem2 ! k = (if a \<le> k \<and> k < a + (v + w) then mem ! (b + (k - a))
        else if b \<le> k \<and> k < b + (v + w) then mem ! (a + (k - b)) else mem ! k)"
    if k: "k < length mem" for k
  proof -
    have m1: "mem1 ! i = (if a \<le> i \<and> i < a + v then mem ! (b + (i - a))
        else if b \<le> i \<and> i < b + v then mem ! (a + (i - b)) else mem ! i)"
      if "i < length mem" for i using assms(1) that by (simp add: ranges_swapped_def)
    have m2: "mem2 ! k = (if a + v \<le> k \<and> k < a + v + w then mem1 ! (b + v + (k - (a + v)))
        else if b + v \<le> k \<and> k < b + v + w then mem1 ! (a + v + (k - (b + v))) else mem1 ! k)"
      using assms(1,2) k by (simp add: ranges_swapped_def)
    consider "a + v \<le> k" "k < a + v + w" | "b + v \<le> k" "k < b + v + w"
      | "\<not> (a + v \<le> k \<and> k < a + v + w)" "\<not> (b + v \<le> k \<and> k < b + v + w)" by linarith
    then show ?thesis
    proof cases
      case 1
      then obtain d where d: "k = a + v + d" "d < w" by (metis add_less_cancel_left le_iff_add)
      then have "mem2 ! k = mem1 ! (b + v + d)" using m2 by simp
      also have "\<dots> = mem ! (b + v + d)" using m1 [of "b + v + d"] d assms(3,4) by simp
      finally show ?thesis using d by (simp add: add.assoc)
    next
      case 2
      then obtain d where d: "k = b + v + d" "d < w" by (metis add_less_cancel_left le_iff_add)
      then have "mem2 ! k = mem1 ! (a + v + d)" using m2 assms(3) by simp
      also have "\<dots> = mem ! (a + v + d)" using m1 [of "a + v + d"] d assms(3,4) by simp
      finally show ?thesis using d assms(3) by (simp add: add.assoc)
    next
      case 3
      then show ?thesis using m1 [OF k] m2 assms(3) by auto
    qed
  qed
  then show ?thesis using assms(1,2) by (simp add: ranges_swapped_def)
qed

lemma exchange_loop_ranges:
  assumes "a + n * w \<le> b" and "b + n * w \<le> length mem"
  shows "\<exists>mem1. exchange_loop w n mem a b = Some mem1 \<and> ranges_swapped mem mem1 a b (n * w)"
  using assms
proof (induction n arbitrary: mem a b)
  case 0
  then show ?case by (auto simp: ranges_swapped_def)
next
  case (Suc n)
  obtain mem1 where m1: "swap_bytes_at w mem a b = Some mem1" "ranges_swapped mem mem1 a b w"
    using swap_bytes_at_ranges [of a w b mem] Suc.prems by auto
  then have "length mem1 = length mem" by (simp add: ranges_swapped_def)
  then obtain mem2 where "exchange_loop w n mem1 (a + w) (b + w) = Some mem2"
      "ranges_swapped mem1 mem2 (a + w) (b + w) (n * w)"
    using Suc.IH [of "a + w" "b + w" mem1] Suc.prems by auto
  then show ?case
    using m1 ranges_swapped_trans [OF m1(2), of mem2 "n * w"] Suc.prems by auto
qed

text \<open>The same for the ranges in the other order, and for a range and itself.\<close>

lemma swap_bytes_at_commute:
  assumes "a + w \<le> b" and "b + w \<le> length mem"
  shows "swap_bytes_at w mem b a = swap_bytes_at w mem a b"
proof -
  define t u where "t = take w (drop a mem)" and "u = take w (drop b mem)"
  have len: "length t = w" "length u = w" using assms by (simp_all add: t_def u_def)
  have "mem = take a mem @ t @ take (b - (a + w)) (drop (a + w) mem) @ u @ drop (b + w) mem"
    (is "_ = ?p @ t @ ?m @ u @ ?q")
    using assms by (metis (no_types, lifting) append_take_drop_id drop_drop add.commute
      le_add_diff_inverse2 t_def u_def)
  then obtain p m q where mem: "mem = p @ t @ m @ u @ q" "length p = a" "length m = b - (a + w)"
    using assms by (metis (no_types, lifting) length_take length_drop min.absorb2 le_diff_conv2
        add_leD1 diff_le_mono le_trans)
  then have b: "b = length p + w + length m" using assms(1) by simp
  show ?thesis
    unfolding swap_bytes_at_def Let_def mem(1) b using mem(2) len by simp
qed

lemma swap_bytes_at_same: "a + w \<le> length mem \<Longrightarrow> swap_bytes_at w mem a a = Some mem"
  by (simp add: swap_bytes_at_def Let_def add.commute [of a] flip: drop_drop)

lemma exchange_loop_commute:
  "a + n * w \<le> b \<Longrightarrow> b + n * w \<le> length mem \<Longrightarrow>
    exchange_loop w n mem b a = exchange_loop w n mem a b"
proof (induction n arbitrary: mem a b)
  case (Suc n)
  obtain mem1 where m1: "swap_bytes_at w mem a b = Some mem1" "ranges_swapped mem mem1 a b w"
    using swap_bytes_at_ranges [of a w b mem] Suc.prems by auto
  then have "length mem1 = length mem" by (simp add: ranges_swapped_def)
  then have "exchange_loop w n mem1 (b + w) (a + w) = exchange_loop w n mem1 (a + w) (b + w)"
    using Suc.prems by (intro Suc.IH) auto
  then show ?case using m1(1) Suc.prems by (simp add: swap_bytes_at_commute)
qed simp

lemma exchange_loop_same: "a + n * w \<le> length mem \<Longrightarrow> exchange_loop w n mem a a = Some mem"
  by (induction n arbitrary: a) (simp_all add: swap_bytes_at_same)

lemma ranges_swapped_commute:
  "a + n \<le> b \<Longrightarrow> ranges_swapped mem mem1 b a n = ranges_swapped mem mem1 a b n"
  by (fastforce simp: ranges_swapped_def)

lemma ranges_swapped_same: "ranges_swapped mem mem a a n"
  by (simp add: ranges_swapped_def)

lemmas exchange_defs = exchange_bytes_def exchange_one_byte_def exchange_int16s_def
  exchange_one_int16_def exchange_int32s_def exchange_one_int32_def exchange_int64s_def
  exchange_one_int64_def exchange_int128s_def exchange_one_int128_def

text \<open>The unit that the dispatch settles on divides the size of an element.\<close>

lemma low_bits_dvd:
  fixes base sz :: u64
  assumes "unat ((base OR sz) AND 15) mod 2 ^ j = 0" and "j \<le> 4"
  shows "2 ^ j dvd unat sz"
proof -
  have "unat ((base OR sz) AND 15) = take_bit 4 (unat base OR unat sz)"
    by (simp add: unsigned_and_eq unsigned_or_eq take_bit_eq_mask mask_eq_exp_minus_1)
  then have "take_bit j (take_bit 4 (unat base OR unat sz)) = 0"
    using assms(1) by (simp only: take_bit_eq_mod [of j])
  then have "take_bit j (unat base OR unat sz) = 0"
    by (simp only: take_bit_take_bit min.absorb1 [OF assms(2)])
  then have "take_bit j (unat sz) = 0"
    by (simp add: take_bit_or) (metis or_eq_0_iff)
  then show ?thesis by (simp add: take_bit_eq_mod mod_eq_0_iff_dvd)
qed

text \<open>Both shapes of an exchange routine exchange ranges, in either order.\<close>

lemma exchange_loop_swaps:
  assumes "a + n * w \<le> b \<or> b + n * w \<le> a \<or> a = b"
    and "a + n * w \<le> length mem" and "b + n * w \<le> length mem"
  shows "\<exists>mem1. exchange_loop w n mem a b = Some mem1 \<and> ranges_swapped mem mem1 a b (n * w)"
  using assms exchange_loop_ranges [of a n w b mem] exchange_loop_ranges [of b n w a mem]
    exchange_loop_commute [of b n w a mem] exchange_loop_same [of a n w mem]
    ranges_swapped_same [of mem a "n * w"] ranges_swapped_commute [of b "n * w" a mem]
  by auto

lemma swap_bytes_at_swaps:
  assumes "a + w \<le> b \<or> b + w \<le> a \<or> a = b" and "a + w \<le> length mem" and "b + w \<le> length mem"
  shows "\<exists>mem1. swap_bytes_at w mem a b = Some mem1 \<and> ranges_swapped mem mem1 a b w"
  using assms exchange_loop_swaps [of a 1 w b mem] by (auto split: option.splits)

lemma exchange_func_unit:
  fixes base sz :: u64
  assumes "sz \<noteq> 0"
  obtains w where "0 < w" and "w dvd unat sz"
    and "exchange_func base sz = (\<lambda>mem a b n. exchange_loop w (n div w) mem a b) \<or>
         unat sz = w \<and> exchange_func base sz = (\<lambda>mem a b n. swap_bytes_at w mem a b)"
proof -
  let ?k = "unat ((base OR sz) AND 15)"
  have lit: "sz = 16 \<Longrightarrow> unat sz = 16" "sz = 8 \<Longrightarrow> unat sz = 8" "sz = 4 \<Longrightarrow> unat sz = 4"
    "sz = 2 \<Longrightarrow> unat sz = 2" "sz = 1 \<Longrightarrow> unat sz = 1" by simp_all
  consider "?k = 0" | "?k = 8" | "?k = 4 \<or> ?k = 12" | "?k = 2 \<or> ?k = 6 \<or> ?k = 10 \<or> ?k = 14"
    | "?k \<noteq> 0" "?k \<noteq> 8" "\<not> (?k = 4 \<or> ?k = 12)" "\<not> (?k = 2 \<or> ?k = 6 \<or> ?k = 10 \<or> ?k = 14)"
    by blast
  then show ?thesis
  proof cases
    case 1
    then have "16 dvd unat sz" using low_bits_dvd [of base sz 4] by simp
    then show ?thesis using 1 lit that [of 16]
      by (simp add: exchange_func_def exchange_defs fun_eq_iff Let_def)
  next
    case 2
    then have "8 dvd unat sz" using low_bits_dvd [of base sz 3] by simp
    then show ?thesis using 2 lit that [of 8]
      by (simp add: exchange_func_def exchange_defs fun_eq_iff Let_def)
  next
    case 3
    then have "4 dvd unat sz" using low_bits_dvd [of base sz 2] by auto
    then show ?thesis using 3 lit that [of 4]
      by (auto simp add: exchange_func_def exchange_defs fun_eq_iff Let_def)
  next
    case 4
    then have "2 dvd unat sz" using low_bits_dvd [of base sz 1] by auto
    then show ?thesis using 4 lit that [of 2]
      by (auto simp add: exchange_func_def exchange_defs fun_eq_iff Let_def)
  next
    case 5
    then show ?thesis using lit that [of 1]
      by (simp add: exchange_func_def exchange_defs fun_eq_iff Let_def)
  qed
qed

end
