(* ===== verification/Heap_Sort.thy ===== *)
theory Heap_Sort
  imports Array_Swap
begin

text \<open>
  The heap sort \<^verbatim>\<open>heapsortx\<close> of \<^verbatim>\<open>cutils.c\<close>, on arrays of elements: a pointer into the array,
  divided by the element size, is an index. The comparison function is a parameter; what a
  sorting client promises of it is the locale \<open>comparator\<close>.
\<close>

section \<open>The code\<close>

type_synonym 'a cmp = "'a \<Rightarrow> 'a \<Rightarrow> int"

text \<open>The \<^verbatim>\<open>for\<close> loop that moves the element at \<open>r\<close> down, shared by the two phases.\<close>

function sift_down :: "'a cmp \<Rightarrow> 'a list \<Rightarrow> nat \<Rightarrow> nat \<Rightarrow> 'a list option" where
  "sift_down cmp xs n r =
     (let c0 = r * 2 + 1 in
      if c0 < n then do {
        c \<leftarrow> (if c0 < n - 1 then do {
                x \<leftarrow> rd xs c0;
                y \<leftarrow> rd xs (c0 + 1);
                Some (if cmp x y \<le> 0 then c0 + 1 else c0)
              } else Some c0);
        x \<leftarrow> rd xs r;
        y \<leftarrow> rd xs c;
        if cmp x y > 0 then Some xs
        else do {
          ys \<leftarrow> swap_el xs r c;
          sift_down cmp ys n c
        }
      } else Some xs)"
  by pat_completeness auto
termination
  by (relation "measure (\<lambda>(cmp, xs, n, r). n - r)")
    (auto split: if_splits bind_splits)

declare sift_down.simps [simp del]

text \<open>The first loop makes a heap, from the last parent down to the root.\<close>

fun heapify :: "'a cmp \<Rightarrow> 'a list \<Rightarrow> nat \<Rightarrow> nat \<Rightarrow> 'a list option" where
  "heapify cmp xs n 0 = Some xs"
| "heapify cmp xs n (Suc i) = do {
     ys \<leftarrow> sift_down cmp xs n i;
     heapify cmp ys n i
   }"

text \<open>The second loop takes the largest element off, \<open>i\<close> counting down.\<close>

fun heap_extract :: "'a cmp \<Rightarrow> 'a list \<Rightarrow> nat \<Rightarrow> 'a list option" where
  "heap_extract cmp xs 0 = Some xs"
| "heap_extract cmp xs (Suc i) = do {
     ys \<leftarrow> swap_el xs 0 (Suc i);
     zs \<leftarrow> sift_down cmp ys (Suc i) 0;
     heap_extract cmp zs i
   }"

definition heapsortx :: "'a cmp \<Rightarrow> 'a list \<Rightarrow> nat \<Rightarrow> 'a list option" where
  "heapsortx cmp xs nmemb =
     (if nmemb > 1 then do {
        ys \<leftarrow> heapify cmp xs nmemb (nmemb div 2);
        heap_extract cmp ys (nmemb - 1)
      } else Some xs)"

section \<open>What a comparison function promises\<close>

locale comparator =
  fixes cmp :: "'a cmp"
  assumes cmp_antisym: "cmp x y < 0 \<longleftrightarrow> cmp y x > 0"
    and cmp_trans: "cmp x y \<le> 0 \<Longrightarrow> cmp y z \<le> 0 \<Longrightarrow> cmp x z \<le> 0"
begin

lemma cmp_total: "cmp x y \<le> 0 \<or> cmp y x \<le> 0"
  using cmp_antisym [of x y] cmp_antisym [of y x] by linarith

lemma cmp_refl [simp]: "cmp x x = 0"
  using cmp_antisym [of x x] by linarith

lemma cmp_gt: "cmp x y > 0 \<Longrightarrow> cmp y x \<le> 0"
  using cmp_antisym [of y x] by linarith

lemma cmp_eq: "cmp x y = 0 \<Longrightarrow> cmp y x \<le> 0"
  using cmp_antisym [of x y] by linarith

lemma cmp_not_gt: "\<not> cmp x y > 0 \<Longrightarrow> cmp x y \<le> 0"
  by linarith

end

section \<open>Safety, for any comparison function\<close>

lemma sift_down_safe:
  "n \<le> length xs \<Longrightarrow> r < n \<or> n = 0 \<Longrightarrow>
    \<exists>ys. sift_down cmp xs n r = Some ys \<and> length ys = length xs \<and> mset ys = mset xs \<and>
      (\<forall>k. n \<le> k \<longrightarrow> ys ! k = xs ! k)"
proof (induction "n - r" arbitrary: xs r rule: less_induct)
  case less
  let ?c0 = "r * 2 + 1"
  show ?case
  proof (cases "?c0 < n")
    case False
    then show ?thesis by (simp add: sift_down.simps [of cmp xs n r])
  next
    case True
    define c where "c = (if ?c0 < n - 1 \<and> cmp (xs ! ?c0) (xs ! (?c0 + 1)) \<le> 0 then ?c0 + 1 else ?c0)"
    have c: "c < n" "r < c" using True by (auto simp: c_def)
    have unfold: "sift_down cmp xs n r = (if cmp (xs ! r) (xs ! c) > 0 then Some xs
        else sift_down cmp (xs[r := xs ! c, c := xs ! r]) n c)"
      using True less.prems c by (auto simp: sift_down.simps [of cmp xs n r] c_def Let_def rd_in)
    let ?ys = "xs[r := xs ! c, c := xs ! r]"
    obtain zs where "sift_down cmp ?ys n c = Some zs" "length zs = length ?ys"
        "mset zs = mset ?ys" "\<forall>k. n \<le> k \<longrightarrow> zs ! k = ?ys ! k"
      using less.hyps [of c ?ys] less.prems c by (auto simp: diff_less_mono2)
    then show ?thesis using unfold c less.prems by (auto simp: nth_list_update)
  qed
qed

lemma heapify_safe:
  "n \<le> length xs \<Longrightarrow> i \<le> n \<Longrightarrow>
    \<exists>ys. heapify cmp xs n i = Some ys \<and> length ys = length xs \<and> mset ys = mset xs"
proof (induction i arbitrary: xs)
  case 0
  then show ?case by simp
next
  case (Suc i)
  obtain ys where "sift_down cmp xs n i = Some ys" "length ys = length xs" "mset ys = mset xs"
    using sift_down_safe [of n xs i cmp] Suc.prems by auto
  then show ?case using Suc.IH [of ys] Suc.prems by auto
qed

lemma heap_extract_safe:
  "i < length xs \<Longrightarrow>
    \<exists>ys. heap_extract cmp xs i = Some ys \<and> length ys = length xs \<and> mset ys = mset xs"
proof (induction i arbitrary: xs)
  case 0
  then show ?case by simp
next
  case (Suc i)
  let ?ys = "xs[0 := xs ! Suc i, Suc i := xs ! 0]"
  have z: "0 < length xs" using Suc.prems by linarith
  have sw: "swap_el xs 0 (Suc i) = Some ?ys" "mset ?ys = mset xs"
    using swap_el_in [OF z Suc.prems] mset_swap [OF z Suc.prems] by auto
  obtain zs where "sift_down cmp ?ys (Suc i) 0 = Some zs" "length zs = length ?ys" "mset zs = mset ?ys"
    using sift_down_safe [of "Suc i" ?ys 0 cmp] Suc.prems by auto
  then show ?case using Suc.IH [of zs] Suc.prems sw by auto
qed

lemma heapsortx_safe:
  "\<exists>ys. heapsortx cmp xs (length xs) = Some ys \<and> length ys = length xs \<and> mset ys = mset xs"
proof (cases "length xs > 1")
  case False
  then show ?thesis by (simp add: heapsortx_def)
next
  case True
  obtain ys where ys: "heapify cmp xs (length xs) (length xs div 2) = Some ys"
      "length ys = length xs" "mset ys = mset xs"
    using heapify_safe [of "length xs" xs "length xs div 2" cmp] by auto
  then show ?thesis using True heap_extract_safe [of "length xs - 1" ys cmp]
    by (auto simp: heapsortx_def)
qed

section \<open>Sorting, for a lawful comparison function\<close>

context comparator
begin

definition heap_from :: "nat \<Rightarrow> 'a list \<Rightarrow> nat \<Rightarrow> bool" where
  "heap_from k xs n \<longleftrightarrow> (\<forall>j. 0 < j \<and> j < n \<and> k \<le> (j - 1) div 2 \<longrightarrow>
     cmp (xs ! j) (xs ! ((j - 1) div 2)) \<le> 0)"

text \<open>A heap but for the element at \<open>r\<close>, which may be smaller than its children; the children
  are not above the parent of \<open>r\<close>.\<close>

definition heap_but :: "nat \<Rightarrow> nat \<Rightarrow> 'a list \<Rightarrow> nat \<Rightarrow> bool" where
  "heap_but k r xs n \<longleftrightarrow> (\<forall>j. 0 < j \<and> j < n \<and> k \<le> (j - 1) div 2 \<and> (j - 1) div 2 \<noteq> r \<longrightarrow>
       cmp (xs ! j) (xs ! ((j - 1) div 2)) \<le> 0) \<and>
     (\<forall>j. 0 < j \<and> j < n \<and> (j - 1) div 2 = r \<and> 0 < r \<and> k \<le> (r - 1) div 2 \<longrightarrow>
       cmp (xs ! j) (xs ! ((r - 1) div 2)) \<le> 0)"

lemma children: "0 < j \<Longrightarrow> (j - 1) div 2 = r \<longleftrightarrow> j = 2 * r + 1 \<or> j = 2 * r + (2::nat)"
  by auto

lemma heap_but_done:
  assumes "heap_but k r xs n"
    and "\<And>j. 0 < j \<Longrightarrow> j < n \<Longrightarrow> (j - 1) div 2 = r \<Longrightarrow> cmp (xs ! j) (xs ! r) \<le> 0"
  shows "heap_from k xs n"
  using assms unfolding heap_but_def heap_from_def by metis

lemma heap_but_step:
  assumes hb: "heap_but k r xs n" and rc: "(c - 1) div 2 = r" "0 < c" "c < n" "n \<le> length xs"
    and k: "k \<le> r"
    and swap: "cmp (xs ! r) (xs ! c) \<le> 0"
    and big: "\<And>j. 0 < j \<Longrightarrow> j < n \<Longrightarrow> (j - 1) div 2 = r \<Longrightarrow> cmp (xs ! j) (xs ! c) \<le> 0"
  shows "heap_but k c (xs[r := xs ! c, c := xs ! r]) n" (is "heap_but k c ?ys n")
proof -
  have r: "r < c" "r < length xs" "c < length xs" using rc by auto
  have nth: "?ys ! j = (if j = c then xs ! r else if j = r then xs ! c else xs ! j)"
    if "j < n" for j using that r rc(4) by (auto simp: nth_list_update)
  have hb1: "cmp (xs ! j) (xs ! ((j - 1) div 2)) \<le> 0"
    if "0 < j" "j < n" "k \<le> (j - 1) div 2" "(j - 1) div 2 \<noteq> r" for j
    using hb [unfolded heap_but_def, THEN conjunct1, rule_format, of j] that by simp
  have A: "cmp (?ys ! j) (?ys ! ((j - 1) div 2)) \<le> 0"
    if j: "0 < j" "j < n" "k \<le> (j - 1) div 2" "(j - 1) div 2 \<noteq> c" for j
  proof -
    let ?p = "(j - 1) div 2"
    have p: "?p < j" "?p < n" using j by auto
    consider "j = r" | "j = c" | "j \<noteq> r" "j \<noteq> c" "?p = r" | "j \<noteq> r" "j \<noteq> c" "?p \<noteq> r" by blast
    then show ?thesis
    proof cases
      case 1
      then have "cmp (xs ! c) (xs ! ?p) \<le> 0"
        using conjunct2 [OF hb [unfolded heap_but_def], rule_format, of c] rc(1,2,3) j(1,3) 1 by simp
      moreover have "?p \<noteq> c" "?p \<noteq> r" using 1 r p by auto
      ultimately show ?thesis using 1 r nth [OF j(2)] nth [OF p(2)] by simp
    next
      case 2
      then show ?thesis using nth [OF j(2)] nth [OF p(2)] rc swap r by simp
    next
      case 3
      then show ?thesis using nth [OF j(2)] nth [OF p(2)] big [OF j(1,2)] r by simp
    next
      case 4
      have "cmp (xs ! j) (xs ! ?p) \<le> 0" using hb1 [OF j(1,2,3)] 4 by simp
      then show ?thesis unfolding nth [OF j(2)] nth [OF p(2)] using 4 j(4) by (simp only: if_False)
    qed
  qed
  have B: "cmp (?ys ! j) (?ys ! ((c - 1) div 2)) \<le> 0"
    if j: "0 < j" "j < n" "(j - 1) div 2 = c" for j
  proof -
    have "c < j" using j by auto
    moreover have "k \<le> (j - 1) div 2" "(j - 1) div 2 \<noteq> r" using j(3) r k by auto
    then have "cmp (xs ! j) (xs ! ((j - 1) div 2)) \<le> 0" by (rule hb1 [OF j(1,2)])
    ultimately show ?thesis using nth [OF j(2)] nth [of r] rc r j(3) by simp
  qed
  show ?thesis
    unfolding heap_but_def
  proof (intro conjI allI impI)
    fix j assume "0 < j \<and> j < n \<and> k \<le> (j - 1) div 2 \<and> (j - 1) div 2 \<noteq> c"
    then show "cmp (?ys ! j) (?ys ! ((j - 1) div 2)) \<le> 0" by (intro A) auto
  next
    fix j assume "0 < j \<and> j < n \<and> (j - 1) div 2 = c \<and> 0 < c \<and> k \<le> (c - 1) div 2"
    then show "cmp (?ys ! j) (?ys ! ((c - 1) div 2)) \<le> 0" by (intro B) auto
  qed
qed

lemma sift_down_heap:
  "n \<le> length xs \<Longrightarrow> r < n \<Longrightarrow> k \<le> r \<Longrightarrow> heap_but k r xs n \<Longrightarrow>
    \<exists>ys. sift_down cmp xs n r = Some ys \<and> heap_from k ys n"
proof (induction "n - r" arbitrary: xs r rule: less_induct)
  case less
  let ?c0 = "r * 2 + 1"
  show ?case
  proof (cases "?c0 < n")
    case False
    then have "heap_from k xs n"
      using less.prems(4) by (intro heap_but_done) (auto simp: children)
    then show ?thesis using False by (simp add: sift_down.simps [of cmp xs n r])
  next
    case True
    define c where "c = (if ?c0 < n - 1 \<and> cmp (xs ! ?c0) (xs ! (?c0 + 1)) \<le> 0 then ?c0 + 1 else ?c0)"
    have c: "c < n" "r < c" "(c - 1) div 2 = r" "0 < c" using True by (auto simp: c_def)
    have unfold: "sift_down cmp xs n r = (if cmp (xs ! r) (xs ! c) > 0 then Some xs
        else sift_down cmp (xs[r := xs ! c, c := xs ! r]) n c)"
      using True less.prems c by (auto simp: sift_down.simps [of cmp xs n r] c_def Let_def rd_in)
    have big: "cmp (xs ! j) (xs ! c) \<le> 0" if "0 < j" "j < n" "(j - 1) div 2 = r" for j
    proof -
      have "j = ?c0 \<or> j = ?c0 + 1" using that children [of j r] by auto
      then show ?thesis using that(2) cmp_gt unfolding c_def by (auto simp: not_le)
    qed
    show ?thesis
    proof (cases "cmp (xs ! r) (xs ! c) > 0")
      case True
      then have "heap_from k xs n"
        using less.prems(4) big cmp_trans [OF _ cmp_gt [OF True]] by (intro heap_but_done) auto
      then show ?thesis using True unfold by simp
    next
      case False
      have "heap_but k c (xs[r := xs ! c, c := xs ! r]) n"
        using less.prems c big False by (intro heap_but_step) auto
      then show ?thesis using less.hyps [of c "xs[r := xs ! c, c := xs ! r]"] less.prems c False unfold
        by auto
    qed
  qed
qed

lemma heapify_heap:
  "n \<le> length xs \<Longrightarrow> i \<le> n \<Longrightarrow> heap_from i xs n \<Longrightarrow>
    \<exists>ys. heapify cmp xs n i = Some ys \<and> heap_from 0 ys n"
proof (induction i arbitrary: xs)
  case 0
  then show ?case by simp
next
  case (Suc i)
  have "heap_but i i xs n"
    unfolding heap_but_def
  proof (intro conjI allI impI)
    fix j assume "0 < j \<and> j < n \<and> i \<le> (j - 1) div 2 \<and> (j - 1) div 2 \<noteq> i"
    then show "cmp (xs ! j) (xs ! ((j - 1) div 2)) \<le> 0"
      using Suc.prems(3) unfolding heap_from_def by auto
  qed auto
  then obtain ys where ys: "sift_down cmp xs n i = Some ys" "heap_from i ys n"
    using sift_down_heap [of n xs i i] Suc.prems by auto
  moreover have "length ys = length xs"
    using sift_down_safe [of n xs i cmp] Suc.prems ys(1) by auto
  ultimately show ?case using Suc.IH [of ys] Suc.prems by auto
qed

lemma heap_top:
  assumes "heap_from 0 xs n" and "j < n"
  shows "cmp (xs ! j) (xs ! 0) \<le> 0"
  using assms(2)
proof (induction j rule: less_induct)
  case (less j)
  show ?case
  proof (cases "j = 0")
    case True
    then show ?thesis by simp
  next
    case False
    then have "cmp (xs ! j) (xs ! ((j - 1) div 2)) \<le> 0"
      using assms(1) less.prems by (simp add: heap_from_def)
    moreover have "cmp (xs ! ((j - 1) div 2)) (xs ! 0) \<le> 0"
      using less.IH [of "(j - 1) div 2"] less.prems False by simp
    ultimately show ?thesis by (rule cmp_trans)
  qed
qed

text \<open>The array while elements are taken off: a heap up to \<open>i\<close>, and from there on sorted and
  above the heap.\<close>

definition extracting :: "'a list \<Rightarrow> nat \<Rightarrow> bool" where
  "extracting xs i \<longleftrightarrow> heap_from 0 xs (Suc i) \<and>
     (\<forall>j k. j \<le> k \<and> i < k \<and> k < length xs \<longrightarrow> cmp (xs ! j) (xs ! k) \<le> 0)"

lemma sift_down_keeps_above:
  assumes "sift_down cmp xs n 0 = Some ys" "n \<le> length xs" "0 < n"
    and "\<forall>j < n. cmp (xs ! j) z \<le> 0" and "j < n"
  shows "cmp (ys ! j) z \<le> 0"
proof -
  have ys: "length ys = length xs" "mset ys = mset xs" "\<forall>k. n \<le> k \<longrightarrow> ys ! k = xs ! k"
    using sift_down_safe [of n xs 0 cmp] assms(1-3) by auto
  then have "drop n ys = drop n xs" by (intro nth_equalityI) auto
  then have "mset (take n ys) = mset (take n xs)"
    using ys(2) by (metis add_right_cancel append_take_drop_id mset_append)
  moreover have "ys ! j \<in> set (take n ys)" using assms(2,5) ys(1) by (auto simp: in_set_conv_nth)
  ultimately have "ys ! j \<in> set (take n xs)" by (metis set_mset_mset)
  then obtain i where "i < n" "ys ! j = xs ! i" by (auto simp: in_set_conv_nth)
  then show ?thesis using assms(4) by simp
qed

lemma extracting_step:
  assumes ex: "extracting xs (Suc i)" and len: "Suc i < length xs"
    and sift: "sift_down cmp (xs[0 := xs ! Suc i, Suc i := xs ! 0]) (Suc i) 0 = Some zs"
  shows "extracting zs i \<and> length zs = length xs"
proof -
  let ?ys = "xs[0 := xs ! Suc i, Suc i := xs ! 0]"
  have l: "length zs = length xs" and above: "\<forall>k. Suc i \<le> k \<longrightarrow> zs ! k = ?ys ! k"
    using sift_down_safe [of "Suc i" ?ys 0 cmp] sift len by auto
  have nth: "?ys ! j = (if j = Suc i then xs ! 0 else if j = 0 then xs ! Suc i else xs ! j)"
    if "j < length xs" for j using that by (auto simp: nth_list_update)
  have heap: "heap_from 0 xs (Suc (Suc i))" using ex by (simp add: extracting_def)
  have "heap_but 0 0 ?ys (Suc i)"
    unfolding heap_but_def
  proof (intro conjI allI impI)
    fix j assume j: "0 < j \<and> j < Suc i \<and> 0 \<le> (j - 1) div 2 \<and> (j - 1) div 2 \<noteq> 0"
    then have "cmp (xs ! j) (xs ! ((j - 1) div 2)) \<le> 0" using heap by (simp add: heap_from_def)
    moreover have "(j - 1) div 2 < length xs" "(j - 1) div 2 \<noteq> Suc i" "j \<noteq> Suc i" "j < length xs"
      using j len by auto
    ultimately show "cmp (?ys ! j) (?ys ! ((j - 1) div 2)) \<le> 0"
      using j nth [of j] nth [of "(j - 1) div 2"] by simp
  qed auto
  then have "heap_from 0 zs (Suc i)"
    using sift_down_heap [of "Suc i" ?ys 0 0] sift len by auto
  moreover have "cmp (zs ! j) (zs ! k) \<le> 0" if jk: "j \<le> k" "i < k" "k < length zs" for j k
  proof (cases "j \<le> i")
    case True
    have "\<forall>j' < Suc i. cmp (?ys ! j') (?ys ! k) \<le> 0"
    proof (intro allI impI)
      fix j' assume "j' < Suc i"
      then have j': "j' < length xs" "j' \<noteq> Suc i" "j' < Suc (Suc i)" using len by auto
      have k: "k < length xs" "k \<noteq> 0" using jk l by auto
      have "cmp (xs ! (if j' = 0 then Suc i else j')) (xs ! (if k = Suc i then 0 else k)) \<le> 0"
      proof (cases "k = Suc i")
        case True
        then show ?thesis using heap_top [OF heap, of "Suc i"] heap_top [OF heap, of j'] j' by auto
      next
        case False
        then show ?thesis using ex jk(2) k j' unfolding extracting_def by auto
      qed
      then show "cmp (?ys ! j') (?ys ! k) \<le> 0" unfolding nth [OF j'(1)] nth [OF k(1)]
        using j'(2) k(2) by (simp split: if_splits)
    qed
    then have "cmp (zs ! j) (?ys ! k) \<le> 0"
      using sift_down_keeps_above [OF sift _ _ _, of "?ys ! k" j] True len by simp
    then show ?thesis using above jk by simp
  next
    case False
    then have "cmp (?ys ! j) (?ys ! k) \<le> 0"
      using ex jk l len unfolding extracting_def by (auto simp: nth)
    then show ?thesis using above jk False by simp
  qed
  ultimately show ?thesis using l by (simp add: extracting_def)
qed

lemma heap_extract_sorts:
  "i < length xs \<Longrightarrow> extracting xs i \<Longrightarrow>
    \<exists>ys. heap_extract cmp xs i = Some ys \<and> extracting ys 0 \<and> length ys = length xs"
proof (induction i arbitrary: xs)
  case 0
  then show ?case by simp
next
  case (Suc i)
  let ?ys = "xs[0 := xs ! Suc i, Suc i := xs ! 0]"
  have z: "0 < length xs" using Suc.prems(1) by linarith
  have sw: "swap_el xs 0 (Suc i) = Some ?ys" using swap_el_in [OF z Suc.prems(1)] by simp
  obtain zs where zs: "sift_down cmp ?ys (Suc i) 0 = Some zs"
    using sift_down_safe [of "Suc i" ?ys 0 cmp] Suc.prems by auto
  then show ?case
    using extracting_step [OF Suc.prems(2,1) zs] Suc.IH [of zs] Suc.prems sw by auto
qed

lemma heapsortx_sorts:
  "\<exists>ys. heapsortx cmp xs (length xs) = Some ys \<and> mset ys = mset xs \<and>
     sorted_wrt (\<lambda>x y. cmp x y \<le> 0) ys"
proof (cases "length xs > 1")
  case False
  then have "sorted_wrt (\<lambda>x y. cmp x y \<le> 0) xs" by (cases xs; cases "tl xs") auto
  then show ?thesis using False by (simp add: heapsortx_def)
next
  case True
  have "heap_from (length xs div 2) xs (length xs)" by (auto simp: heap_from_def)
  then obtain ys where ys: "heapify cmp xs (length xs) (length xs div 2) = Some ys"
      "heap_from 0 ys (length xs)"
    using heapify_heap [of "length xs" xs "length xs div 2"] by auto
  have len: "length ys = length xs"
    using heapify_safe [of "length xs" xs "length xs div 2" cmp] ys(1) by auto
  moreover have "Suc (length xs - 1) = length xs" using True by simp
  ultimately have "extracting ys (length xs - 1)" using ys(2) by (simp add: extracting_def)
  then obtain zs where zs: "heap_extract cmp ys (length xs - 1) = Some zs" "extracting zs 0"
      "length zs = length xs"
    using heap_extract_sorts [of "length xs - 1" ys] True len by force
  have "sorted_wrt (\<lambda>x y. cmp x y \<le> 0) zs"
    using zs(2) unfolding extracting_def sorted_wrt_iff_nth_less by auto
  moreover have "heapsortx cmp xs (length xs) = Some zs" using True ys(1) zs(1) by (simp add: heapsortx_def)
  moreover have "mset zs = mset xs" using heapsortx_safe [of cmp xs] calculation(2) by auto
  ultimately show ?thesis by blast
qed

end

end
