(* ===== verification/Rq_Sort.thy ===== *)
theory Rq_Sort
  imports Heap_Sort
begin

text \<open>
  The sorting function \<^verbatim>\<open>rqsort\<close> of QuickJS's \<^verbatim>\<open>cutils.c\<close>: a quick sort with a three-way
  partition, an explicit stack of 50 segments, heap sort when a segment is cut too often, and
  insertion sort for at most six elements. The loops are partial functions, and an access
  outside the segment or a push onto a full stack is \<^const>\<open>None\<close>.
\<close>

section \<open>Partitioning a segment\<close>

definition med3 :: "'a cmp \<Rightarrow> 'a list \<Rightarrow> nat \<Rightarrow> nat \<Rightarrow> nat \<Rightarrow> nat option" where
  "med3 cmp xs a b c = do {
     x \<leftarrow> rd xs a;
     y \<leftarrow> rd xs b;
     z \<leftarrow> rd xs c;
     Some (if cmp x y < 0
           then (if cmp y z < 0 then b else if cmp x z < 0 then c else a)
           else (if cmp y z > 0 then b else if cmp x z < 0 then a else c))
   }"

text \<open>The two inner loops. The pivot is element 0; elements equal to it are collected at both
  ends.\<close>

function scan_up :: "'a cmp \<Rightarrow> 'a list \<Rightarrow> nat \<Rightarrow> nat \<Rightarrow> nat \<Rightarrow> ('a list \<times> nat \<times> nat) option" where
  "scan_up cmp xs lt i j =
     (if i < j then do {
        p \<leftarrow> rd xs 0;
        x \<leftarrow> rd xs i;
        if cmp p x \<ge> 0 then do {
          (ys, lt1) \<leftarrow> (if cmp p x = 0 then map_option (\<lambda>ys. (ys, lt + 1)) (swap_el xs lt i)
                        else Some (xs, lt));
          scan_up cmp ys lt1 (i + 1) j
        } else Some (xs, lt, i)
      } else Some (xs, lt, i))"
  by pat_completeness auto
termination
  by (relation "measure (\<lambda>(cmp, xs, lt, i, j). j - i)") auto

function scan_down :: "'a cmp \<Rightarrow> 'a list \<Rightarrow> nat \<Rightarrow> nat \<Rightarrow> nat \<Rightarrow> ('a list \<times> nat \<times> nat) option" where
  "scan_down cmp xs gt i j =
     (if i < j - 1 then do {
        p \<leftarrow> rd xs 0;
        x \<leftarrow> rd xs (j - 1);
        if cmp p x \<le> 0 then do {
          (ys, gt1) \<leftarrow> (if cmp p x = 0
                        then map_option (\<lambda>ys. (ys, gt - 1)) (swap_el xs (gt - 1) (j - 1))
                        else Some (xs, gt));
          scan_down cmp ys gt1 i (j - 1)
        } else Some (xs, gt, j - 1)
      } else Some (xs, gt, j - 1))"
  by pat_completeness auto
termination
  by (relation "measure (\<lambda>(cmp, xs, gt, i, j). j)") auto

declare scan_up.simps [simp del] scan_down.simps [simp del]

partial_function (option) partition_loop ::
    "'a cmp \<Rightarrow> 'a list \<Rightarrow> nat \<Rightarrow> nat \<Rightarrow> nat \<Rightarrow> nat \<Rightarrow> ('a list \<times> nat \<times> nat \<times> nat) option" where
  "partition_loop cmp xs lt i gt j = do {
     (ys, lt1, i1) \<leftarrow> scan_up cmp xs lt i j;
     (zs, gt1, j1) \<leftarrow> scan_down cmp ys gt i1 j;
     if i1 \<ge> j1 then Some (zs, lt1, i1, gt1)
     else do {
       us \<leftarrow> swap_el zs i1 j1;
       partition_loop cmp us lt1 (i1 + 1) gt1 j1
     }
   }"

text \<open>One pass over a segment: choose the pivot, partition, and move the elements equal to it
  to the middle. The result has the two cuts.\<close>

definition partition_pass :: "'a cmp \<Rightarrow> 'a list \<Rightarrow> nat \<Rightarrow> ('a list \<times> nat \<times> nat) option" where
  "partition_pass cmp xs nmemb = (let m4 = nmemb div 4 in do {
     m \<leftarrow> med3 cmp xs m4 (2 * m4) (3 * m4);
     ys \<leftarrow> swap_el xs 0 m;
     (zs, lt, i, gt) \<leftarrow> partition_loop cmp ys 1 1 nmemb nmemb;
     let span = min lt (i - lt);
     us \<leftarrow> exchange_units span zs 0 (i - span);
     let span2 = min (nmemb - gt) (gt - i);
     vs \<leftarrow> exchange_units span2 us i (nmemb - span2);
     Some (vs, i - lt, nmemb - (gt - i))
   })"

section \<open>Insertion sort\<close>

function insert_down :: "'a cmp \<Rightarrow> 'a list \<Rightarrow> nat \<Rightarrow> 'a list option" where
  "insert_down cmp xs j =
     (if j > 0 then do {
        x \<leftarrow> rd xs (j - 1);
        y \<leftarrow> rd xs j;
        if cmp x y > 0 then do {
          ys \<leftarrow> swap_el xs j (j - 1);
          insert_down cmp ys (j - 1)
        } else Some xs
      } else Some xs)"
  by pat_completeness auto
termination
  by (relation "measure (\<lambda>(cmp, xs, j). j)") auto

function insertion_sort :: "'a cmp \<Rightarrow> 'a list \<Rightarrow> nat \<Rightarrow> nat \<Rightarrow> 'a list option" where
  "insertion_sort cmp xs i nmemb =
     (if i < nmemb then do {
        ys \<leftarrow> insert_down cmp xs i;
        insertion_sort cmp ys (i + 1) nmemb
      } else Some xs)"
  by pat_completeness auto
termination
  by (relation "measure (\<lambda>(cmp, xs, i, nmemb). nmemb - i)") auto

declare insert_down.simps [simp del] insertion_sort.simps [simp del]

section \<open>The driver\<close>

text \<open>The segment of \<open>n\<close> elements at \<open>p\<close>, and the array with a segment put back.\<close>

definition segment :: "'a list \<Rightarrow> nat \<Rightarrow> nat \<Rightarrow> 'a list option" where
  "segment xs p n = (if p + n \<le> length xs then Some (take n (drop p xs)) else None)"

definition put_segment :: "'a list \<Rightarrow> nat \<Rightarrow> 'a list \<Rightarrow> 'a list" where
  "put_segment xs p seg = take p xs @ seg @ drop (p + length seg) xs"

definition RQ_STACK :: nat where
  "RQ_STACK = 50"

definition push_segment :: "nat \<times> nat \<times> nat \<Rightarrow> (nat \<times> nat \<times> nat) list \<Rightarrow> (nat \<times> nat \<times> nat) list option" where
  "push_segment e st = (if length st < RQ_STACK then Some (e # st) else None)"

text \<open>The loop \<^verbatim>\<open>while (nmemb > 6)\<close>: it ends with the small segment that is left, and the
  stack.\<close>

partial_function (option) rq_segment ::
    "'a cmp \<Rightarrow> 'a list \<Rightarrow> nat \<Rightarrow> nat \<Rightarrow> nat \<Rightarrow> (nat \<times> nat \<times> nat) list \<Rightarrow>
     ('a list \<times> nat \<times> nat \<times> (nat \<times> nat \<times> nat) list) option" where
  "rq_segment cmp xs ptr nmemb depth st =
     (if nmemb > 6 then
        if depth + 1 > 50 then do {
          seg \<leftarrow> segment xs ptr nmemb;
          seg1 \<leftarrow> heapsortx cmp seg nmemb;
          Some (put_segment xs ptr seg1, ptr, 0, st)
        } else do {
          seg \<leftarrow> segment xs ptr nmemb;
          (seg1, lt, gt) \<leftarrow> partition_pass cmp seg nmemb;
          let ys = put_segment xs ptr seg1;
          if lt > nmemb - gt then do {
            st1 \<leftarrow> push_segment (ptr, lt, depth + 1) st;
            rq_segment cmp ys (ptr + gt) (nmemb - gt) (depth + 1) st1
          } else do {
            st1 \<leftarrow> push_segment (ptr + gt, nmemb - gt, depth + 1) st;
            rq_segment cmp ys ptr lt (depth + 1) st1
          }
        }
      else Some (xs, ptr, nmemb, st))"

partial_function (option) rq_loop ::
    "'a cmp \<Rightarrow> 'a list \<Rightarrow> (nat \<times> nat \<times> nat) list \<Rightarrow> 'a list option" where
  "rq_loop cmp xs st = (case st of
     [] \<Rightarrow> Some xs
   | (ptr, nmemb, depth) # st1 \<Rightarrow> do {
       (ys, p, n, st2) \<leftarrow> rq_segment cmp xs ptr nmemb depth st1;
       seg \<leftarrow> segment ys p n;
       seg1 \<leftarrow> insertion_sort cmp seg 1 n;
       rq_loop cmp (put_segment ys p seg1) st2
     })"

definition rqsort :: "'a cmp \<Rightarrow> 'a list \<Rightarrow> nat \<Rightarrow> 'a list option" where
  "rqsort cmp xs nmemb = (if nmemb < 2 then Some xs else rq_loop cmp xs [(0, nmemb, 0)])"

section \<open>The partition\<close>

lemma med3_in:
  "a < length xs \<Longrightarrow> b < length xs \<Longrightarrow> c < length xs \<Longrightarrow>
    \<exists>m. med3 cmp xs a b c = Some m \<and> m < length xs"
  by (auto simp: med3_def rd_in)

text \<open>What holds at the head of the partition loop: elements equal to the pivot at both ends,
  smaller ones after the first, greater ones before the last, and the rest in between.\<close>

definition part_inv :: "'a cmp \<Rightarrow> 'a \<Rightarrow> 'a list \<Rightarrow> nat \<Rightarrow> nat \<Rightarrow> nat \<Rightarrow> nat \<Rightarrow> bool" where
  "part_inv cmp p xs lt i j gt \<longleftrightarrow> 1 \<le> lt \<and> lt \<le> i \<and> i \<le> j \<and> j \<le> gt \<and> gt \<le> length xs \<and>
     xs ! 0 = p \<and> (\<forall>k. 1 \<le> k \<and> k < lt \<longrightarrow> cmp p (xs ! k) = 0) \<and>
     (\<forall>k. lt \<le> k \<and> k < i \<longrightarrow> cmp p (xs ! k) > 0) \<and>
     (\<forall>k. j \<le> k \<and> k < gt \<longrightarrow> cmp p (xs ! k) < 0) \<and>
     (\<forall>k. gt \<le> k \<and> k < length xs \<longrightarrow> cmp p (xs ! k) = 0)"

lemma part_inv_len:
  "part_inv cmp p xs lt i j gt \<Longrightarrow> i < j \<Longrightarrow> 0 < length xs \<and> i < length xs \<and> lt < length xs"
  by (auto simp: part_inv_def)

lemma part_inv_smaller:
  "part_inv cmp p xs lt i j gt \<Longrightarrow> i < j \<Longrightarrow> cmp p (xs ! i) > 0 \<Longrightarrow> part_inv cmp p xs lt (i + 1) j gt"
  unfolding part_inv_def by (auto simp: less_Suc_eq)

lemma part_inv_equal:
  assumes "part_inv cmp p xs lt i j gt" and "i < j" and "cmp p (xs ! i) = 0"
  shows "part_inv cmp p (xs[lt := xs ! i, i := xs ! lt]) (lt + 1) (i + 1) j gt"
proof -
  have "cmp p (xs ! lt) > 0" if "lt < i" using assms(1) that by (simp add: part_inv_def)
  then show ?thesis using assms unfolding part_inv_def
    by (auto simp: nth_list_update less_Suc_eq)
qed

lemma part_inv_greater:
  assumes "part_inv cmp p xs lt i (Suc j) gt" and "i \<le> j" and "cmp p (xs ! j) < 0"
  shows "part_inv cmp p xs lt i j gt"
proof -
  have split: "j \<le> k \<longleftrightarrow> k = j \<or> Suc j \<le> k" for k by auto
  show ?thesis using assms unfolding part_inv_def split by auto
qed

lemma part_inv_equal_high:
  assumes "part_inv cmp p xs lt i (Suc j) gt" and "i < j" and "cmp p (xs ! j) = 0"
  shows "part_inv cmp p (xs[gt - 1 := xs ! j, j := xs ! (gt - 1)]) lt i j (gt - 1)"
proof -
  obtain g where g: "gt = Suc g" using assms(1,2) by (cases gt) (auto simp: part_inv_def)
  have split: "g \<le> k \<longleftrightarrow> k = g \<or> Suc g \<le> k" "j \<le> k \<longleftrightarrow> k = j \<or> Suc j \<le> k" for k by auto
  have "cmp p (xs ! g) < 0" if "j < g" using assms(1) that g by (auto simp: part_inv_def)
  then show ?thesis using assms g unfolding part_inv_def split
    by (auto simp: nth_list_update)
qed

lemma scan_up_inv:
  "part_inv cmp p xs lt i j gt \<Longrightarrow>
    \<exists>ys lt1 i1. scan_up cmp xs lt i j = Some (ys, lt1, i1) \<and> part_inv cmp p ys lt1 i1 j gt \<and>
      mset ys = mset xs \<and> i \<le> i1 \<and> (i1 = j \<or> cmp p (ys ! i1) < 0)"
proof (induction "j - i" arbitrary: xs lt i)
  case 0
  then have "i = j" by (simp add: part_inv_def)
  then show ?case using 0 by (auto simp: scan_up.simps [of cmp xs lt j j])
next
  case (Suc n)
  then have ij: "i < j" by simp
  note len = part_inv_len [OF Suc.prems ij]
  have p: "xs ! 0 = p" using Suc.prems by (simp add: part_inv_def)
  consider "cmp p (xs ! i) < 0" | "cmp p (xs ! i) = 0" | "cmp p (xs ! i) > 0" by linarith
  then show ?case
  proof cases
    case 1
    then show ?thesis using Suc.prems ij len p by (simp add: scan_up.simps [of cmp xs lt i j] rd_in)
  next
    case 2
    let ?ys = "xs[lt := xs ! i, i := xs ! lt]"
    have "scan_up cmp xs lt i j = scan_up cmp ?ys (lt + 1) (i + 1) j"
      using 2 ij len p by (simp add: scan_up.simps [of cmp xs lt i j] rd_in)
    then show ?thesis
      using Suc.hyps(1) [OF _ part_inv_equal [OF Suc.prems ij 2]] Suc.hyps(2) ij len by fastforce
  next
    case 3
    have "scan_up cmp xs lt i j = scan_up cmp xs lt (i + 1) j"
      using 3 ij len p by (simp add: scan_up.simps [of cmp xs lt i j] rd_in)
    then show ?thesis
      using Suc.hyps(1) [OF _ part_inv_smaller [OF Suc.prems ij 3]] Suc.hyps(2) ij by fastforce
  qed
qed

lemma scan_down_inv:
  "part_inv cmp p xs lt i j gt \<Longrightarrow> i = j \<or> cmp p (xs ! i) < 0 \<Longrightarrow>
    \<exists>ys gt1 j1. scan_down cmp xs gt i j = Some (ys, gt1, j1 - 1) \<and> part_inv cmp p ys lt i j1 gt1 \<and>
      mset ys = mset xs \<and> j1 \<le> j \<and> ys ! i = xs ! i \<and> (i < j1 - 1 \<longrightarrow> cmp p (ys ! (j1 - 1)) > 0)"
proof (induction j arbitrary: xs gt)
  case 0
  then show ?case by (auto simp: part_inv_def)
next
  case (Suc j)
  show ?case
  proof (cases "i < j")
    case False
    then show ?thesis using Suc.prems by (intro exI [of _ xs] exI [of _ gt] exI [of _ "Suc j"])
        (simp add: scan_down.simps [of cmp xs gt i "Suc j"])
  next
    case True
    then have ij: "i < j" .
    have p: "xs ! 0 = p" and len: "0 < length xs" "j < length xs" "gt - 1 < length xs" "i < gt - 1 \<or> j = gt - 1"
      using Suc.prems(1) True by (auto simp: part_inv_def)
    consider "cmp p (xs ! j) > 0" | "cmp p (xs ! j) = 0" | "cmp p (xs ! j) < 0" by linarith
    then show ?thesis
    proof cases
      case 1
      then show ?thesis using Suc.prems True len p
        by (intro exI [of _ xs] exI [of _ gt] exI [of _ "Suc j"])
          (simp add: scan_down.simps [of cmp xs gt i "Suc j"] rd_in)
    next
      case 2
      let ?ys = "xs[gt - 1 := xs ! j, j := xs ! (gt - 1)]"
      have "scan_down cmp xs gt i (Suc j) = scan_down cmp ?ys (gt - 1) i j"
        using 2 True len p by (simp add: scan_down.simps [of cmp xs gt i "Suc j"] rd_in)
      moreover have "?ys ! i = xs ! i" using len(4) True by (auto simp: nth_list_update)
      moreover have "part_inv cmp p ?ys lt i j (gt - 1)"
        using part_inv_equal_high [OF Suc.prems(1) ij] 2 by simp
      ultimately show ?thesis using Suc.IH [of ?ys "gt - 1"] Suc.prems(2) True len by fastforce
    next
      case 3
      have "scan_down cmp xs gt i (Suc j) = scan_down cmp xs gt i j"
        using 3 True len p by (simp add: scan_down.simps [of cmp xs gt i "Suc j"] rd_in)
      moreover have "part_inv cmp p xs lt i j gt"
        using part_inv_greater [OF Suc.prems(1)] ij 3 by simp
      ultimately show ?thesis using Suc.IH [of xs gt] Suc.prems(2) True by fastforce
    qed
  qed
qed

lemma part_inv_swap:
  assumes "part_inv cmp p xs lt i (Suc j) gt" and "i < j"
    and "cmp p (xs ! i) < 0" and "cmp p (xs ! j) > 0"
  shows "part_inv cmp p (xs[i := xs ! j, j := xs ! i]) lt (i + 1) j gt"
proof -
  have split: "j \<le> k \<longleftrightarrow> k = j \<or> Suc j \<le> k" "k < i + 1 \<longleftrightarrow> k = i \<or> k < i" for k by auto
  show ?thesis using assms unfolding part_inv_def split by (auto simp: nth_list_update)
qed

lemma partition_loop_inv:
  "part_inv cmp p xs lt i j gt \<Longrightarrow>
    \<exists>ys lt1 i1 gt1. partition_loop cmp xs lt i gt j = Some (ys, lt1, i1, gt1) \<and>
      part_inv cmp p ys lt1 i1 i1 gt1 \<and> mset ys = mset xs"
proof (induction "j - i" arbitrary: xs lt i gt j rule: less_induct)
  case less
  obtain ys lt1 i1 where up: "scan_up cmp xs lt i j = Some (ys, lt1, i1)"
      "part_inv cmp p ys lt1 i1 j gt" "mset ys = mset xs" "i \<le> i1" "i1 = j \<or> cmp p (ys ! i1) < 0"
    using scan_up_inv [OF less.prems] by blast
  obtain zs gt1 j1 where down: "scan_down cmp ys gt i1 j = Some (zs, gt1, j1 - 1)"
      "part_inv cmp p zs lt1 i1 j1 gt1" "mset zs = mset ys" "j1 \<le> j" "zs ! i1 = ys ! i1"
      "i1 < j1 - 1 \<longrightarrow> cmp p (zs ! (j1 - 1)) > 0"
    using scan_down_inv [OF up(2,5)] by blast
  have ij: "i1 \<le> j1" using down(2) by (simp add: part_inv_def)
  consider "i1 = j1" | "j1 = Suc i1" | j2 where "j1 = Suc j2" "i1 < j2"
    using ij by (cases j1) (auto simp: le_less less_Suc_eq)
  then show ?case
  proof cases
    case 1
    have "partition_loop cmp xs lt i gt j = Some (zs, lt1, i1, gt1)"
      using 1 up(1) down(1) by (simp add: partition_loop.simps [of cmp xs lt i gt j])
    moreover have "part_inv cmp p zs lt1 i1 i1 gt1" using down(2) unfolding 1 .
    moreover have "mset zs = mset xs" using down(3) up(3) by simp
    ultimately show ?thesis by blast
  next
    case 2
    then have "i1 \<noteq> j" using down(4) by linarith
    then have "cmp p (zs ! i1) < 0" unfolding down(5) using up(5) by blast
    then have "part_inv cmp p zs lt1 i1 i1 gt1" by (intro part_inv_greater [OF down(2) [unfolded 2]] order_refl)
    moreover have "partition_loop cmp xs lt i gt j = Some (zs, lt1, i1, gt1)"
      using 2 up(1) down(1) by (simp add: partition_loop.simps [of cmp xs lt i gt j])
    moreover have "mset zs = mset xs" using down(3) up(3) by simp
    ultimately show ?thesis by blast
  next
    case 3
    let ?us = "zs[i1 := zs ! j2, j2 := zs ! i1]"
    have len: "i1 < length zs" "j2 < length zs" using down(2) 3 by (auto simp: part_inv_def)
    have "i1 \<noteq> j" using 3 down(4) by linarith
    then have "cmp p (zs ! i1) < 0" unfolding down(5) using up(5) by blast
    then have inv: "part_inv cmp p ?us lt1 (i1 + 1) j2 gt1"
      using down(2,6) 3 by (intro part_inv_swap) auto
    have "partition_loop cmp xs lt i gt j = partition_loop cmp ?us lt1 (i1 + 1) gt1 j2"
      using 3 up(1) down(1) len by (simp add: partition_loop.simps [of cmp xs lt i gt j])
    then show ?thesis
      using less.hyps [OF _ inv] 3 up(3,4) down(3,4) len by auto
  qed
qed

text \<open>A pass cuts the segment into elements below the pivot, equal to it, and above it; the
  middle part is not empty.\<close>

lemma partition_pass_cuts:
  assumes "4 \<le> length xs"
  shows "\<exists>ys a b p. partition_pass cmp xs (length xs) = Some (ys, a, b) \<and> mset ys = mset xs \<and>
    length ys = length xs \<and> a < b \<and> b \<le> length xs \<and>
    (\<forall>k < a. cmp p (ys ! k) > 0) \<and>
    (\<forall>k. a \<le> k \<and> k < b \<longrightarrow> ys ! k = p \<or> cmp p (ys ! k) = 0) \<and>
    (\<forall>k. b \<le> k \<and> k < length xs \<longrightarrow> cmp p (ys ! k) < 0)"
proof -
  let ?n = "length xs"
  obtain m where m: "med3 cmp xs (?n div 4) (2 * (?n div 4)) (3 * (?n div 4)) = Some m" "m < ?n"
    using med3_in [of "?n div 4" xs "2 * (?n div 4)" "3 * (?n div 4)" cmp] assms by fastforce
  have z: "0 < ?n" using assms by linarith
  define xs1 where "xs1 = xs[0 := xs ! m, m := xs ! 0]"
  have xs1: "swap_el xs 0 m = Some xs1" "mset xs1 = mset xs" "length xs1 = ?n"
    using swap_el_in [OF z m(2)] mset_swap [OF z m(2)] by (simp_all add: xs1_def)
  have "part_inv cmp (xs1 ! 0) xs1 1 1 ?n ?n"
    using assms xs1(3) by (auto simp: part_inv_def)
  then obtain zs lt i gt where loop: "partition_loop cmp xs1 1 1 ?n ?n = Some (zs, lt, i, gt)"
      and inv: "part_inv cmp (xs1 ! 0) zs lt i i gt" and mz: "mset zs = mset xs1"
    using partition_loop_inv [of cmp "xs1 ! 0" xs1 1 1 ?n ?n] by blast
  let ?p = "xs1 ! 0"
  define s t where "s = min lt (i - lt)" and "t = min (?n - gt) (gt - i)"
  have s: "s \<le> lt" "s \<le> i - lt" "s = lt \<or> s = i - lt"
    and t: "t \<le> ?n - gt" "t \<le> gt - i" "t = ?n - gt \<or> t = gt - i"
    by (auto simp: s_def t_def)
  have lz: "length zs = ?n" using mz xs1(3) by (metis size_mset)
  have bnd: "1 \<le> lt" "lt \<le> i" "i \<le> gt" "gt \<le> ?n" using inv lz by (auto simp: part_inv_def)
  have low_room: "s \<le> i - s" "i - s + s = i" using s(1,2) bnd by linarith+
  have high_room: "i + t \<le> ?n - t" "?n - t + t = ?n" using t(1,2) bnd by linarith+
  obtain us where us: "exchange_units s zs 0 (i - s) = Some us" "mset us = mset zs" "length us = ?n"
      "\<forall>k < ?n. us ! k = (if k < s then zs ! (i - s + k)
         else if i - s \<le> k \<and> k < i then zs ! (k - (i - s)) else zs ! k)"
    using exchange_units_ok [of 0 s "i - s" zs] bnd lz low_room by auto
  obtain vs where vs: "exchange_units t us i (?n - t) = Some vs" "mset vs = mset us" "length vs = ?n"
      "\<forall>k < ?n. vs ! k = (if i \<le> k \<and> k < i + t then us ! (?n - t + (k - i))
         else if ?n - t \<le> k \<and> k < ?n then us ! (i + (k - (?n - t))) else us ! k)"
    using exchange_units_ok [of i t "?n - t" us] bnd us(3) high_room by auto
  have cls: "zs ! 0 = ?p" "\<And>k. 1 \<le> k \<Longrightarrow> k < lt \<Longrightarrow> cmp ?p (zs ! k) = 0"
      "\<And>k. lt \<le> k \<Longrightarrow> k < i \<Longrightarrow> cmp ?p (zs ! k) > 0" "\<And>k. i \<le> k \<Longrightarrow> k < gt \<Longrightarrow> cmp ?p (zs ! k) < 0"
      "\<And>k. gt \<le> k \<Longrightarrow> k < ?n \<Longrightarrow> cmp ?p (zs ! k) = 0"
    using inv lz by (auto simp: part_inv_def)
  have eq: "zs ! k = ?p \<or> cmp ?p (zs ! k) = 0" if "k < lt" for k
    using cls(1) cls(2) [of k] that by (cases "k = 0") auto
  have low: "cmp ?p (us ! k) > 0" if "k < i - lt" for k
    using us(4) that bnd s cls(3) [of "i - s + k"] cls(3) [of k] by (cases "k < s") auto
  have mid: "us ! k = ?p \<or> cmp ?p (us ! k) = 0" if "i - lt \<le> k" "k < i" for k
    using us(4) that bnd s eq [of "k - (i - s)"] eq [of k] by (cases "i - s \<le> k") auto
  have rest: "us ! k = zs ! k" if "i \<le> k" "k < ?n" for k using us(4) that bnd by simp
  have below: "vs ! k = us ! k" if "k < i" for k using vs(4) that bnd high_room by auto
  have "cmp ?p (vs ! k) > 0" if "k < i - lt" for k
    using that bnd low below [of k] by simp
  moreover have "vs ! k = ?p \<or> cmp ?p (vs ! k) = 0" if "i - lt \<le> k" "k < ?n - (gt - i)" for k
  proof (cases "k < i")
    case True
    then show ?thesis using that mid below by simp
  next
    case False
    have "k < ?n" using that bnd by linarith
    then show ?thesis
      using False vs(4) that bnd t cls(5) [of "?n - t + (k - i)"] cls(5) [of k] rest
      by (cases "k < i + t") auto
  qed
  moreover have "cmp ?p (vs ! k) < 0" if "?n - (gt - i) \<le> k" "k < ?n" for k
    using vs(4) that bnd t cls(4) [of "i + (k - (?n - t))"] cls(4) [of k] rest
    by (cases "?n - t \<le> k") auto
  moreover have "partition_pass cmp xs ?n = Some (vs, i - lt, ?n - (gt - i))"
    using m xs1(1) loop us(1) vs(1) by (simp add: partition_pass_def Let_def flip: s_def t_def)
  moreover have "mset vs = mset xs" using vs(2) us(2) mz xs1(2) by simp
  moreover have "i - lt < ?n - (gt - i)" "?n - (gt - i) \<le> ?n" using bnd by linarith+
  ultimately show ?thesis using vs(3) by blast
qed

section \<open>Insertion sort sorts\<close>

lemma insert_down_safe:
  "j < length xs \<Longrightarrow> \<exists>ys. insert_down cmp xs j = Some ys \<and> mset ys = mset xs \<and> length ys = length xs"
proof (induction j arbitrary: xs)
  case 0
  then show ?case by (simp add: insert_down.simps [of cmp xs 0])
next
  case (Suc j)
  let ?ys = "xs[Suc j := xs ! j, j := xs ! Suc j]"
  have "j < length xs" using Suc.prems by simp
  then show ?case using Suc.IH [of ?ys] Suc.prems
    by (simp add: insert_down.simps [of cmp xs "Suc j"] rd_in)
qed

lemma insertion_sort_safe:
  "n \<le> length xs \<Longrightarrow> \<exists>ys. insertion_sort cmp xs i n = Some ys \<and> mset ys = mset xs"
proof (induction "n - i" arbitrary: xs i)
  case 0
  then show ?case by (simp add: insertion_sort.simps [of cmp xs i n])
next
  case (Suc k)
  have i: "i < n" "i < length xs" using Suc.hyps(2) Suc.prems by auto
  obtain ys where ys: "insert_down cmp xs i = Some ys" "mset ys = mset xs" "length ys = length xs"
    using insert_down_safe [OF i(2), of cmp] by auto
  have k: "k = n - (i + 1)" using Suc.hyps(2) by linarith
  obtain zs where "insertion_sort cmp ys (i + 1) n = Some zs" "mset zs = mset ys"
    using Suc.hyps(1) [OF k, of ys] Suc.prems ys(3) by auto
  then show ?case using i(1) ys by (simp add: insertion_sort.simps [of cmp xs i n])
qed

context comparator
begin

text \<open>While the element at \<open>j\<close> moves down, the elements up to \<open>m\<close> are in order but for it, and
  it is below those after it.\<close>

definition inserting :: "'a list \<Rightarrow> nat \<Rightarrow> nat \<Rightarrow> bool" where
  "inserting xs j m \<longleftrightarrow> (\<forall>a b. a < b \<and> b \<le> m \<and> a \<noteq> j \<and> b \<noteq> j \<longrightarrow> cmp (xs ! a) (xs ! b) \<le> 0) \<and>
     (\<forall>b. j < b \<and> b \<le> m \<longrightarrow> cmp (xs ! j) (xs ! b) \<le> 0)"

lemma inserting_done:
  assumes "inserting xs j m" and "j = 0 \<or> cmp (xs ! (j - 1)) (xs ! j) \<le> 0" and "a < b" and "b \<le> m"
  shows "cmp (xs ! a) (xs ! b) \<le> 0"
proof (cases "b = j")
  case True
  then have last: "cmp (xs ! (j - 1)) (xs ! j) \<le> 0" using assms(2,3) by auto
  have "cmp (xs ! a) (xs ! (j - 1)) \<le> 0"
  proof (cases "a = j - 1")
    case False
    then have "a < j - 1" "j - 1 \<le> m" "a \<noteq> j" "j - 1 \<noteq> j" using assms(3,4) True by auto
    then show ?thesis using assms(1) unfolding inserting_def by blast
  qed simp
  then show ?thesis using cmp_trans [OF _ last] True by blast
next
  case False
  then show ?thesis using assms(1,3,4) unfolding inserting_def by (cases "a = j") auto
qed

lemma inserting_step:
  assumes "inserting xs (Suc j) m" and "cmp (xs ! j) (xs ! Suc j) > 0" and "Suc j \<le> m" and "m < length xs"
  shows "inserting (xs[Suc j := xs ! j, j := xs ! Suc j]) j m" (is "inserting ?ys j m")
proof -
  have pair: "\<And>a b. a < b \<Longrightarrow> b \<le> m \<Longrightarrow> a \<noteq> Suc j \<Longrightarrow> b \<noteq> Suc j \<Longrightarrow> cmp (xs ! a) (xs ! b) \<le> 0"
    and above: "\<And>b. Suc j < b \<Longrightarrow> b \<le> m \<Longrightarrow> cmp (xs ! Suc j) (xs ! b) \<le> 0"
    using assms(1) by (auto simp: inserting_def)
  have nth: "?ys ! k = (if k = j then xs ! Suc j else if k = Suc j then xs ! j else xs ! k)" if "k \<le> m" for k
    using that assms(3,4) by (auto simp: nth_list_update)
  show ?thesis
    unfolding inserting_def
  proof (intro conjI allI impI)
    fix a b assume ab: "a < b \<and> b \<le> m \<and> a \<noteq> j \<and> b \<noteq> j"
    then have "cmp (xs ! (if a = Suc j then j else a)) (xs ! (if b = Suc j then j else b)) \<le> 0"
      by (intro pair) auto
    then show "cmp (?ys ! a) (?ys ! b) \<le> 0" using nth [of a] nth [of b] ab by (auto split: if_splits)
  next
    fix b assume b: "j < b \<and> b \<le> m"
    have "cmp (xs ! Suc j) (xs ! (if b = Suc j then j else b)) \<le> 0"
      using above [of b] cmp_gt [OF assms(2)] b by auto
    then show "cmp (?ys ! j) (?ys ! b) \<le> 0" using nth [of j] nth [of b] b by (auto split: if_splits)
  qed
qed

lemma insert_down_sorts:
  "inserting xs j m \<Longrightarrow> j \<le> m \<Longrightarrow> m < length xs \<Longrightarrow>
    \<exists>ys. insert_down cmp xs j = Some ys \<and> (\<forall>a b. a < b \<and> b \<le> m \<longrightarrow> cmp (ys ! a) (ys ! b) \<le> 0)"
proof (induction j arbitrary: xs)
  case 0
  then show ?case using inserting_done [OF 0(1)] by (simp add: insert_down.simps [of cmp xs 0])
next
  case (Suc j)
  have len: "j < length xs" "Suc j < length xs" using Suc.prems by auto
  show ?case
  proof (cases "cmp (xs ! j) (xs ! Suc j) > 0")
    case True
    then show ?thesis
      using Suc.IH [OF inserting_step [OF Suc.prems(1) True Suc.prems(2,3)]] Suc.prems len
      by (simp add: insert_down.simps [of cmp xs "Suc j"] rd_in)
  next
    case False
    then show ?thesis using inserting_done [OF Suc.prems(1)] len
      by (simp add: insert_down.simps [of cmp xs "Suc j"] rd_in)
  qed
qed

lemma insertion_sort_sorts:
  "n = length xs \<Longrightarrow> 1 \<le> i \<Longrightarrow> (\<forall>a b. a < b \<and> b < i \<and> b < n \<longrightarrow> cmp (xs ! a) (xs ! b) \<le> 0) \<Longrightarrow>
    \<exists>ys. insertion_sort cmp xs i n = Some ys \<and> sorted_wrt (\<lambda>x y. cmp x y \<le> 0) ys"
proof (induction "n - i" arbitrary: xs i)
  case 0
  then show ?case by (simp add: insertion_sort.simps [of cmp xs i] sorted_wrt_iff_nth_less)
next
  case (Suc k)
  then have i: "i < n" by simp
  have "inserting xs i i" using Suc.prems(3) i by (auto simp: inserting_def)
  then obtain ys where ys: "insert_down cmp xs i = Some ys"
      "\<forall>a b. a < b \<and> b \<le> i \<longrightarrow> cmp (ys ! a) (ys ! b) \<le> 0"
    using insert_down_sorts [of xs i i] i Suc.prems(1) by auto
  have len: "n = length ys" using insert_down_safe [of i xs cmp] ys(1) i Suc.prems(1) by auto
  have k: "k = n - (i + 1)" using Suc.hyps(2) by linarith
  have "\<forall>a b. a < b \<and> b < i + 1 \<and> b < n \<longrightarrow> cmp (ys ! a) (ys ! b) \<le> 0"
    using ys(2) by (simp add: less_Suc_eq_le)
  then obtain zs where "insertion_sort cmp ys (i + 1) n = Some zs" "sorted_wrt (\<lambda>x y. cmp x y \<le> 0) zs"
    using Suc.hyps(1) [OF k len] by auto
  then show ?case using ys(1) i by (simp add: insertion_sort.simps [of cmp xs i n])
qed

end

section \<open>The whole sort\<close>

lemma segment_mid [simp]: "segment (l @ s @ r) (length l) (length s) = Some s"
  by (simp add: segment_def)

lemma put_segment_mid [simp]:
  "length s' = length s \<Longrightarrow> put_segment (l @ s @ r) (length l) s' = l @ s' @ r"
  by (simp add: put_segment_def)

definition sorted_by :: "'a cmp \<Rightarrow> 'a list \<Rightarrow> bool" where
  "sorted_by cmp xs \<longleftrightarrow> (comparator cmp \<longrightarrow> sorted_wrt (\<lambda>x y. cmp x y \<le> 0) xs)"

lemma small_segment:
  "\<exists>s'. insertion_sort cmp s 1 (length s) = Some s' \<and> mset s' = mset s \<and> length s' = length s \<and>
    sorted_by cmp s'"
proof -
  obtain s' where s': "insertion_sort cmp s 1 (length s) = Some s'" "mset s' = mset s"
    using insertion_sort_safe [of "length s" s cmp 1] by auto
  moreover have "sorted_by cmp s'"
    unfolding sorted_by_def
  proof
    assume "comparator cmp"
    then show "sorted_wrt (\<lambda>x y. cmp x y \<le> 0) s'"
      using comparator.insertion_sort_sorts [of cmp "length s" s 1] s'(1) by auto
  qed
  moreover have "length s' = length s" using s'(2) by (metis size_mset)
  ultimately show ?thesis by blast
qed

lemma heap_segment:
  "\<exists>s'. heapsortx cmp s (length s) = Some s' \<and> mset s' = mset s \<and> length s' = length s \<and>
    sorted_by cmp s'"
proof -
  obtain s' where s': "heapsortx cmp s (length s) = Some s'" "mset s' = mset s" "length s' = length s"
    using heapsortx_safe [of cmp s] by blast
  moreover have "sorted_by cmp s'"
    unfolding sorted_by_def
  proof
    assume "comparator cmp"
    then show "sorted_wrt (\<lambda>x y. cmp x y \<le> 0) s'"
      using comparator.heapsortx_sorts [of cmp s] s'(1) by auto
  qed
  ultimately show ?thesis by blast
qed

text \<open>The three parts of a partitioned segment, sorted, make a sorted segment.\<close>

lemma sorted_by_parts:
  assumes "sorted_by cmp a" and "sorted_by cmp b"
    and low: "\<forall>x \<in> set a. cmp p x > 0" and high: "\<forall>x \<in> set b. cmp p x < 0"
    and mid: "\<forall>x \<in> set m. x = p \<or> cmp p x = 0"
  shows "sorted_by cmp (a @ m @ b)"
  unfolding sorted_by_def
proof
  assume "comparator cmp"
  then have ord: "\<And>x y. cmp x y > 0 \<Longrightarrow> cmp y x \<le> 0" "\<And>x y. cmp x y = 0 \<Longrightarrow> cmp y x \<le> 0"
      "\<And>x. cmp x x = 0" "\<And>x y z. cmp x y \<le> 0 \<Longrightarrow> cmp y z \<le> 0 \<Longrightarrow> cmp x z \<le> 0"
    by (auto intro: comparator.cmp_gt comparator.cmp_eq comparator.cmp_trans
        simp: comparator.cmp_refl)
  have sorted: "sorted_wrt (\<lambda>x y. cmp x y \<le> 0) a" "sorted_wrt (\<lambda>x y. cmp x y \<le> 0) b"
    using assms(1,2) \<open>comparator cmp\<close> by (auto simp: sorted_by_def)
  have below: "cmp x p \<le> 0" if "x \<in> set a \<union> set m" for x
    using that low mid ord(1-3) by fastforce
  have above: "cmp p x \<le> 0" if "x \<in> set m \<union> set b" for x
    using that high mid ord(3) by fastforce
  have through: "cmp x y \<le> 0" if "x \<in> set a \<union> set m" "y \<in> set m \<union> set b" for x y
    by (rule ord(4) [OF below [OF that(1)] above [OF that(2)]])
  then have "sorted_wrt (\<lambda>x y. cmp x y \<le> 0) m"
    by (simp add: sorted_wrt_iff_nth_less)
  then show "sorted_wrt (\<lambda>x y. cmp x y \<le> 0) (a @ m @ b)"
    using sorted through by (simp add: sorted_wrt_append)
qed

text \<open>A pass, with the segment cut in three.\<close>

lemma partition_pass_parts:
  assumes "4 \<le> length s"
  shows "\<exists>a m b p. partition_pass cmp s (length s) = Some (a @ m @ b, length a, length a + length m) \<and>
    mset (a @ m @ b) = mset s \<and> m \<noteq> [] \<and> (\<forall>x \<in> set a. cmp p x > 0) \<and>
    (\<forall>x \<in> set m. x = p \<or> cmp p x = 0) \<and> (\<forall>x \<in> set b. cmp p x < 0)"
proof -
  obtain ys i j p where pass: "partition_pass cmp s (length s) = Some (ys, i, j)" "mset ys = mset s"
      "length ys = length s" "i < j" "j \<le> length s" "\<forall>k < i. cmp p (ys ! k) > 0"
      "\<forall>k. i \<le> k \<and> k < j \<longrightarrow> ys ! k = p \<or> cmp p (ys ! k) = 0"
      "\<forall>k. j \<le> k \<and> k < length s \<longrightarrow> cmp p (ys ! k) < 0"
    using partition_pass_cuts [OF assms, of cmp] by blast
  define a m b where "a = take i ys" and "m = drop i (take j ys)" and "b = drop j ys"
  have "take i (take j ys) = a" using pass(4) by (simp add: a_def min_def)
  then have "ys = a @ m @ b"
    unfolding m_def b_def by (metis append.assoc append_take_drop_id)
  moreover have "length a = i" "length a + length m = j" "m \<noteq> []"
    using pass(3-5) by (auto simp: a_def m_def)
  moreover have "\<forall>x \<in> set m. x = p \<or> cmp p x = 0"
  proof
    fix x assume "x \<in> set m"
    then obtain k where "k < j - i" "x = ys ! (i + k)"
      using pass(3-5) by (auto simp: m_def in_set_conv_nth)
    then show "x = p \<or> cmp p x = 0" using pass(7) [rule_format, of "i + k"] by simp
  qed
  moreover have "\<forall>x \<in> set a. cmp p x > 0" "\<forall>x \<in> set b. cmp p x < 0"
    using pass(3-6,8) by (auto simp: a_def b_def in_set_conv_nth)
  ultimately show ?thesis using pass(1,2) by blast
qed

lemma rq_loop_segment_step:
  assumes "rq_segment cmp xs p c d st = rq_segment cmp xs' p' c' d' st'"
  shows "rq_loop cmp xs ((p, c, d) # st) = rq_loop cmp xs' ((p', c', d') # st')"
  unfolding rq_loop.simps [of cmp xs] rq_loop.simps [of cmp xs'] by (simp add: assms)

lemma half_power:
  "a + 1 + b \<le> (n :: nat) \<Longrightarrow> b \<le> a \<Longrightarrow> n < 2 ^ k \<Longrightarrow> 6 < n \<Longrightarrow> b < 2 ^ (k - 1) \<and> 0 < (k :: nat)"
  by (cases k) auto

text \<open>Popping a segment and working until the stack is as before sorts the segment and leaves
  the rest of the array alone. Of two parts the smaller one is worked on first, so each
  element of the stack stands for a halving: 50 entries are enough for \<open>2 ^ 50\<close> elements.\<close>

lemma rq_loop_segment:
  "length st \<le> RQ_STACK \<Longrightarrow> length s < 2 ^ (RQ_STACK - length st) \<Longrightarrow>
    \<exists>s'. mset s' = mset s \<and> sorted_by cmp s' \<and>
      rq_loop cmp (l @ s @ r) ((length l, length s, d) # st) = rq_loop cmp (l @ s' @ r) st"
proof (induction "length s" arbitrary: s l r d st rule: less_induct)
  case less
  let ?xs = "l @ s @ r"
  consider "length s \<le> 6" | "6 < length s" "50 < d + 1" | "6 < length s" "d + 1 \<le> 50" by linarith
  then show ?case
  proof cases
    case 1
    then have "rq_segment cmp ?xs (length l) (length s) d st = Some (?xs, length l, length s, st)"
      by (simp add: rq_segment.simps [of cmp ?xs])
    moreover obtain s' where "insertion_sort cmp s 1 (length s) = Some s'" "mset s' = mset s"
        "length s' = length s" "sorted_by cmp s'"
      using small_segment [of cmp s] by blast
    ultimately show ?thesis
      by (intro exI [of _ s']) (simp add: rq_loop.simps [of cmp ?xs "(length l, length s, d) # st"])
  next
    case 2
    obtain s' where s': "heapsortx cmp s (length s) = Some s'" "mset s' = mset s"
        "length s' = length s" "sorted_by cmp s'"
      using heap_segment [of cmp s] by blast
    then have "rq_segment cmp ?xs (length l) (length s) d st = Some (l @ s' @ r, length l, 0, st)"
      using 2 by (simp add: rq_segment.simps [of cmp ?xs])
    moreover have "segment (l @ s' @ r) (length l) 0 = Some []" by (simp add: segment_def)
    moreover have "insertion_sort cmp [] 1 0 = Some []" by (simp add: insertion_sort.simps)
    moreover have "put_segment (l @ s' @ r) (length l) [] = l @ s' @ r" by (simp add: put_segment_def)
    ultimately show ?thesis using s'
      by (intro exI [of _ s']) (simp add: rq_loop.simps [of cmp ?xs "(length l, length s, d) # st"])
  next
    case 3
    obtain a m b p where pass: "partition_pass cmp s (length s) = Some (a @ m @ b, length a, length a + length m)"
        "mset (a @ m @ b) = mset s" "m \<noteq> []" "\<forall>x \<in> set a. cmp p x > 0"
        "\<forall>x \<in> set m. x = p \<or> cmp p x = 0" "\<forall>x \<in> set b. cmp p x < 0"
      using partition_pass_parts [of s cmp] 3(1) by auto
    have len: "length s = length a + length m + length b" using pass(2) by (metis size_mset length_append add.assoc)
    have lt: "length a < length s" "length b < length s" "length a + 1 + length b \<le> length s"
      "length b + 1 + length a \<le> length s"
      using len pass(3) by (cases m; simp)+
    let ?ys = "l @ (a @ m @ b) @ r"
    have cut: "length s - (length a + length m) = length b"
      and put: "put_segment ?xs (length l) (a @ m @ b) = ?ys"
      using len by simp_all
    have room: "length st < RQ_STACK" using less.prems 3(1) by (cases "length st = RQ_STACK") auto
    have sub: "RQ_STACK - length (e # st) = RQ_STACK - length st - 1" for e by simp
    show ?thesis
    proof (cases "length b < length a")
      case True
      let ?e = "(length l, length a, d + 1)"
      have "rq_segment cmp ?xs (length l) (length s) d st
          = rq_segment cmp ?ys (length (l @ a @ m)) (length b) (d + 1) (?e # st)"
        using 3 pass(1) room True cut put
        by (simp add: rq_segment.simps [of cmp ?xs] push_segment_def add.assoc)
      then have step: "rq_loop cmp ?xs ((length l, length s, d) # st)
          = rq_loop cmp ((l @ a @ m) @ b @ r) ((length (l @ a @ m), length b, d + 1) # ?e # st)"
        by (intro rq_loop_segment_step) simp
      have "length b < 2 ^ (RQ_STACK - length (?e # st))"
        unfolding sub using half_power [OF lt(3) _ less.prems(2) 3(1)] True by simp
      then obtain b' where b': "mset b' = mset b" "sorted_by cmp b'"
          "rq_loop cmp ((l @ a @ m) @ b @ r) ((length (l @ a @ m), length b, d + 1) # ?e # st)
            = rq_loop cmp ((l @ a @ m) @ b' @ r) (?e # st)"
        using less.hyps [OF lt(2), of "?e # st" "l @ a @ m" r "d + 1"] room by auto
      obtain a' where a': "mset a' = mset a" "sorted_by cmp a'"
          "rq_loop cmp (l @ a @ m @ b' @ r) (?e # st) = rq_loop cmp (l @ a' @ m @ b' @ r) st"
        using less.hyps [OF lt(1) less.prems(1), of l "m @ b' @ r" "d + 1"] lt(1) less.prems(2) by auto
      have "set a' = set a" "set b' = set b" using a'(1) b'(1) by (metis set_mset_mset)+
      then have "sorted_by cmp (a' @ m @ b')"
        using sorted_by_parts [OF a'(2) b'(2), of p m] pass(4-6) by simp
      moreover have "mset (a' @ m @ b') = mset s" using a'(1) b'(1) pass(2) by simp
      ultimately show ?thesis using step b'(3) a'(3) by (intro exI [of _ "a' @ m @ b'"]) simp
    next
      case False
      let ?e = "(length (l @ a @ m), length b, d + 1)"
      have "rq_segment cmp ?xs (length l) (length s) d st
          = rq_segment cmp ?ys (length l) (length a) (d + 1) (?e # st)"
        using 3 pass(1) room False cut put
        by (simp add: rq_segment.simps [of cmp ?xs] push_segment_def add.assoc)
      then have step: "rq_loop cmp ?xs ((length l, length s, d) # st)
          = rq_loop cmp (l @ a @ (m @ b @ r)) ((length l, length a, d + 1) # ?e # st)"
        by (intro rq_loop_segment_step) simp
      have "length a < 2 ^ (RQ_STACK - length (?e # st))"
        unfolding sub using half_power [OF lt(4) _ less.prems(2) 3(1)] False by simp
      then obtain a' where a': "mset a' = mset a" "sorted_by cmp a'"
          "rq_loop cmp (l @ a @ (m @ b @ r)) ((length l, length a, d + 1) # ?e # st)
            = rq_loop cmp (l @ a' @ (m @ b @ r)) (?e # st)"
        using less.hyps [OF lt(1), of "?e # st" l "m @ b @ r" "d + 1"] room by auto
      have la: "length a' = length a" using a'(1) by (metis size_mset)
      obtain b' where b': "mset b' = mset b" "sorted_by cmp b'"
          "rq_loop cmp ((l @ a' @ m) @ b @ r) ((length (l @ a' @ m), length b, d + 1) # st)
            = rq_loop cmp ((l @ a' @ m) @ b' @ r) st"
        using less.hyps [OF lt(2) less.prems(1), of "l @ a' @ m" r "d + 1"] lt(2) less.prems(2) by auto
      have "set a' = set a" "set b' = set b" using a'(1) b'(1) by (metis set_mset_mset)+
      then have "sorted_by cmp (a' @ m @ b')"
        using sorted_by_parts [OF a'(2) b'(2), of p m] pass(4-6) by simp
      moreover have "mset (a' @ m @ b') = mset s" using a'(1) b'(1) pass(2) by simp
      ultimately show ?thesis using step b'(3) a'(3) la by (intro exI [of _ "a' @ m @ b'"]) simp
    qed
  qed
qed

lemma rqsort_ok:
  assumes "length xs < 2 ^ 50"
  shows "\<exists>ys. rqsort cmp xs (length xs) = Some ys \<and> mset ys = mset xs \<and> sorted_by cmp ys"
proof (cases "length xs < 2")
  case True
  then have "sorted_by cmp xs" unfolding sorted_by_def by (cases xs; cases "tl xs") auto
  then show ?thesis using True by (simp add: rqsort_def)
next
  case False
  obtain ys where "mset ys = mset xs" "sorted_by cmp ys"
      "rq_loop cmp ([] @ xs @ []) ((length ([] :: 'a list), length xs, 0) # []) = rq_loop cmp ([] @ ys @ []) []"
    using rq_loop_segment [of "[]" xs cmp "[]" "[]" 0] assms by (auto simp: RQ_STACK_def)
  moreover have "rq_loop cmp ys [] = Some ys" by (simp add: rq_loop.simps)
  ultimately show ?thesis using False by (simp add: rqsort_def)
qed

end
