(* ===== verification/Typed_Array_Sort.thy ===== *)
theory Typed_Array_Sort
  imports Rq_Sort
begin

text \<open>
  The comparison functions that \<^verbatim>\<open>quickjs.c\<close> hands to \<^verbatim>\<open>rqsort\<close> for typed arrays, and the sort
  of such arrays: each function keeps the promises of a comparison function. A floating-point
  number is the 64-bit word that represents it: the numbers that are not NaN are ordered as
  their magnitude fields, with the sign.
\<close>

section \<open>Integers\<close>

definition js_TA_cmp_int8 :: "u8 cmp" where
  "js_TA_cmp_int8 a b = sint a - sint b"

definition js_TA_cmp_uint8 :: "u8 cmp" where
  "js_TA_cmp_uint8 a b = uint a - uint b"

definition js_TA_cmp_int16 :: "u16 cmp" where
  "js_TA_cmp_int16 a b = sint a - sint b"

definition js_TA_cmp_uint16 :: "u16 cmp" where
  "js_TA_cmp_uint16 a b = uint a - uint b"

definition js_TA_cmp_int32 :: "u32 cmp" where
  "js_TA_cmp_int32 a b = of_bool (sint b < sint a) - of_bool (sint b > sint a)"

definition js_TA_cmp_uint32 :: "u32 cmp" where
  "js_TA_cmp_uint32 a b = of_bool (b < a) - of_bool (b > a)"

definition js_TA_cmp_int64 :: "u64 cmp" where
  "js_TA_cmp_int64 a b = of_bool (sint b < sint a) - of_bool (sint b > sint a)"

definition js_TA_cmp_uint64 :: "u64 cmp" where
  "js_TA_cmp_uint64 a b = of_bool (b < a) - of_bool (b > a)"

section \<open>Floating-point numbers\<close>

definition f64_mag :: "u64 \<Rightarrow> nat" where
  "f64_mag x = unat (x AND 0x7FFFFFFFFFFFFFFF)"

definition f64_signbit :: "u64 \<Rightarrow> bool" where
  "f64_signbit x = bit x 63"

definition f64_isnan :: "u64 \<Rightarrow> bool" where
  "f64_isnan x \<longleftrightarrow> f64_mag x > 0x7FF0000000000000"

text \<open>An order-preserving image of the numbers; both zeros are 0.\<close>

definition f64_rank :: "u64 \<Rightarrow> int" where
  "f64_rank x = (if f64_signbit x then - int (f64_mag x) else int (f64_mag x))"

definition js_cmp_doubles :: "u64 cmp" where
  "js_cmp_doubles x y =
     (if f64_isnan x then (if f64_isnan y then 0 else 1)
      else if f64_isnan y then -1
      else if f64_rank x < f64_rank y then -1
      else if f64_rank x > f64_rank y then 1
      else if f64_rank x \<noteq> 0 then 0
      else if f64_signbit x then (if f64_signbit y then 0 else -1)
      else (if f64_signbit y then 1 else 0))"

definition js_TA_cmp_float64 :: "u64 cmp" where
  "js_TA_cmp_float64 a b = js_cmp_doubles a b"

section \<open>They are comparison functions\<close>

interpretation ta_int8: comparator js_TA_cmp_int8
  by unfold_locales (auto simp: js_TA_cmp_int8_def)

interpretation ta_uint8: comparator js_TA_cmp_uint8
  by unfold_locales (auto simp: js_TA_cmp_uint8_def)

interpretation ta_int16: comparator js_TA_cmp_int16
  by unfold_locales (auto simp: js_TA_cmp_int16_def)

interpretation ta_uint16: comparator js_TA_cmp_uint16
  by unfold_locales (auto simp: js_TA_cmp_uint16_def)

interpretation ta_int32: comparator js_TA_cmp_int32
  by unfold_locales (auto simp: js_TA_cmp_int32_def of_bool_def split: if_splits)

interpretation ta_uint32: comparator js_TA_cmp_uint32
  by unfold_locales (auto simp: js_TA_cmp_uint32_def of_bool_def split: if_splits)

interpretation ta_int64: comparator js_TA_cmp_int64
  by unfold_locales (auto simp: js_TA_cmp_int64_def of_bool_def split: if_splits)

interpretation ta_uint64: comparator js_TA_cmp_uint64
  by unfold_locales (auto simp: js_TA_cmp_uint64_def of_bool_def split: if_splits)

interpretation ta_float64: comparator js_TA_cmp_float64
  by unfold_locales (auto simp: js_TA_cmp_float64_def js_cmp_doubles_def split: if_splits)

lemma rqsort_sorts:
  assumes "comparator cmp" and "length xs < 2 ^ 50"
  shows "\<exists>ys. rqsort cmp xs (length xs) = Some ys \<and> mset ys = mset xs \<and>
    sorted_wrt (\<lambda>x y. cmp x y \<le> 0) ys"
  using rqsort_ok [OF assms(2), of cmp] assms(1) by (auto simp: sorted_by_def)

text \<open>The sorted form of doubles: numbers by rank, \<open>-0\<close> before \<open>+0\<close>, then the NaNs.\<close>

lemma float64_le_nan: "js_TA_cmp_float64 x y \<le> 0 \<Longrightarrow> f64_isnan x \<Longrightarrow> f64_isnan y"
  by (auto simp: js_TA_cmp_float64_def js_cmp_doubles_def split: if_splits)

lemma float64_le_num:
  "js_TA_cmp_float64 x y \<le> 0 \<Longrightarrow> \<not> f64_isnan x \<Longrightarrow> \<not> f64_isnan y \<Longrightarrow>
    f64_rank x < f64_rank y \<or> f64_rank x = f64_rank y \<and> (f64_signbit y \<longrightarrow> f64_signbit x)"
  by (auto simp: js_TA_cmp_float64_def js_cmp_doubles_def f64_rank_def split: if_splits)

lemma float64_split:
  assumes "sorted_wrt (\<lambda>x y. js_TA_cmp_float64 x y \<le> 0) ys"
  shows "\<exists>nums nans. ys = nums @ nans \<and> list_all f64_isnan nans \<and>
    list_all (\<lambda>x. \<not> f64_isnan x) nums \<and>
    sorted_wrt (\<lambda>x y. f64_rank x < f64_rank y \<or>
      f64_rank x = f64_rank y \<and> (f64_signbit y \<longrightarrow> f64_signbit x)) nums"
  using assms
proof (induction ys)
  case Nil
  then show ?case by simp
next
  case (Cons y ys)
  show ?case
  proof (cases "f64_isnan y")
    case True
    then have "list_all f64_isnan (y # ys)"
      using Cons.prems by (auto simp: list_all_iff dest: float64_le_nan)
    then show ?thesis by (intro exI [of _ "[]"] exI [of _ "y # ys"]) simp
  next
    case False
    obtain nums nans where ih: "ys = nums @ nans" "list_all f64_isnan nans"
        "list_all (\<lambda>x. \<not> f64_isnan x) nums"
        "sorted_wrt (\<lambda>x y. f64_rank x < f64_rank y \<or>
          f64_rank x = f64_rank y \<and> (f64_signbit y \<longrightarrow> f64_signbit x)) nums"
      using Cons by auto
    have "\<forall>z\<in>set nums. f64_rank y < f64_rank z \<or>
        f64_rank y = f64_rank z \<and> (f64_signbit z \<longrightarrow> f64_signbit y)"
      using Cons.prems ih(1,3) False float64_le_num by (auto simp: list_all_iff)
    then show ?thesis using ih False by (intro exI [of _ "y # nums"] exI [of _ nans]) simp
  qed
qed

text \<open>For integers the order is the usual one.\<close>

lemma ta_uint32_order: "js_TA_cmp_uint32 x y \<le> 0 \<longleftrightarrow> x \<le> y"
  by (auto simp: js_TA_cmp_uint32_def of_bool_def)

end
