(* ===== verification/Cutils.thy ===== *)
theory Cutils
  imports Prelude
begin

text \<open>
  The string functions of QuickJS's \<^verbatim>\<open>cutils.c\<close> and the inline functions of \<^verbatim>\<open>cutils.h\<close>:
  bounded string copies, prefixes and suffixes, unaligned little-endian accesses, byte
  swapping, and hexadecimal digits. \<^const>\<open>None\<close> is an access outside an array.
\<close>

section \<open>Bounded copies\<close>

fun pstrcpy_loop :: "string \<Rightarrow> int \<Rightarrow> nat \<Rightarrow> string \<Rightarrow> string option" where
  "pstrcpy_loop buf buf_size q [] = None"
| "pstrcpy_loop buf buf_size q (c # str) =
     (if c = NUL \<or> int q \<ge> buf_size - 1 then wr buf q NUL
      else do {
        buf1 \<leftarrow> wr buf q c;
        pstrcpy_loop buf1 buf_size (q + 1) str
      })"

text \<open>The source is the array from the pointer on; it ends with a NUL.\<close>

definition pstrcpy :: "string \<Rightarrow> int \<Rightarrow> string \<Rightarrow> string option" where
  "pstrcpy buf buf_size str = (if buf_size \<le> 0 then Some buf else pstrcpy_loop buf buf_size 0 str)"

text \<open>The length of the string is kept in an \<^verbatim>\<open>int\<close>; with a negative one the copy starts before
  the buffer.\<close>

definition pstrcat :: "string \<Rightarrow> int \<Rightarrow> string \<Rightarrow> string option" where
  "pstrcat buf buf_size s =
     (if NUL \<notin> set buf then None
      else (let len = int32_of (int (c_strlen buf)) in
        if len < buf_size then
          (if len < 0 then None
           else map_option (\<lambda>t. take (nat len) buf @ t)
                  (pstrcpy (drop (nat len) buf) (buf_size - len) s))
        else Some buf))"

lemma pstrcpy_loop_copies:
  "NUL \<notin> set t \<Longrightarrow> str = t @ NUL # rest \<Longrightarrow> int q < n \<Longrightarrow> n \<le> int (length buf) \<Longrightarrow>
    pstrcpy_loop buf n q str =
      (let k = min (length t) (nat (n - 1 - int q))
       in Some (take q buf @ take k t @ NUL # drop (q + k + 1) buf))"
proof (induction t arbitrary: buf q str)
  case Nil
  then have "q < length buf" by linarith
  then show ?case using Nil by (simp add: wr_in upd_conv_take_nth_drop)
next
  case (Cons c t)
  have q: "q < length buf" using Cons.prems(3,4) by linarith
  show ?case
  proof (cases "int q \<ge> n - 1")
    case True
    then show ?thesis using q Cons.prems by (simp add: wr_in upd_conv_take_nth_drop)
  next
    case False
    let ?buf = "buf[q := c]"
    have "pstrcpy_loop buf n q str = pstrcpy_loop ?buf n (q + 1) (t @ NUL # rest)"
      using Cons.prems False q by (auto simp: wr_in)
    moreover have "min (length (c # t)) (nat (n - 1 - int q))
        = Suc (min (length t) (nat (n - 1 - int (q + 1))))"
      using False by (simp add: min_def nat_le_iff) linarith
    moreover have "take (q + 1) ?buf = take q buf @ [c]"
      using q by (simp add: upd_conv_take_nth_drop)
    ultimately show ?thesis
      using Cons.IH [of "t @ NUL # rest" "q + 1" ?buf] Cons.prems False by (simp add: Let_def)
  qed
qed

text \<open>A copy into a buffer of the stated size never writes outside it, and leaves the longest
  prefix of the string that fits, terminated.\<close>

lemma pstrcpy_copies:
  assumes "NUL \<notin> set t" and "0 < n" and "n \<le> int (length buf)"
  shows "pstrcpy buf n (t @ NUL # rest) =
    (let k = min (length t) (nat (n - 1)) in Some (take k t @ NUL # drop (k + 1) buf))"
  using pstrcpy_loop_copies [OF assms(1) refl, of 0 n buf rest] assms(2,3)
  by (simp add: pstrcpy_def)

lemma int32_of_small: "i < 2 ^ 31 \<Longrightarrow> int32_of (int i) = int i"
  by (intro int32_of_id) simp_all

lemma int32_of_negative:
  assumes "2 ^ 31 \<le> i" and "i < 2 ^ 32"
  shows "int32_of i = i - 2 ^ 32"
proof -
  have "word_of_int i = (word_of_int (i - 2 ^ 32) :: 32 word)" by (simp add: word_of_int_eq_iff take_bit_eq_mod)
  then have "int32_of i = int32_of (i - 2 ^ 32)" unfolding int32_of_def by (rule arg_cong)
  then show ?thesis using assms int32_of_id [of "i - 2 ^ 32"] by simp
qed

lemma pstrcat_long:
  assumes "NUL \<in> set buf" and "2 ^ 31 \<le> c_strlen buf" and "c_strlen buf < 2 ^ 32" and "0 \<le> n"
  shows "pstrcat buf n s = None"
proof -
  have "int32_of (int (c_strlen buf)) = int (c_strlen buf) - 2 ^ 32"
    using assms(2,3) by (intro int32_of_negative) simp_all
  then show ?thesis using assms by (simp add: pstrcat_def Let_def)
qed

lemma pstrcat_appends:
  assumes "NUL \<notin> set t" and "NUL \<in> set buf" and "n \<le> int (length buf)"
    and small: "c_strlen buf < 2 ^ 31"
  shows "\<exists>out. pstrcat buf n (t @ NUL # rest) = Some out \<and> length out = length buf \<and>
    c_str out = (if int (c_strlen buf) < n
      then take (nat (n - 1)) (c_str buf @ t) else c_str buf)"
proof (cases "int (c_strlen buf) < n")
  case False
  then show ?thesis using assms(2) small by (simp add: pstrcat_def int32_of_small)
next
  case True
  let ?len = "c_strlen buf"
  let ?k = "min (length t) (nat (n - int ?len - 1))"
  have "pstrcpy (drop ?len buf) (n - int ?len) (t @ NUL # rest)
      = Some (take ?k t @ NUL # drop (?k + 1) (drop ?len buf))"
    using pstrcpy_copies [OF assms(1), of "n - int ?len" "drop ?len buf" rest] True assms(3)
      c_strlen_le [of buf] by (simp add: Let_def)
  then have out: "pstrcat buf n (t @ NUL # rest)
      = Some (c_str buf @ take ?k t @ NUL # drop (?len + ?k + 1) buf)"
    using True assms(2) small
    by (simp add: pstrcat_def int32_of_small Let_def add.commute add.left_commute)
  have "NUL \<notin> set (c_str buf @ take ?k t)" using assms(1) by (auto dest: in_set_takeD)
  then have "c_str (c_str buf @ take ?k t @ NUL # drop (?len + ?k + 1) buf) = c_str buf @ take ?k t"
    using c_str_append_nul [of "c_str buf @ take ?k t"] by simp
  moreover have "take (nat (n - 1)) (c_str buf @ t) = c_str buf @ take ?k t"
    using True by (simp add: c_strlen_def min_def nat_diff_distrib')
  moreover have "?len + ?k + 1 \<le> length buf" using True assms(3) by linarith
  then have "length (c_str buf @ take ?k t @ NUL # drop (?len + ?k + 1) buf) = length buf"
    by (simp add: c_strlen_def)
  ultimately show ?thesis using out True by simp
qed

section \<open>Prefixes and suffixes\<close>

text \<open>The outer \<^const>\<open>None\<close> is a read past an array, the inner one the answer 0; otherwise the
  rest of the string, which the caller gets through \<^verbatim>\<open>ptr\<close>.\<close>

fun strstart :: "string \<Rightarrow> string \<Rightarrow> string option option" where
  "strstart str [] = None"
| "strstart str (v # vs) =
     (if v = NUL then Some (Some str)
      else case str of [] \<Rightarrow> None
        | c # cs \<Rightarrow> if c \<noteq> v then Some None else strstart cs vs)"

definition has_suffix :: "string \<Rightarrow> string \<Rightarrow> bool" where
  "has_suffix str suffix =
     (let len = c_strlen str; slen = c_strlen suffix
      in len \<ge> slen \<and> take slen (drop (len - slen) str) = take slen suffix)"

lemma strstart_prefix:
  "NUL \<notin> set s \<Longrightarrow> NUL \<notin> set v \<Longrightarrow> strstart (s @ NUL # t) (v @ NUL # u) =
    Some (if length v \<le> length s \<and> take (length v) s = v then Some (drop (length v) s @ NUL # t)
          else None)"
proof (induction v arbitrary: s)
  case Nil
  then show ?case by simp
next
  case (Cons c v)
  then show ?case by (cases s) auto
qed

lemma has_suffix_iff: "has_suffix str suffix \<longleftrightarrow> (\<exists>p. c_str str = p @ c_str suffix)"
proof -
  have "take (c_strlen suffix) (drop (c_strlen str - c_strlen suffix) str)
      = drop (c_strlen str - c_strlen suffix) (c_str str)" if "c_strlen suffix \<le> c_strlen str"
    using that take_c_strlen [of str] by (metis drop_take diff_diff_cancel)
  then show ?thesis
    unfolding has_suffix_def Let_def take_c_strlen
    by (auto simp: c_strlen_def) (metis append_take_drop_id)
qed

section \<open>Minimum and maximum\<close>

definition max_int :: "int \<Rightarrow> int \<Rightarrow> int" where
  "max_int a b = (if a > b then a else b)"

definition min_int :: "int \<Rightarrow> int \<Rightarrow> int" where
  "min_int a b = (if a < b then a else b)"

definition max_uint32 :: "u32 \<Rightarrow> u32 \<Rightarrow> u32" where
  "max_uint32 a b = (if a > b then a else b)"

definition min_uint32 :: "u32 \<Rightarrow> u32 \<Rightarrow> u32" where
  "min_uint32 a b = (if a < b then a else b)"

definition max_int64 :: "int \<Rightarrow> int \<Rightarrow> int" where
  "max_int64 a b = (if a > b then a else b)"

definition min_int64 :: "int \<Rightarrow> int \<Rightarrow> int" where
  "min_int64 a b = (if a < b then a else b)"

lemma min_max_defs [simp]:
  "max_int a b = max a b" "min_int a b = min a b" "max_int64 a b = max a b" "min_int64 a b = min a b"
  by (simp_all add: max_int_def min_int_def max_int64_def min_int64_def)

lemma max_uint32_max [simp]: "max_uint32 a b = max a b"
  unfolding max_uint32_def max_def by (simp flip: not_le)

lemma min_uint32_min [simp]: "min_uint32 a b = min a b"
  unfolding min_uint32_def min_def le_less by auto

section \<open>Unaligned accesses\<close>

definition get_bytes :: "nat \<Rightarrow> u8 list \<Rightarrow> nat option" where
  "get_bytes n tab = (if n \<le> length tab then Some (le_val (take n tab)) else None)"

definition put_bytes :: "nat \<Rightarrow> u8 list \<Rightarrow> nat \<Rightarrow> u8 list option" where
  "put_bytes n tab v = (if n \<le> length tab then Some (le_bytes n v @ drop n tab) else None)"

definition get_u64 :: "u8 list \<Rightarrow> u64 option" where
  "get_u64 tab = map_option word_of_nat (get_bytes 8 tab)"

definition get_i64 :: "u8 list \<Rightarrow> int option" where
  "get_i64 tab = map_option (\<lambda>v. sint (word_of_nat v :: u64)) (get_bytes 8 tab)"

definition put_u64 :: "u8 list \<Rightarrow> u64 \<Rightarrow> u8 list option" where
  "put_u64 tab val = put_bytes 8 tab (unat val)"

definition get_u32 :: "u8 list \<Rightarrow> u32 option" where
  "get_u32 tab = map_option word_of_nat (get_bytes 4 tab)"

definition get_i32 :: "u8 list \<Rightarrow> int option" where
  "get_i32 tab = map_option (\<lambda>v. sint (word_of_nat v :: u32)) (get_bytes 4 tab)"

definition put_u32 :: "u8 list \<Rightarrow> u32 \<Rightarrow> u8 list option" where
  "put_u32 tab val = put_bytes 4 tab (unat val)"

definition get_u16 :: "u8 list \<Rightarrow> u32 option" where
  "get_u16 tab = map_option word_of_nat (get_bytes 2 tab)"

definition get_i16 :: "u8 list \<Rightarrow> int option" where
  "get_i16 tab = map_option (\<lambda>v. sint (word_of_nat v :: u16)) (get_bytes 2 tab)"

definition put_u16 :: "u8 list \<Rightarrow> u16 \<Rightarrow> u8 list option" where
  "put_u16 tab val = put_bytes 2 tab (unat val)"

definition get_u8 :: "u8 list \<Rightarrow> u32 option" where
  "get_u8 tab = map_option ucast (rd tab 0)"

definition get_i8 :: "u8 list \<Rightarrow> int option" where
  "get_i8 tab = map_option sint (rd tab 0)"

definition put_u8 :: "u8 list \<Rightarrow> u8 \<Rightarrow> u8 list option" where
  "put_u8 tab val = wr tab 0 val"

lemma get_put_bytes:
  "put_bytes n tab v = Some tab1 \<Longrightarrow> get_bytes n tab1 = Some (v mod 256 ^ n)"
  by (auto simp: put_bytes_def get_bytes_def le_val_le_bytes split: if_splits)

lemma unat_mod_64: "unat (v :: u64) mod 256 ^ 8 = unat v"
  using unsigned_less [of v, where ?'a = nat] by simp

lemma unat_mod_32: "unat (v :: u32) mod 256 ^ 4 = unat v"
  using unsigned_less [of v, where ?'a = nat] by simp

lemma unat_mod_16: "unat (v :: u16) mod 256 ^ 2 = unat v"
  using unsigned_less [of v, where ?'a = nat] by simp

lemma get_put_u64: "put_u64 tab v = Some tab1 \<Longrightarrow> get_u64 tab1 = Some v"
  using get_put_bytes [of 8 tab "unat v" tab1] unat_mod_64 [of v]
  by (simp add: put_u64_def get_u64_def)

lemma get_put_u32: "put_u32 tab v = Some tab1 \<Longrightarrow> get_u32 tab1 = Some v"
  using get_put_bytes [of 4 tab "unat v" tab1] unat_mod_32 [of v]
  by (simp add: put_u32_def get_u32_def)

lemma get_put_u16: "put_u16 tab v = Some tab1 \<Longrightarrow> get_u16 tab1 = Some (ucast v)"
  using get_put_bytes [of 2 tab "unat v" tab1] unat_mod_16 [of v]
  by (simp add: put_u16_def get_u16_def)

section \<open>Byte order and digits\<close>

definition bswap16 :: "u16 \<Rightarrow> u16" where
  "bswap16 x = drop_bit 8 x OR push_bit 8 x"

definition bswap32 :: "u32 \<Rightarrow> u32" where
  "bswap32 v = drop_bit 24 (v AND 0xff000000) OR drop_bit 8 (v AND 0x00ff0000) OR
     push_bit 8 (v AND 0x0000ff00) OR push_bit 24 (v AND 0x000000ff)"

definition bswap64 :: "u64 \<Rightarrow> u64" where
  "bswap64 v = drop_bit 56 (v AND push_bit 56 0xff) OR drop_bit 40 (v AND push_bit 48 0xff) OR
     drop_bit 24 (v AND push_bit 40 0xff) OR drop_bit 8 (v AND push_bit 32 0xff) OR
     push_bit 8 (v AND push_bit 24 0xff) OR push_bit 24 (v AND push_bit 16 0xff) OR
     push_bit 40 (v AND push_bit 8 0xff) OR push_bit 56 (v AND 0xff)"

lemma bswap16_swap: "bswap16 (bswap16 v) = v"
proof (rule bit_word_eqI)
  fix n assume "n < LENGTH(16)"
  then show "bit (bswap16 (bswap16 v)) n = bit v n"
    by (cases "n < 8") (auto simp: bswap16_def bit_simps)
qed

lemma bswap32_swap: "bswap32 (bswap32 v) = v"
proof (rule bit_word_eqI)
  fix n assume "n < LENGTH(32)"
  then have "n \<in> set [0..<32]" by simp
  then have "n = 0 \<or> n = 1 \<or> n \<in> set [2..<32]" by (auto simp: numeral_2_eq_2 not_less_eq_eq)
  then show "bit (bswap32 (bswap32 v)) n = bit v n"
    apply (elim disjE)
      apply (simp add: bswap32_def bit_simps)
     apply (simp add: bswap32_def bit_simps)
    apply (simp add: upt_rec)
    apply (elim disjE)
    apply (simp_all add: bswap32_def bit_simps)
    done
qed

lemma bit_bswap64: "n < 64 \<Longrightarrow> bit (bswap64 v) n = bit v (8 * (7 - n div 8) + n mod 8)"
proof -
  have ff: "(0xff :: u64) = mask 8" by (simp add: mask_eq_exp_minus_1)
  assume n: "n < 64"
  define q where "q = n div 8"
  define r where "r = n mod 8"
  have nqr: "n = 8 * q + r" "r < 8" "q < 8" using n by (auto simp: q_def r_def)
  have "q = 0 \<or> q = 1 \<or> q = 2 \<or> q = 3 \<or> q = 4 \<or> q = 5 \<or> q = 6 \<or> q = 7" using nqr(3) by linarith
  then show "bit (bswap64 v) n = bit v (8 * (7 - n div 8) + n mod 8)"
    unfolding q_def [symmetric] r_def [symmetric] bswap64_def ff bit_or_iff bit_and_iff
      bit_drop_bit_eq bit_push_bit_iff bit_mask_iff o_def
    using nqr(1,2) n by (elim disjE) (simp_all add: bit_push_bit_iff bit_mask_iff)
qed

lemma bswap64_swap: "bswap64 (bswap64 v) = v"
proof (rule bit_word_eqI)
  fix n assume "n < LENGTH(64)"
  moreover from this have "8 * (7 - n div 8) + n mod 8 < 64" by simp
  moreover have "(8 * (7 - n div 8) + n mod 8) div 8 = 7 - n div 8" "(8 * (7 - n div 8) + n mod 8) mod 8 = n mod 8"
    by simp_all
  moreover have "8 * (7 - (7 - n div 8)) + n mod 8 = n" using \<open>n < LENGTH(64)\<close> by simp
  ultimately show "bit (bswap64 (bswap64 v)) n = bit v n" by (simp add: bit_bswap64)
qed

definition from_hex :: "nat \<Rightarrow> int" where
  "from_hex c =
     (if c \<ge> 0x30 \<and> c \<le> 0x39 then int c - 0x30
      else if c \<ge> 0x41 \<and> c \<le> 0x46 then int c - 0x41 + 10
      else if c \<ge> 0x61 \<and> c \<le> 0x66 then int c - 0x61 + 10
      else -1)"

lemma from_hex_range: "-1 \<le> from_hex c \<and> from_hex c < 16"
  by (auto simp: from_hex_def)

end
