(* ===== verification/Utf8.thy ===== *)
theory Utf8
  imports Prelude
begin

text \<open>
  The UTF-8 encoder and decoder of QuickJS's \<^verbatim>\<open>cutils.c\<close>: up to 31 bits in up to six bytes.
\<close>

section \<open>The code\<close>

text \<open>The expressions \<^verbatim>\<open>(c >> k) | m\<close> and \<^verbatim>\<open>((c >> k) & 0x3f) | 0x80\<close>, stored as a byte.\<close>

definition lead_byte :: "nat \<Rightarrow> u32 \<Rightarrow> u32 \<Rightarrow> u8" where
  "lead_byte k m c = ucast (drop_bit k c OR m)"

definition cont_byte :: "nat \<Rightarrow> u32 \<Rightarrow> u8" where
  "cont_byte k c = ucast ((drop_bit k c AND 0x3f) OR 0x80)"

text \<open>The bytes written to the buffer; none when the code does not fit 31 bits.\<close>

definition unicode_to_utf8 :: "u32 \<Rightarrow> u8 list" where
  "unicode_to_utf8 c =
     (if c < 0x80 then [ucast c]
      else if c < 0x800 then [lead_byte 6 0xc0 c, cont_byte 0 c]
      else if c < 0x10000 then [lead_byte 12 0xe0 c, cont_byte 6 c, cont_byte 0 c]
      else if c < 0x200000 then
        [lead_byte 18 0xf0 c, cont_byte 12 c, cont_byte 6 c, cont_byte 0 c]
      else if c < 0x4000000 then
        [lead_byte 24 0xf8 c, cont_byte 18 c, cont_byte 12 c, cont_byte 6 c, cont_byte 0 c]
      else if c < 0x80000000 then
        [lead_byte 30 0xfc c, cont_byte 24 c, cont_byte 18 c, cont_byte 12 c, cont_byte 6 c,
         cont_byte 0 c]
      else [])"

definition utf8_min_code :: "u32 list" where
  "utf8_min_code = [0x80, 0x800, 0x10000, 0x200000, 0x4000000]"

definition utf8_first_code_mask :: "u32 list" where
  "utf8_first_code_mask = [0x1f, 0xf, 0x7, 0x3, 0x1]"

text \<open>The number of bytes that follow a first byte; \<^const>\<open>None\<close> for the \<^verbatim>\<open>default\<close> case.\<close>

definition utf8_follow :: "u8 \<Rightarrow> nat option" where
  "utf8_follow b =
     (if 0xc0 \<le> b \<and> b \<le> 0xdf then Some 1
      else if 0xe0 \<le> b \<and> b \<le> 0xef then Some 2
      else if 0xf0 \<le> b \<and> b \<le> 0xf7 then Some 3
      else if 0xf8 \<le> b \<and> b \<le> 0xfb then Some 4
      else if 0xfc \<le> b \<and> b \<le> 0xfd then Some 5
      else None)"

text \<open>The loop over the bytes that follow. The outer \<^const>\<open>None\<close> is a read past the array, the
  inner one the result \<open>-1\<close>.\<close>

fun utf8_loop :: "nat \<Rightarrow> u32 \<Rightarrow> u8 list \<Rightarrow> (u32 \<times> u8 list) option option" where
  "utf8_loop 0 c p = Some (Some (c, p))"
| "utf8_loop (Suc n) c [] = None"
| "utf8_loop (Suc n) c (b # p) =
     (if b < 0x80 \<or> b \<ge> 0xc0 then Some None
      else utf8_loop n (push_bit 6 c OR (ucast b AND 0x3f)) p)"

definition unicode_from_utf8 :: "u8 list \<Rightarrow> int \<Rightarrow> (u32 \<times> u8 list) option option" where
  "unicode_from_utf8 p max_len = (case p of [] \<Rightarrow> None
   | b # q \<Rightarrow>
     (if b < 0x80 then Some (Some (ucast b, q))
      else case utf8_follow b of None \<Rightarrow> Some None
        | Some l \<Rightarrow>
          if int l > max_len - 1 then Some None
          else (case utf8_loop l (ucast b AND utf8_first_code_mask ! (l - 1)) q of
              None \<Rightarrow> None
            | Some None \<Rightarrow> Some None
            | Some (Some (c, r)) \<Rightarrow>
                if c < utf8_min_code ! (l - 1) then Some None else Some (Some (c, r)))))"

section \<open>Numeric values\<close>

lemma unat_cont_byte: "unat (cont_byte k c) = 128 + unat c div 2 ^ k mod 64"
proof -
  have "unat c div 2 ^ k mod 64 OR 128 = 128 + unat c div 2 ^ k mod 64"
    using or_high_bits [of "unat c div 2 ^ k mod 64" 7 1] by (simp add: or.commute)
  moreover have "unat ((drop_bit k c AND 0x3f) OR 0x80) = unat c div 2 ^ k mod 64 OR 128"
    by (simp only: unsigned_or_eq unsigned_and_eq unat_drop unsigned_numeral and_mod) (simp add: and_mod)
  ultimately show ?thesis
    by (simp add: cont_byte_def unsigned_ucast_eq take_bit_eq_mod)
qed

lemma unat_lead_byte:
  assumes "unat c div 2 ^ k < 2 ^ j" and "unat m = y * 2 ^ j" and "y * 2 ^ j + 2 ^ j \<le> 256"
  shows "unat (lead_byte k m c) = y * 2 ^ j + unat c div 2 ^ k"
proof -
  have "unat (drop_bit k c OR m) = y * 2 ^ j + unat c div 2 ^ k"
    using or_high_bits [OF assms(1), of y] unfolding unsigned_or_eq unat_drop assms(2)
    by (simp only: or.commute)
  then show ?thesis using assms(1,3)
    by (simp add: lead_byte_def unsigned_ucast_eq take_bit_eq_mod)
qed

text \<open>One turn of the loop, on values small enough not to lose bits.\<close>

lemma unat_shift_in:
  fixes c :: u32 and b :: u8
  assumes "unat c < 2 ^ 26"
  shows "unat (push_bit 6 c OR (ucast b AND 0x3f)) = unat c * 64 + unat b mod 64"
proof -
  have "unat b mod 64 < 2 ^ 6" by simp
  then have "unat c * 64 OR unat b mod 64 = unat c * 64 + unat b mod 64"
    using or_high_bits [of "unat b mod 64" 6 "unat c"] by simp
  moreover have "unat (push_bit 6 c) = unat c * 64"
    using assms unfolding unsigned_push_bit_eq by (simp add: push_bit_eq_mult take_bit_eq_mod)
  moreover have "unat (ucast b AND 0x3f :: u32) = unat b mod 64"
    using unsigned_less [of b, where ?'a = nat]
    by (simp add: unsigned_and_eq unsigned_ucast_eq take_bit_eq_mod and_mod)
  ultimately show ?thesis by (simp add: unsigned_or_eq)
qed

text \<open>The value the loop builds, as a number.\<close>

fun loop_val :: "nat \<Rightarrow> u8 list \<Rightarrow> nat" where
  "loop_val v [] = v"
| "loop_val v (b # bs) = loop_val (v * 64 + unat b mod 64) bs"

definition is_cont :: "u8 \<Rightarrow> bool" where
  "is_cont b \<longleftrightarrow> 128 \<le> unat b \<and> unat b < 192"

lemma utf8_loop_vals:
  "unat c < 2 ^ k \<Longrightarrow> k + 6 * n \<le> 32 \<Longrightarrow>
    utf8_loop n c p = Some (Some (c', r)) \<longleftrightarrow>
      (\<exists>bs. p = bs @ r \<and> length bs = n \<and> list_all is_cont bs \<and> unat c' = loop_val (unat c) bs)"
proof (induction n arbitrary: c k p)
  case 0
  then show ?case by (auto simp: word_unat_eq_iff)
next
  case (Suc n)
  show ?case
  proof (cases p)
    case Nil
    then show ?thesis by simp
  next
    case (Cons b q)
    let ?c = "push_bit 6 c OR (ucast b AND 0x3f)"
    have k: "k \<le> 26" using Suc.prems(2) by simp
    have "(2::nat) ^ k \<le> 2 ^ 26" by (rule power_increasing) (use k in auto)
    then have "unat c < 2 ^ 26" using Suc.prems(1) by linarith
    then have v: "unat ?c = unat c * 64 + unat b mod 64" by (rule unat_shift_in)
    have "unat ?c < 2 ^ (k + 6)"
      using Suc.prems(1) unfolding v power_add by simp
    then have IH: "utf8_loop n ?c q = Some (Some (c', r)) \<longleftrightarrow>
        (\<exists>bs. q = bs @ r \<and> length bs = n \<and> list_all is_cont bs \<and> unat c' = loop_val (unat ?c) bs)"
      using Suc.IH Suc.prems(2) by simp
    have "b < 0x80 \<or> b \<ge> 0xc0 \<longleftrightarrow> \<not> is_cont b"
      by (auto simp: is_cont_def word_less_nat_alt word_le_nat_alt)
    then show ?thesis
      unfolding Cons using IH v
      by (auto simp: Cons_eq_append_conv length_Suc_conv)
  qed
qed

section \<open>Encoding and decoding are inverse\<close>

text \<open>The \<open>n\<close> bytes that follow the first one.\<close>

fun conts :: "nat \<Rightarrow> u32 \<Rightarrow> u8 list" where
  "conts 0 c = []"
| "conts (Suc n) c = cont_byte (6 * n) c # conts n c"

lemma length_conts [simp]: "length (conts n c) = n"
  by (induction n) auto

lemma pow64: "(2 :: nat) ^ (6 * n) = 64 ^ n"
  by (simp add: power_mult)

lemma conts_are_cont: "list_all is_cont (conts n c)"
  by (induction n) (auto simp: is_cont_def unat_cont_byte)

lemma mod_64_128: "(128 + x) mod 64 = (x :: nat) mod 64"
  using mod_mult_self1 [of x 2 64] by (simp add: add.commute)

lemma div_64_Suc: "(x :: nat) div 64 ^ Suc n = x div 64 ^ n div 64"
  unfolding power_Suc2 by (rule div_mult2_eq)

lemma loop_val_conts: "loop_val (unat c div 64 ^ n) (conts n c) = unat c"
proof (induction n)
  case 0
  then show ?case by simp
next
  case (Suc n)
  have "unat c div 64 ^ Suc n = unat c div 64 ^ n div 64"
    by (rule div_64_Suc)
  then have "unat c div 64 ^ Suc n * 64 + unat c div 64 ^ n mod 64 = unat c div 64 ^ n"
    by (simp only: div_mult_mod_eq)
  then show ?case using Suc by (simp add: unat_cont_byte pow64 mod_64_128 add.commute)
qed

lemma loop_val_inv:
  "list_all is_cont bs \<Longrightarrow> loop_val v bs = unat c \<Longrightarrow>
    bs = conts (length bs) c \<and> v = unat c div 64 ^ length bs"
proof (induction bs arbitrary: v)
  case Nil
  then show ?case by simp
next
  case (Cons b bs)
  have IH: "bs = conts (length bs) c" "v * 64 + unat b mod 64 = unat c div 64 ^ length bs"
    using Cons.IH [of "v * 64 + unat b mod 64"] Cons.prems by auto
  have "128 \<le> unat b" "unat b < 192" using Cons.prems(1) by (simp_all add: is_cont_def)
  then obtain x where "unat b = 128 + x" "x < 64"
    by (intro that [of "unat b - 128"]) auto
  then have "unat b = 128 + unat b mod 64" by (simp add: mod_64_128)
  also have "unat b mod 64 = unat c div 64 ^ length bs mod 64"
    unfolding IH(2) [symmetric] by simp
  finally have "b = cont_byte (6 * length bs) c"
    by (simp add: word_unat_eq_iff unat_cont_byte pow64)
  moreover have "v = unat c div 64 ^ length bs div 64" unfolding IH(2) [symmetric] by simp
  then have "v = unat c div 64 ^ Suc (length bs)" unfolding div_64_Suc .
  ultimately show ?case using IH(1) by simp
qed

text \<open>A sequence of \<open>l\<close> bytes after the first, for codes below \<open>2 ^ (5 * l + 6)\<close>.\<close>

lemma le5_cases: "1 \<le> (l :: nat) \<Longrightarrow> l \<le> 5 \<Longrightarrow> l = 1 \<or> l = 2 \<or> l = 3 \<or> l = 4 \<or> l = 5"
  by linarith

lemma conts_numeral:
  "conts 1 c = [cont_byte 0 c]" "conts 2 c = [cont_byte 6 c, cont_byte 0 c]"
  "conts 3 c = [cont_byte 12 c, cont_byte 6 c, cont_byte 0 c]"
  "conts 4 c = [cont_byte 18 c, cont_byte 12 c, cont_byte 6 c, cont_byte 0 c]"
  "conts 5 c = [cont_byte 24 c, cont_byte 18 c, cont_byte 12 c, cont_byte 6 c, cont_byte 0 c]"
  by (simp_all add: eval_nat_numeral)

lemma utf8_follow_nat:
  "utf8_follow b =
     (if 192 \<le> unat b \<and> unat b \<le> 223 then Some 1
      else if 224 \<le> unat b \<and> unat b \<le> 239 then Some 2
      else if 240 \<le> unat b \<and> unat b \<le> 247 then Some 3
      else if 248 \<le> unat b \<and> unat b \<le> 251 then Some 4
      else if 252 \<le> unat b \<and> unat b \<le> 253 then Some 5
      else None)"
  by (simp add: utf8_follow_def word_le_nat_alt)

lemma utf8_follow_iff:
  "utf8_follow b = Some l \<longleftrightarrow> 1 \<le> l \<and> l \<le> 5 \<and> 256 - 2 ^ (7 - l) \<le> unat b \<and>
     unat b < 256 - 2 ^ (7 - l) + 2 ^ (6 - l)"
proof (cases "1 \<le> l \<and> l \<le> 5")
  case False
  then have "utf8_follow b \<noteq> Some l" by (auto simp: utf8_follow_nat split: if_splits)
  then show ?thesis using False by blast
next
  case True
  then have "l = 1 \<or> l = 2 \<or> l = 3 \<or> l = 4 \<or> l = 5" using le5_cases by blast
  then show ?thesis
    by (elim disjE) (auto simp: utf8_follow_nat)
qed

lemma unicode_to_utf8_class:
  assumes "1 \<le> l" "l \<le> 5" and "utf8_min_code ! (l - 1) \<le> c" and "unat c < 2 ^ (5 * l + 6)"
  obtains b where "unicode_to_utf8 c = b # conts l c"
    and "unat b = 256 - 2 ^ (7 - l) + unat c div 64 ^ l"
proof -
  have "l = 1 \<or> l = 2 \<or> l = 3 \<or> l = 4 \<or> l = 5" using le5_cases [OF assms(1,2)] .
  then show ?thesis
  proof (elim disjE)
    assume l: "l = 1"
    then show ?thesis
      using that [of "lead_byte 6 0xc0 c"] assms(3,4) unat_lead_byte [of c 6 5 "0xc0" 6]
      by (simp add: unicode_to_utf8_def utf8_min_code_def conts_numeral word_less_nat_alt
          word_le_nat_alt less_mult_imp_div_less)
  next
    assume l: "l = 2"
    then show ?thesis
      using that [of "lead_byte 12 0xe0 c"] assms(3,4) unat_lead_byte [of c 12 4 "0xe0" 14]
      by (simp add: unicode_to_utf8_def utf8_min_code_def conts_numeral word_less_nat_alt
          word_le_nat_alt less_mult_imp_div_less)
  next
    assume l: "l = 3"
    then show ?thesis
      using that [of "lead_byte 18 0xf0 c"] assms(3,4) unat_lead_byte [of c 18 3 "0xf0" 30]
      by (simp add: unicode_to_utf8_def utf8_min_code_def conts_numeral word_less_nat_alt
          word_le_nat_alt less_mult_imp_div_less)
  next
    assume l: "l = 4"
    then show ?thesis
      using that [of "lead_byte 24 0xf8 c"] assms(3,4) unat_lead_byte [of c 24 2 "0xf8" 62]
      by (simp add: unicode_to_utf8_def utf8_min_code_def conts_numeral word_less_nat_alt
          word_le_nat_alt less_mult_imp_div_less)
  next
    assume l: "l = 5"
    then show ?thesis
      using that [of "lead_byte 30 0xfc c"] assms(3,4) unat_lead_byte [of c 30 1 "0xfc" 126]
      by (simp add: unicode_to_utf8_def utf8_min_code_def conts_numeral word_less_nat_alt
          word_le_nat_alt less_mult_imp_div_less)
  qed
qed

lemma from_utf8_multi:
  assumes "utf8_follow b = Some l"
  shows "unicode_from_utf8 (b # q) n = Some (Some (c, r)) \<longleftrightarrow> int l \<le> n - 1 \<and>
    utf8_min_code ! (l - 1) \<le> c \<and>
    (\<exists>bs. q = bs @ r \<and> length bs = l \<and> list_all is_cont bs \<and> unat c = loop_val (unat b mod 2 ^ (6 - l)) bs)"
proof -
  let ?c0 = "ucast b AND utf8_first_code_mask ! (l - 1) :: u32"
  have l: "1 \<le> l" "l \<le> 5" "192 \<le> unat b"
    using assms by (auto simp: utf8_follow_def word_le_nat_alt split: if_splits)
  have b8: "\<not> b < 0x80" using l(3) by (simp add: word_less_nat_alt)
  have cases: "l = 1 \<or> l = 2 \<or> l = 3 \<or> l = 4 \<or> l = 5" using le5_cases [OF l(1,2)] .
  have c0: "unat ?c0 = unat b mod 2 ^ (6 - l)"
    using cases unsigned_less [of b, where ?'a = nat]
    by (elim disjE) (simp_all add: utf8_first_code_mask_def unsigned_and_eq unsigned_ucast_eq
        take_bit_eq_mod and_mod)
  then have "unat ?c0 < 2 ^ (6 - l)" by simp
  moreover have "6 - l + 6 * l \<le> 32" using cases by (elim disjE) simp_all
  ultimately have loop: "utf8_loop l ?c0 q = Some (Some (c', r')) \<longleftrightarrow>
      (\<exists>bs. q = bs @ r' \<and> length bs = l \<and> list_all is_cont bs \<and>
        unat c' = loop_val (unat b mod 2 ^ (6 - l)) bs)" for c' r'
    using utf8_loop_vals [of ?c0 "6 - l" l q c' r'] c0 by simp
  have "unicode_from_utf8 (b # q) n = Some (Some (c, r)) \<longleftrightarrow> int l \<le> n - 1 \<and>
      utf8_min_code ! (l - 1) \<le> c \<and> utf8_loop l ?c0 q = Some (Some (c, r))"
    using assms b8 by (auto simp: unicode_from_utf8_def not_less split: option.splits)
  then show ?thesis using loop by simp
qed

lemma first_byte_mod:
  assumes "1 \<le> l" "l \<le> 5" and "y < 2 ^ (6 - l)"
  shows "(256 - 2 ^ (7 - l) + y) mod 2 ^ (6 - l) = (y :: nat)"
proof -
  consider "l = 5" | "l = 1 \<or> l = 2 \<or> l = 3 \<or> l = 4" using le5_cases [OF assms(1,2)] by blast
  then show ?thesis
  proof cases
    case 1
    then have "y = 0 \<or> y = 1" using assms(3) by auto
    then show ?thesis using 1 by auto
  next
    case 2
    then show ?thesis
      using mod_mult_self1 [of y 6 32] mod_mult_self1 [of y 14 16] mod_mult_self1 [of y 30 8]
        mod_mult_self1 [of y 62 4] assms(3)
      by (elim disjE) (simp_all add: add.commute)
  qed
qed

lemma class_bound: "1 \<le> l \<Longrightarrow> l \<le> 5 \<Longrightarrow> v div 64 ^ l < 2 ^ (6 - l) \<longleftrightarrow> v < (2 :: nat) ^ (5 * l + 6)"
proof -
  assume l: "1 \<le> l" "l \<le> 5"
  have "(2 :: nat) ^ (5 * l + 6) = 2 ^ (6 - l) * 64 ^ l"
    using l by (simp flip: pow64 power_add)
  then show ?thesis by (simp add: less_mult_imp_div_less div_less_iff_less_mult)
qed

lemma class_exists:
  assumes "0x80 \<le> unat c" and "unat c < 2 ^ 31"
  obtains l where "1 \<le> l" "l \<le> 5" "utf8_min_code ! (l - 1) \<le> c" "unat c < 2 ^ (5 * l + 6)"
proof -
  consider "unat c < 0x800" | "0x800 \<le> unat c" "unat c < 0x10000"
    | "0x10000 \<le> unat c" "unat c < 0x200000" | "0x200000 \<le> unat c" "unat c < 0x4000000"
    | "0x4000000 \<le> unat c" by linarith
  then show ?thesis
    using assms that [of 1] that [of 2] that [of 3] that [of 4] that [of 5]
    by cases (simp_all add: utf8_min_code_def word_le_nat_alt)
qed

lemma to_utf8_ascii: "c < 0x80 \<Longrightarrow> unicode_to_utf8 c = [ucast c]"
  by (simp add: unicode_to_utf8_def)

lemma from_utf8_ascii:
  "b < 0x80 \<Longrightarrow> unicode_from_utf8 (b # q) n = Some (Some (ucast b, q))"
  by (simp add: unicode_from_utf8_def)

text \<open>The decoder accepts exactly what the encoder produces: every code of at most 31 bits has
  one encoding, and nothing else is decoded.\<close>

lemma unicode_from_utf8_iff:
  assumes n: "1 \<le> n"
  shows "unicode_from_utf8 p n = Some (Some (c, r)) \<longleftrightarrow> unat c < 2 ^ 31 \<and>
    p = unicode_to_utf8 c @ r \<and> int (length (unicode_to_utf8 c)) \<le> n"
    (is "?L \<longleftrightarrow> ?R")
proof
  assume L: ?L
  then obtain b q where p: "p = b # q" by (cases p) (auto simp: unicode_from_utf8_def)
  show ?R
  proof (cases "b < 0x80")
    case True
    then have c: "c = ucast b" "r = q" using L p by (auto simp: from_utf8_ascii)
    have "unat b < 128" using True by (simp add: word_less_nat_alt)
    then have u: "unat c = unat b"
      unfolding c(1) unsigned_ucast_eq by (intro take_bit_nat_eq_self) simp
    have "take_bit 8 (unat c) = unat b"
      unfolding u by (rule take_bit_nat_eq_self) (use \<open>unat b < 128\<close> in simp)
    then have "ucast c = b" unfolding word_unat_eq_iff unsigned_ucast_eq by simp
    moreover have "c < 0x80" "unat c < 2 ^ 31"
      using u \<open>unat b < 128\<close> by (simp_all add: word_less_nat_alt)
    ultimately show ?thesis using p c n by (simp add: to_utf8_ascii)
  next
    case False
    then obtain l where l: "utf8_follow b = Some l"
      using L p by (auto simp: unicode_from_utf8_def split: option.splits)
    then have range: "1 \<le> l" "l \<le> 5" "256 - 2 ^ (7 - l) \<le> unat b"
        "unat b < 256 - 2 ^ (7 - l) + 2 ^ (6 - l)"
      by (simp_all add: utf8_follow_iff)
    obtain bs where bs: "int l \<le> n - 1" "utf8_min_code ! (l - 1) \<le> c" "q = bs @ r" "length bs = l"
        "list_all is_cont bs" "unat c = loop_val (unat b mod 2 ^ (6 - l)) bs"
      using L unfolding p from_utf8_multi [OF l] by blast
    define y where "y = unat b - (256 - 2 ^ (7 - l))"
    have y: "unat b = 256 - 2 ^ (7 - l) + y" "y < 2 ^ (6 - l)"
      using range(3,4) by (simp_all add: y_def)
    have "bs = conts l c" and v: "y = unat c div 64 ^ l"
      using loop_val_inv [OF bs(5) bs(6) [symmetric]] bs(4) first_byte_mod [OF range(1,2) y(2)]
      by (simp_all add: y(1))
    moreover have small: "unat c < 2 ^ (5 * l + 6)" using y(2) v class_bound [OF range(1,2)] by simp
    then obtain b' where b': "unicode_to_utf8 c = b' # conts l c"
        "unat b' = 256 - 2 ^ (7 - l) + unat c div 64 ^ l"
      using unicode_to_utf8_class [OF range(1,2) bs(2)] by blast
    moreover have "b' = b" using b'(2) y(1) v by (simp add: word_unat_eq_iff)
    moreover have "(2 :: nat) ^ (5 * l + 6) \<le> 2 ^ 31" using range(2) by (intro power_increasing) auto
    then have "unat c < 2 ^ 31" using small by linarith
    ultimately show ?thesis using p bs(1,3) by simp
  qed
next
  assume R: ?R
  show ?L
  proof (cases "c < 0x80")
    case True
    then have "unat c < 128" by (simp add: word_less_nat_alt)
    then have u: "unat (ucast c :: u8) = unat c"
      unfolding unsigned_ucast_eq by (intro take_bit_nat_eq_self) simp
    have "unat (ucast (ucast c :: u8) :: u32) = unat (ucast c :: u8)"
      unfolding unsigned_ucast_eq [of "ucast c :: u8"]
      by (rule take_bit_nat_eq_self) (use u \<open>unat c < 128\<close> in simp)
    then have again: "(ucast (ucast c :: u8) :: u32) = c" by (simp only: word_unat_eq_iff u)
    have "(ucast c :: u8) < 0x80" using u \<open>unat c < 128\<close> by (simp add: word_less_nat_alt)
    then show ?thesis using R True again
      by (simp add: to_utf8_ascii from_utf8_ascii)
  next
    case False
    then have "0x80 \<le> unat c" by (simp add: word_less_nat_alt)
    then obtain l where l: "1 \<le> l" "l \<le> 5" "utf8_min_code ! (l - 1) \<le> c" "unat c < 2 ^ (5 * l + 6)"
      using class_exists [of c] R by blast
    obtain b where b: "unicode_to_utf8 c = b # conts l c"
        "unat b = 256 - 2 ^ (7 - l) + unat c div 64 ^ l"
      using unicode_to_utf8_class [OF l] by blast
    have lt: "unat c div 64 ^ l < 2 ^ (6 - l)" using class_bound [OF l(1,2)] l(4) by simp
    then have f: "utf8_follow b = Some l" using l(1,2) b(2) by (simp add: utf8_follow_iff)
    have "unat b mod 2 ^ (6 - l) = unat c div 64 ^ l"
      unfolding b(2) by (rule first_byte_mod [OF l(1,2) lt])
    then have "unat c = loop_val (unat b mod 2 ^ (6 - l)) (conts l c)" by (simp add: loop_val_conts)
    then show ?thesis
      using R l(3) conts_are_cont [of l c] unfolding b(1) append_Cons from_utf8_multi [OF f]
      by (auto simp: from_utf8_multi [OF f])
  qed
qed

end
