(* ===== verification/Dyn_Buf.thy ===== *)
theory Dyn_Buf
  imports Prelude
begin

text \<open>
  The growing byte buffer of QuickJS's \<^verbatim>\<open>cutils.c\<close>. The record is \<^verbatim>\<open>struct DynBuf\<close>; the allocation
  function it holds is a parameter with a state of its own (the \<^verbatim>\<open>opaque\<close> pointer), and may fail at
  any call. An access outside the allocated block, a copy between overlapping ranges and a call of
  a null function are \<^const>\<open>None\<close>. The buffer refines the list of the bytes written to it.
\<close>

section \<open>The buffer\<close>

text \<open>\<^verbatim>\<open>realloc_func(opaque, ptr, size)\<close>: the new state, and the new block or \<^verbatim>\<open>NULL\<close>.\<close>

type_synonym 'h realloc_fn = "'h \<Rightarrow> u8 list option \<Rightarrow> u64 \<Rightarrow> 'h \<times> u8 list option"

record 'h dynbuf =
  db_buf :: "u8 list option"
  db_size :: u64
  db_allocated_size :: u64
  db_error :: bool
  db_realloc_func :: "'h realloc_fn option"
  db_opaque :: 'h

text \<open>\<^verbatim>\<open>realloc\<close> as the C standard documents it: a new block has the size asked for and begins
  with the contents of the old one.\<close>

definition lawful_realloc :: "'h realloc_fn \<Rightarrow> bool" where
  "lawful_realloc f \<longleftrightarrow> (\<forall>h b n h1 b1. n \<noteq> 0 \<longrightarrow> f h b n = (h1, Some b1) \<longrightarrow>
     length b1 = unat n \<and>
     (\<forall>old. b = Some old \<longrightarrow> take (min (unat n) (length old)) b1 = take (unat n) old))"

text \<open>\<^verbatim>\<open>memset\<close> to zero followed by the two assignments; \<open>libc_realloc\<close> is \<^verbatim>\<open>dbuf_default_realloc\<close>,
  which calls the library's \<^verbatim>\<open>realloc\<close>.\<close>

definition dbuf_init2 :: "'h realloc_fn \<Rightarrow> 'h \<Rightarrow> 'h realloc_fn option \<Rightarrow> 'h dynbuf" where
  "dbuf_init2 libc_realloc opq f = \<lparr>db_buf = None, db_size = 0, db_allocated_size = 0, db_error = False,
     db_realloc_func = Some (case f of None \<Rightarrow> libc_realloc | Some g \<Rightarrow> g), db_opaque = opq\<rparr>"

definition dbuf_init :: "'h realloc_fn \<Rightarrow> 'h \<Rightarrow> 'h dynbuf" where
  "dbuf_init libc_realloc null = dbuf_init2 libc_realloc null None"

definition dbuf_realloc :: "'h dynbuf \<Rightarrow> u64 \<Rightarrow> ('h dynbuf \<times> int) option" where
  "dbuf_realloc s new_size =
     (if new_size > db_allocated_size s then
        if db_error s then Some (s, -1)
        else do {
          let size = db_allocated_size s * 3 div 2;
          let new_size = (if size > new_size then size else new_size);
          f \<leftarrow> db_realloc_func s;
          (case f (db_opaque s) (db_buf s) new_size of
             (h, None) \<Rightarrow> Some (s\<lparr>db_opaque := h, db_error := True\<rparr>, -1)
           | (h, Some b) \<Rightarrow> Some (s\<lparr>db_opaque := h, db_buf := Some b,
                                     db_allocated_size := new_size\<rparr>, 0))
        }
      else Some (s, 0))"

text \<open>\<^verbatim>\<open>memcpy(buf + offset, data, len)\<close>\<close>

definition store_at :: "u8 list option \<Rightarrow> nat \<Rightarrow> u8 list \<Rightarrow> u8 list option option" where
  "store_at buf offset data =
     (if data = [] then Some buf
      else case buf of None \<Rightarrow> None
      | Some b \<Rightarrow> if offset + length data \<le> length b
                 then Some (Some (take offset b @ data @ drop (offset + length data) b))
                 else None)"

text \<open>The bytes \<open>data\<close> are an object outside the buffer; \<open>len\<close> of them are copied.\<close>

definition source :: "u8 list \<Rightarrow> u64 \<Rightarrow> u8 list option" where
  "source data len = (if unat len \<le> length data then Some (take (unat len) data) else None)"

definition dbuf_write :: "'h dynbuf \<Rightarrow> u64 \<Rightarrow> u8 list \<Rightarrow> u64 \<Rightarrow> ('h dynbuf \<times> int) option" where
  "dbuf_write s offset data len = do {
     let end' = offset + len;
     (s1, r) \<leftarrow> dbuf_realloc s end';
     if r \<noteq> 0 then Some (s1, -1)
     else do {
       d \<leftarrow> source data len;
       b \<leftarrow> store_at (db_buf s1) (unat offset) d;
       let s2 = s1\<lparr>db_buf := b\<rparr>;
       Some (if end' > db_size s2 then s2\<lparr>db_size := end'\<rparr> else s2, 0)
     }
   }"

definition dbuf_put :: "'h dynbuf \<Rightarrow> u8 list \<Rightarrow> u64 \<Rightarrow> ('h dynbuf \<times> int) option" where
  "dbuf_put s data len = do {
     (s1, r) \<leftarrow> (if db_size s + len > db_allocated_size s then dbuf_realloc s (db_size s + len)
                 else Some (s, 0));
     if r \<noteq> 0 then Some (s1, -1)
     else do {
       d \<leftarrow> source data len;
       b \<leftarrow> store_at (db_buf s1) (unat (db_size s1)) d;
       Some (s1\<lparr>db_buf := b, db_size := db_size s1 + len\<rparr>, 0)
     }
   }"

text \<open>The bytes of the buffer itself, from \<open>offset\<close>; they must not overlap the place they are
  copied to.\<close>

definition own_bytes :: "u8 list option \<Rightarrow> nat \<Rightarrow> nat \<Rightarrow> nat \<Rightarrow> u8 list option" where
  "own_bytes buf offset len dst =
     (if len = 0 then Some []
      else case buf of None \<Rightarrow> None
      | Some b \<Rightarrow> if offset + len \<le> length b \<and> (offset + len \<le> dst \<or> dst + len \<le> offset)
                 then Some (take len (drop offset b)) else None)"

definition dbuf_put_self :: "'h dynbuf \<Rightarrow> u64 \<Rightarrow> u64 \<Rightarrow> ('h dynbuf \<times> int) option" where
  "dbuf_put_self s offset len = do {
     (s1, r) \<leftarrow> (if db_size s + len > db_allocated_size s then dbuf_realloc s (db_size s + len)
                 else Some (s, 0));
     if r \<noteq> 0 then Some (s1, -1)
     else do {
       d \<leftarrow> own_bytes (db_buf s1) (unat offset) (unat len) (unat (db_size s1));
       b \<leftarrow> store_at (db_buf s1) (unat (db_size s1)) d;
       Some (s1\<lparr>db_buf := b, db_size := db_size s1 + len\<rparr>, 0)
     }
   }"

definition dbuf_putc :: "'h dynbuf \<Rightarrow> u8 \<Rightarrow> ('h dynbuf \<times> int) option" where
  "dbuf_putc s c = dbuf_put s [c] 1"

definition dbuf_put_u16 :: "'h dynbuf \<Rightarrow> u16 \<Rightarrow> ('h dynbuf \<times> int) option" where
  "dbuf_put_u16 s v = dbuf_put s (le_bytes 2 (unat v)) 2"

definition dbuf_put_u32 :: "'h dynbuf \<Rightarrow> u32 \<Rightarrow> ('h dynbuf \<times> int) option" where
  "dbuf_put_u32 s v = dbuf_put s (le_bytes 4 (unat v)) 4"

definition dbuf_put_u64 :: "'h dynbuf \<Rightarrow> u64 \<Rightarrow> ('h dynbuf \<times> int) option" where
  "dbuf_put_u64 s v = dbuf_put s (le_bytes 8 (unat v)) 8"

text \<open>A C string as its bytes up to the terminator.\<close>

definition dbuf_putstr :: "'h dynbuf \<Rightarrow> u8 list \<Rightarrow> ('h dynbuf \<times> int) option" where
  "dbuf_putstr s str =
     (let t = takeWhile (\<lambda>c. c \<noteq> 0) str
      in if t = str then None else dbuf_put s str (word_of_nat (length t)))"

text \<open>\<^verbatim>\<open>vsnprintf\<close> into \<open>buf\<close>: the text cut to fit and terminated, and the length of the whole
  text; \<open>-1\<close> when \<open>out\<close> is \<^const>\<open>None\<close>, an encoding error, or when the length is no \<^verbatim>\<open>int\<close>.\<close>

definition print_bytes :: "u8 list \<Rightarrow> u8 list option \<Rightarrow> u8 list \<times> int" where
  "print_bytes buf out = (case out of
     None \<Rightarrow> (buf, -1)
   | Some text \<Rightarrow> (if buf = [] then []
        else (let k = min (length text) (length buf - 1) in take k text @ 0 # drop (k + 1) buf),
       if length text < 2 ^ 31 then int (length text) else -1))"

definition PRINT_BUF :: nat where
  "PRINT_BUF = 128"

definition dbuf_print_grown :: "'h dynbuf \<Rightarrow> u8 list option \<Rightarrow> u64 \<Rightarrow> ('h dynbuf \<times> int) option" where
  "dbuf_print_grown s out len = do {
     (s1, r) \<leftarrow> dbuf_realloc s (db_size s + len + 1);
     if r \<noteq> 0 then Some (s1, -1)
     else do {
       let room = unat (db_allocated_size s1 - db_size s1);
       b \<leftarrow> (case db_buf s1 of
           None \<Rightarrow> if room = 0 then Some None else None
         | Some b \<Rightarrow> if unat (db_size s1) + room \<le> length b
             then Some (Some (take (unat (db_size s1)) b
                    @ fst (print_bytes (take room (drop (unat (db_size s1)) b)) out)
                    @ drop (unat (db_size s1) + room) b))
             else None);
       Some (s1\<lparr>db_buf := b, db_size := db_size s1 + len\<rparr>, 0)
     }
   }"

text \<open>\<open>stack\<close> is the uninitialised array \<^verbatim>\<open>buf[128]\<close>. The comparison with \<^verbatim>\<open>sizeof\<close> is unsigned, so
  that a negative length takes the slow path.\<close>

definition dbuf_printf :: "u8 list \<Rightarrow> 'h dynbuf \<Rightarrow> u8 list option \<Rightarrow> ('h dynbuf \<times> int) option" where
  "dbuf_printf stack s out =
     (let (buf, n) = print_bytes stack out; len = (word_of_int n :: u64) in
      if unat len < PRINT_BUF then dbuf_put s buf len else dbuf_print_grown s out len)"

text \<open>\<^verbatim>\<open>dbuf_free\<close>: the block is given back and every field is zeroed (\<open>null\<close> is the state a null
  pointer stands for); the state of the allocator after the call is returned beside the buffer.\<close>

definition dbuf_free :: "'h \<Rightarrow> 'h dynbuf \<Rightarrow> ('h dynbuf \<times> 'h) option" where
  "dbuf_free null s = do {
     h \<leftarrow> (case db_buf s of None \<Rightarrow> Some (db_opaque s)
          | Some b \<Rightarrow> map_option (\<lambda>f. fst (f (db_opaque s) (Some b) 0)) (db_realloc_func s));
     Some (\<lparr>db_buf = None, db_size = 0, db_allocated_size = 0, db_error = False,
            db_realloc_func = None, db_opaque = null\<rparr>, h)
   }"

definition dbuf_error :: "'h dynbuf \<Rightarrow> bool" where
  "dbuf_error s = db_error s"

definition dbuf_set_error :: "'h dynbuf \<Rightarrow> 'h dynbuf" where
  "dbuf_set_error s = s\<lparr>db_error := True\<rparr>"

section \<open>The list of bytes it stands for\<close>

definition buf_list :: "u8 list option \<Rightarrow> u8 list" where
  "buf_list b = (case b of None \<Rightarrow> [] | Some xs \<Rightarrow> xs)"

definition dbuf_bytes :: "'h dynbuf \<Rightarrow> u8 list" where
  "dbuf_bytes s = take (unat (db_size s)) (buf_list (db_buf s))"

definition dbuf_ok :: "'h dynbuf \<Rightarrow> bool" where
  "dbuf_ok s \<longleftrightarrow> length (buf_list (db_buf s)) = unat (db_allocated_size s) \<and>
     db_size s \<le> db_allocated_size s \<and>
     (\<exists>f. db_realloc_func s = Some f \<and> lawful_realloc f)"

lemma dbuf_ok_length: "dbuf_ok s \<Longrightarrow> length (dbuf_bytes s) = unat (db_size s)"
  by (simp add: dbuf_ok_def dbuf_bytes_def word_le_nat_alt)

lemma dbuf_ok_size: "dbuf_ok s \<Longrightarrow> unat (db_size s) \<le> length (buf_list (db_buf s))"
  by (simp add: dbuf_ok_def word_le_nat_alt)

lemma dbuf_init_ok:
  "lawful_realloc libc \<Longrightarrow> pred_option lawful_realloc f \<Longrightarrow>
    dbuf_ok (dbuf_init2 libc opq f) \<and> dbuf_bytes (dbuf_init2 libc opq f) = [] \<and>
    \<not> db_error (dbuf_init2 libc opq f)"
  by (auto simp: dbuf_init2_def dbuf_ok_def dbuf_bytes_def buf_list_def split: option.splits)

lemma lawful_reallocD:
  assumes "lawful_realloc f" and "n \<noteq> 0" and "f h b n = (h1, Some b1)"
  shows "length b1 = unat n" and "take (min (unat n) (length (buf_list b))) b1 = take (unat n) (buf_list b)"
  using assms by (auto simp: lawful_realloc_def buf_list_def split: option.splits)

lemma take_prefix_eq:
  assumes "k \<le> min m (length ys)" and "take (min m (length ys)) xs = take m ys"
  shows "take k xs = take k ys"
proof -
  have "take k xs = take k (take (min m (length ys)) xs)" using assms(1) by (simp add: min_absorb1)
  also have "\<dots> = take k ys" using assms by (simp add: min_absorb1)
  finally show ?thesis .
qed

text \<open>Growing keeps the contents; on failure nothing but the flag changes.\<close>

lemma dbuf_realloc_cases:
  assumes "dbuf_ok s"
  obtains s1 where "dbuf_realloc s n = Some (s1, 0)" "dbuf_ok s1" "dbuf_bytes s1 = dbuf_bytes s"
      "db_size s1 = db_size s" "n \<le> db_allocated_size s1" "db_error s1 = db_error s"
  | s1 where "dbuf_realloc s n = Some (s1, -1)" "dbuf_ok s1" "dbuf_bytes s1 = dbuf_bytes s"
      "db_error s1"
proof (cases "n > db_allocated_size s \<and> \<not> db_error s")
  case False
  then consider "n \<le> db_allocated_size s" | "db_allocated_size s < n" "db_error s"
    by (force simp: not_less)
  then show ?thesis
  proof cases
    case 1
    then show ?thesis using assms by (intro that(1) [of s]) (simp_all add: dbuf_realloc_def leD)
  next
    case 2
    then show ?thesis using assms by (intro that(2) [of s]) (simp_all add: dbuf_realloc_def)
  qed
next
  case True
  define m where "m = (if db_allocated_size s * 3 div 2 > n then db_allocated_size s * 3 div 2 else n)"
  have m: "n \<le> m" "m \<noteq> 0" using True by (auto simp: m_def)
  obtain f where f: "db_realloc_func s = Some f" "lawful_realloc f" using assms by (auto simp: dbuf_ok_def)
  obtain h r where c: "f (db_opaque s) (db_buf s) m = (h, r)" by (cases "f (db_opaque s) (db_buf s) m")
  have step: "dbuf_realloc s n = (case r of
      None \<Rightarrow> Some (s\<lparr>db_opaque := h, db_error := True\<rparr>, -1)
    | Some b \<Rightarrow> Some (s\<lparr>db_opaque := h, db_buf := Some b, db_allocated_size := m\<rparr>, 0))"
    using True f(1) c by (simp add: dbuf_realloc_def m_def [symmetric] Let_def)
  show ?thesis
  proof (cases r)
    case None
    then show ?thesis
      using step assms by (intro that(2) [of "s\<lparr>db_opaque := h, db_error := True\<rparr>"])
        (simp_all add: dbuf_ok_def dbuf_bytes_def)
  next
    case (Some b)
    have len: "length b = unat m" using lawful_reallocD(1) [OF f(2) m(2)] c Some by simp
    have "unat (db_size s) \<le> min (unat m) (length (buf_list (db_buf s)))"
      using dbuf_ok_size [OF assms] assms True m(1)
      by (auto simp: dbuf_ok_def word_le_nat_alt word_less_nat_alt)
    moreover have "take (min (unat m) (length (buf_list (db_buf s)))) b =
        take (unat m) (buf_list (db_buf s))"
      using lawful_reallocD(2) [OF f(2) m(2)] c Some by simp
    ultimately have prefix: "take (unat (db_size s)) b = take (unat (db_size s)) (buf_list (db_buf s))"
      by (rule take_prefix_eq)
    have "db_size s \<le> m" using assms True m(1) unfolding dbuf_ok_def by (meson order.trans order_less_imp_le)
    define s1 where "s1 = s\<lparr>db_opaque := h, db_buf := Some b, db_allocated_size := m\<rparr>"
    have "dbuf_realloc s n = Some (s1, 0)" using step by (simp add: Some s1_def)
    moreover have "dbuf_ok s1" using assms len \<open>db_size s \<le> m\<close>
      by (auto simp: dbuf_ok_def s1_def buf_list_def)
    moreover have "dbuf_bytes s1 = dbuf_bytes s"
      using prefix by (simp add: dbuf_bytes_def s1_def buf_list_def)
    ultimately show ?thesis using m(1) by (intro that(1) [of s1]) (simp_all add: s1_def)
  qed
qed

text \<open>The common part of the functions that append: make room, then copy.\<close>

definition append_bytes :: "'h dynbuf \<Rightarrow> u8 list \<Rightarrow> ('h dynbuf \<times> int) option" where
  "append_bytes s d = do {
     let len = (word_of_nat (length d) :: u64);
     (s1, r) \<leftarrow> (if db_size s + len > db_allocated_size s then dbuf_realloc s (db_size s + len)
                 else Some (s, 0));
     if r \<noteq> 0 then Some (s1, -1)
     else do {
       b \<leftarrow> store_at (db_buf s1) (unat (db_size s1)) d;
       Some (s1\<lparr>db_buf := b, db_size := db_size s1 + len\<rparr>, 0)
     }
   }"

lemma store_at_end:
  assumes "dbuf_ok s" and "unat (db_size s) + length d \<le> unat (db_allocated_size s)"
  shows "\<exists>b. store_at (db_buf s) (unat (db_size s)) d = Some b \<and>
    length (buf_list b) = length (buf_list (db_buf s)) \<and>
    take (unat (db_size s) + length d) (buf_list b) = dbuf_bytes s @ d"
  using assms dbuf_ok_length [OF assms(1)]
  by (auto simp: store_at_def dbuf_ok_def dbuf_bytes_def buf_list_def split: option.splits)

lemma append_bytes_cases:
  assumes ok: "dbuf_ok s" and fits: "unat (db_size s) + length d < 2 ^ 64"
  obtains s1 where "append_bytes s d = Some (s1, 0)" "dbuf_ok s1"
      "dbuf_bytes s1 = dbuf_bytes s @ d" "db_error s1 = db_error s"
  | s1 where "append_bytes s d = Some (s1, -1)" "dbuf_ok s1" "dbuf_bytes s1 = dbuf_bytes s"
      "db_error s1"
proof -
  note appended = that(1) and failed = that(2)
  define len where "len = (word_of_nat (length d) :: u64)"
  have len: "unat len = length d" using fits by (simp add: len_def unat_of_nat)
  have sum: "unat (db_size s + len) = unat (db_size s) + length d"
    using fits by (simp add: unat_word_ariths(1) len)
  have room: thesis if s1: "(if db_size s + len > db_allocated_size s
        then dbuf_realloc s (db_size s + len) else Some (s, 0)) = Some (s1, 0)"
      "dbuf_ok s1" "dbuf_bytes s1 = dbuf_bytes s" "db_size s1 = db_size s"
      "db_size s + len \<le> db_allocated_size s1" "db_error s1 = db_error s" for s1
  proof -
    have "unat (db_size s1) + length d \<le> unat (db_allocated_size s1)"
      using s1(4,5) sum by (simp add: word_le_nat_alt)
    then obtain b where b: "store_at (db_buf s1) (unat (db_size s1)) d = Some b"
        "length (buf_list b) = length (buf_list (db_buf s1))"
        "take (unat (db_size s1) + length d) (buf_list b) = dbuf_bytes s1 @ d"
      using store_at_end [OF s1(2)] by blast
    define s2 where "s2 = s1\<lparr>db_buf := b, db_size := db_size s1 + len\<rparr>"
    have "append_bytes s d = Some (s2, 0)"
      unfolding append_bytes_def Let_def len_def [symmetric] s1(1) by (simp add: b(1) s2_def)
    moreover have "dbuf_ok s2" using s1(2,4,5) b(2) by (auto simp: dbuf_ok_def s2_def)
    moreover have "dbuf_bytes s2 = dbuf_bytes s @ d"
      using b(3) s1(3,4) sum by (simp add: dbuf_bytes_def s2_def)
    moreover have "db_error s2 = db_error s" using s1(6) by (simp add: s2_def)
    ultimately show thesis by (rule appended)
  qed
  show thesis
  proof (cases "db_size s + len > db_allocated_size s")
    case False
    then show thesis using room [of s] ok by (simp add: not_less leD)
  next
    case True
    show thesis
    proof (rule dbuf_realloc_cases [OF ok, of "db_size s + len"])
      fix s1
      assume "dbuf_realloc s (db_size s + len) = Some (s1, 0)" "dbuf_ok s1"
        "dbuf_bytes s1 = dbuf_bytes s" "db_size s1 = db_size s"
        "db_size s + len \<le> db_allocated_size s1" "db_error s1 = db_error s"
      then show thesis using room [of s1] True by simp
    next
      fix s1
      assume "dbuf_realloc s (db_size s + len) = Some (s1, -1)" "dbuf_ok s1"
        "dbuf_bytes s1 = dbuf_bytes s" "db_error s1"
      then show thesis using failed [of s1] True
        by (simp add: append_bytes_def Let_def len_def [symmetric])
    qed
  qed
qed

text \<open>\<^verbatim>\<open>dbuf_put\<close> is that function when its source holds the bytes it copies.\<close>

lemma dbuf_put_append:
  assumes "unat len \<le> length data"
  shows "dbuf_put s data len = append_bytes s (take (unat len) data)"
  using assms by (simp add: dbuf_put_def append_bytes_def source_def Let_def min_absorb2 cong: if_cong)

lemma dbuf_put_all: "length d < 2 ^ 64 \<Longrightarrow> dbuf_put s d (word_of_nat (length d)) = append_bytes s d"
  by (simp add: dbuf_put_append unat_of_nat)

lemma dbuf_putc_append: "dbuf_putc s c = append_bytes s [c]"
  by (simp add: dbuf_putc_def dbuf_put_append)

lemma dbuf_put_ints_append:
  "dbuf_put_u16 s v16 = append_bytes s (le_bytes 2 (unat v16))"
  "dbuf_put_u32 s v32 = append_bytes s (le_bytes 4 (unat v32))"
  "dbuf_put_u64 s v64 = append_bytes s (le_bytes 8 (unat v64))"
  by (simp_all add: dbuf_put_u16_def dbuf_put_u32_def dbuf_put_u64_def dbuf_put_append)

lemma dbuf_putstr_append:
  assumes "0 \<notin> set t" and "length t < 2 ^ 64"
  shows "dbuf_putstr s (t @ 0 # rest) = append_bytes s t"
proof -
  have "takeWhile (\<lambda>c. c \<noteq> 0) (t @ 0 # rest) = t" using assms(1) by (subst takeWhile_append2) auto
  moreover have "unat (word_of_nat (length t) :: u64) = length t" using assms(2) by (simp add: unat_of_nat)
  ultimately show ?thesis by (simp add: dbuf_putstr_def dbuf_put_append)
qed

text \<open>\<^verbatim>\<open>dbuf_put_self\<close> appends bytes the buffer already has.\<close>

lemma own_bytes_inside:
  assumes "dbuf_ok s" and "o1 + n \<le> unat (db_size s)"
  shows "own_bytes (db_buf s) o1 n (unat (db_size s)) = Some (take n (drop o1 (dbuf_bytes s)))"
proof -
  have "o1 + n \<le> length (buf_list (db_buf s))" using assms dbuf_ok_size by fastforce
  then show ?thesis using assms(2)
    by (auto simp: own_bytes_def dbuf_bytes_def buf_list_def drop_take split: option.splits)
qed

lemma dbuf_put_self_cases:
  assumes ok: "dbuf_ok s" and inside: "unat offset + unat len \<le> unat (db_size s)"
    and fits: "unat (db_size s) + unat len < 2 ^ 64"
  obtains s1 where "dbuf_put_self s offset len = Some (s1, 0)" "dbuf_ok s1"
      "dbuf_bytes s1 = dbuf_bytes s @ take (unat len) (drop (unat offset) (dbuf_bytes s))"
  | s1 where "dbuf_put_self s offset len = Some (s1, -1)" "dbuf_ok s1"
      "dbuf_bytes s1 = dbuf_bytes s" "db_error s1"
proof -
  define d where "d = take (unat len) (drop (unat offset) (dbuf_bytes s))"
  have d: "length d = unat len" using inside dbuf_ok_length [OF ok] by (simp add: d_def)
  have same: "own_bytes (db_buf s1) (unat offset) (unat len) (unat (db_size s)) = Some d"
    if "dbuf_ok s1" "dbuf_bytes s1 = dbuf_bytes s" "db_size s1 = db_size s" for s1
    using own_bytes_inside [OF that(1), of "unat offset" "unat len"] inside that by (simp add: d_def)
  have step: "dbuf_put_self s offset len = append_bytes s d"
  proof (cases "db_size s + len > db_allocated_size s")
    case False
    then show ?thesis
      using same [OF ok refl refl] d by (simp add: dbuf_put_self_def append_bytes_def Let_def)
  next
    case True
    show ?thesis
    proof (rule dbuf_realloc_cases [OF ok, of "db_size s + len"])
      fix s1
      assume s1: "dbuf_realloc s (db_size s + len) = Some (s1, 0)" "dbuf_ok s1"
        "dbuf_bytes s1 = dbuf_bytes s" "db_size s1 = db_size s"
      show ?thesis
        using True same [OF s1(2-4)] s1(1,4) d by (simp add: dbuf_put_self_def append_bytes_def Let_def)
    qed (use True d in \<open>simp add: dbuf_put_self_def append_bytes_def Let_def\<close>)
  qed
  show thesis
    using append_bytes_cases [OF ok, of d] fits d that unfolding step [symmetric] d_def [symmetric]
    by metis
qed

text \<open>\<^verbatim>\<open>dbuf_write\<close> replaces bytes from \<open>offset\<close> on, and extends the buffer when they reach past
  its end.\<close>

lemma take_overwrite:
  assumes "k \<le> n" and "n \<le> length b" and "k + length d \<le> length b"
  shows "take (max n (k + length d)) (take k b @ d @ drop (k + length d) b) =
    take k (take n b) @ d @ drop (k + length d) (take n b)"
proof -
  have "max n (k + length d) - k - length d = n - (k + length d)" by simp
  moreover have "take (max n (k + length d) - k) d = d" by simp
  moreover have "take (max n (k + length d)) (take k b) = take k b" using assms(1) by (simp add: min_absorb2)
  ultimately show ?thesis using assms by (simp add: drop_take min_absorb1 min_absorb2)
qed

lemma store_at_inside:
  assumes "dbuf_ok s" and "o1 \<le> unat (db_size s)" and "o1 + length d \<le> unat (db_allocated_size s)"
  shows "\<exists>b. store_at (db_buf s) o1 d = Some b \<and> length (buf_list b) = length (buf_list (db_buf s)) \<and>
    take (max (unat (db_size s)) (o1 + length d)) (buf_list b) =
      take o1 (dbuf_bytes s) @ d @ drop (o1 + length d) (dbuf_bytes s)"
proof (cases "d = []")
  case True
  then show ?thesis
    using assms by (simp add: store_at_def max_absorb1 dbuf_bytes_def [symmetric])
next
  case False
  then obtain b where b: "db_buf s = Some b" "length b = unat (db_allocated_size s)"
    using assms by (cases "db_buf s") (auto simp: dbuf_ok_def buf_list_def)
  have "unat (db_size s) \<le> length b" using dbuf_ok_size [OF assms(1)] b(1) by (simp add: buf_list_def)
  then show ?thesis using take_overwrite [OF assms(2), of b d] False assms(3) b
    by (simp add: store_at_def dbuf_bytes_def buf_list_def)
qed

lemma dbuf_write_cases:
  assumes ok: "dbuf_ok s" and at: "unat offset \<le> unat (db_size s)"
    and fits: "unat offset + length d < 2 ^ 64"
  obtains s1 where "dbuf_write s offset d (word_of_nat (length d)) = Some (s1, 0)" "dbuf_ok s1"
      "dbuf_bytes s1 = take (unat offset) (dbuf_bytes s) @ d @ drop (unat offset + length d) (dbuf_bytes s)"
  | s1 where "dbuf_write s offset d (word_of_nat (length d)) = Some (s1, -1)" "dbuf_ok s1"
      "dbuf_bytes s1 = dbuf_bytes s" "db_error s1"
proof -
  define len where "len = (word_of_nat (length d) :: u64)"
  have len: "unat len = length d" using fits by (simp add: len_def unat_of_nat)
  have sum: "unat (offset + len) = unat offset + length d"
    using fits by (simp add: unat_word_ariths(1) len)
  have src: "source d len = Some d" by (simp add: source_def len)
  show thesis
  proof (rule dbuf_realloc_cases [OF ok, of "offset + len"])
    fix s1
    assume s1: "dbuf_realloc s (offset + len) = Some (s1, 0)" "dbuf_ok s1"
      "dbuf_bytes s1 = dbuf_bytes s" "db_size s1 = db_size s"
      "offset + len \<le> db_allocated_size s1" "db_error s1 = db_error s"
    have "unat offset + length d \<le> unat (db_allocated_size s1)"
      using s1(5) sum by (simp add: word_le_nat_alt)
    then obtain b where b: "store_at (db_buf s1) (unat offset) d = Some b"
        "length (buf_list b) = length (buf_list (db_buf s1))"
        "take (max (unat (db_size s)) (unat offset + length d)) (buf_list b) =
          take (unat offset) (dbuf_bytes s) @ d @ drop (unat offset + length d) (dbuf_bytes s)"
      using store_at_inside [OF s1(2), of "unat offset" d] at s1(3,4) by auto
    define s2 where "s2 = s1\<lparr>db_buf := b, db_size := max (db_size s) (offset + len)\<rparr>"
    have "dbuf_write s offset d len = Some (s2, 0)"
      using s1(1,4) src b(1) by (simp add: dbuf_write_def Let_def s2_def max_def not_le)
    moreover have "dbuf_ok s2" using s1(2,4,5) b(2) by (simp add: dbuf_ok_def s2_def)
    moreover have "unat (max (db_size s) (offset + len)) = max (unat (db_size s)) (unat offset + length d)"
      using sum by (simp add: max_def word_le_nat_alt)
    then have "dbuf_bytes s2 = take (unat offset) (dbuf_bytes s) @ d @ drop (unat offset + length d) (dbuf_bytes s)"
      using b(3) by (simp add: dbuf_bytes_def s2_def)
    ultimately show thesis using that(1) [of s2] by (simp add: len_def)
  next
    fix s1
    assume "dbuf_realloc s (offset + len) = Some (s1, -1)" "dbuf_ok s1"
      "dbuf_bytes s1 = dbuf_bytes s" "db_error s1"
    then show thesis using that(2) [of s1] by (simp add: dbuf_write_def len_def)
  qed
qed

text \<open>Freeing gives the block back once; a second call does nothing.\<close>

lemma dbuf_free_twice:
  assumes "dbuf_ok s"
  obtains s1 h where "dbuf_free null s = Some (s1, h)" "dbuf_free null s1 = Some (s1, null)"
    "dbuf_bytes s1 = []"
  using assms
  by (cases "db_buf s") (auto simp: dbuf_free_def dbuf_ok_def dbuf_bytes_def buf_list_def)

section \<open>Printing\<close>

lemma print_bytes_fits:
  "length t < length buf \<Longrightarrow> length t < 2 ^ 31 \<Longrightarrow> print_bytes buf (Some t) = (t @ 0 # drop (length t + 1) buf, int (length t))"
  by (auto simp: print_bytes_def Let_def)

lemma dbuf_printf_short:
  assumes "length stack = PRINT_BUF" and "length t < PRINT_BUF"
  shows "dbuf_printf stack s (Some t) = append_bytes s t"
proof -
  have "unat (word_of_int (int (length t)) :: u64) = length t"
    using assms(2) by (simp add: unat_of_nat PRINT_BUF_def)
  then show ?thesis
    using assms by (simp add: dbuf_printf_def print_bytes_fits PRINT_BUF_def dbuf_put_append)
qed

text \<open>A longer text is formatted a second time, into the buffer itself.\<close>

lemma dbuf_printf_long:
  assumes ok: "dbuf_ok s" and stack: "length stack = PRINT_BUF" and long: "PRINT_BUF \<le> length t"
    and fits: "unat (db_size s) + length t + 1 < 2 ^ 64" and int: "length t < 2 ^ 31"
  obtains s1 where "dbuf_printf stack s (Some t) = Some (s1, 0)" "dbuf_ok s1"
      "dbuf_bytes s1 = dbuf_bytes s @ t" "db_error s1 = db_error s"
  | s1 where "dbuf_printf stack s (Some t) = Some (s1, -1)" "dbuf_ok s1"
      "dbuf_bytes s1 = dbuf_bytes s" "db_error s1"
proof -
  define l where "l = (word_of_nat (length t) :: u64)"
  have l: "unat l = length t" using fits by (simp add: l_def unat_of_nat)
  have need: "unat (db_size s + l + 1) = unat (db_size s) + length t + 1"
    using fits l by (simp add: unat_word_ariths)
  have slow: "dbuf_printf stack s (Some t) = dbuf_print_grown s (Some t) l"
    using long l int by (simp add: dbuf_printf_def print_bytes_def Let_def l_def)
  show thesis
  proof (rule dbuf_realloc_cases [OF ok, of "db_size s + l + 1"])
    fix s1
    assume s1: "dbuf_realloc s (db_size s + l + 1) = Some (s1, 0)" "dbuf_ok s1"
      "dbuf_bytes s1 = dbuf_bytes s" "db_size s1 = db_size s"
      "db_size s + l + 1 \<le> db_allocated_size s1" "db_error s1 = db_error s"
    have le: "db_size s \<le> db_allocated_size s1" using s1(2,4) by (simp add: dbuf_ok_def)
    have room: "unat (db_allocated_size s1 - db_size s) = unat (db_allocated_size s1) - unat (db_size s)"
      using le by (simp add: unat_sub)
    have big: "unat (db_size s) + length t < unat (db_allocated_size s1)"
      using s1(5) need by (simp add: word_le_nat_alt)
    obtain b where b: "db_buf s1 = Some b" "length b = unat (db_allocated_size s1)"
      using s1(2) big by (cases "db_buf s1") (auto simp: dbuf_ok_def buf_list_def)
    define b1 where "b1 = take (unat (db_size s)) b @ t @ 0 # drop (unat (db_size s) + length t + 1) b"
    define s2 where "s2 = s1\<lparr>db_buf := Some b1, db_size := db_size s + l\<rparr>"
    have "dbuf_print_grown s (Some t) l = Some (s2, 0)"
      unfolding dbuf_print_grown_def s1(1)
      using s1(4) b big room le int
      by (simp add: Let_def print_bytes_fits b1_def s2_def word_le_nat_alt add.commute)
    moreover have "dbuf_ok s2"
      using s1(2) b big need s1(5) l
      by (auto simp: dbuf_ok_def s2_def buf_list_def b1_def word_le_nat_alt unat_word_ariths)
    moreover have "dbuf_bytes s2 = take (unat (db_size s)) b @ t"
      using b big l fits by (simp add: dbuf_bytes_def s2_def b1_def buf_list_def unat_word_ariths)
    then have "dbuf_bytes s2 = dbuf_bytes s @ t"
      unfolding s1(3) [symmetric] dbuf_bytes_def [of s1] s1(4) b(1) buf_list_def by simp
    moreover have "db_error s2 = db_error s" using s1(6) by (simp add: s2_def)
    ultimately show thesis unfolding slow [symmetric] by (rule that(1))
  next
    fix s1
    assume "dbuf_realloc s (db_size s + l + 1) = Some (s1, -1)" "dbuf_ok s1"
      "dbuf_bytes s1 = dbuf_bytes s" "db_error s1"
    then show thesis by (intro that(2) [of s1]) (simp_all add: slow dbuf_print_grown_def)
  qed
qed

text \<open>A failure of \<^verbatim>\<open>vsnprintf\<close>, for an encoding error or for a text of 2 GiB: the length \<open>-1\<close> is
  converted to an unsigned number, and the size shrinks by one byte.\<close>

definition print_fails :: "u8 list option \<Rightarrow> bool" where
  "print_fails out = (case out of None \<Rightarrow> True | Some t \<Rightarrow> 2 ^ 31 \<le> length t)"

lemma print_bytes_fails:
  assumes "print_fails out"
  shows "snd (print_bytes buf out) = -1" and "length (fst (print_bytes buf out)) = length buf"
  using assms by (auto simp: print_fails_def print_bytes_def Let_def min_def split: option.splits)

lemma dbuf_printf_error:
  assumes "dbuf_ok s" and "0 < db_size s" and "print_fails out"
  shows "\<exists>s1. dbuf_printf stack s out = Some (s1, 0) \<and>
    dbuf_bytes s1 = butlast (dbuf_bytes s) \<and> dbuf_error s1 = dbuf_error s"
proof -
  have le: "db_size s \<le> db_allocated_size s" using assms(1) by (simp add: dbuf_ok_def)
  obtain b where b: "db_buf s = Some b" "length b = unat (db_allocated_size s)"
    using assms(1,2) by (cases "db_buf s") (auto simp: dbuf_ok_def buf_list_def word_le_nat_alt word_less_nat_alt)
  have "unat (word_of_int (-1) :: u64) = 2 ^ 64 - 1"
    by (simp add: unsigned_minus_1_eq_mask mask_eq_exp_minus_1)
  then have "dbuf_printf stack s out = dbuf_print_grown s out (- 1)"
    using print_bytes_fails(1) [OF assms(3), of stack]
    by (cases "print_bytes stack out") (simp add: dbuf_printf_def PRINT_BUF_def)
  moreover have "unat (db_allocated_size s - db_size s) = unat (db_allocated_size s) - unat (db_size s)"
    using le by (simp add: unat_sub)
  moreover have "unat (db_size s) \<le> unat (db_allocated_size s)" using le by (simp add: word_le_nat_alt)
  ultimately obtain t where "dbuf_printf stack s out =
      Some (s\<lparr>db_buf := Some (take (unat (db_size s)) b @ t), db_size := db_size s - 1\<rparr>, 0)"
    using le b by (simp add: dbuf_print_grown_def dbuf_realloc_def leD Let_def)
  moreover have "unat (db_size s - 1) = unat (db_size s) - 1"
    using assms(2) by (simp add: unat_sub word_le_nat_alt word_less_nat_alt Suc_le_eq)
  moreover have "unat (db_size s) \<le> length b" using le b by (simp add: word_le_nat_alt)
  ultimately show ?thesis
    using b by (simp add: dbuf_bytes_def buf_list_def dbuf_error_def butlast_take min_def)
qed

section \<open>The interface its clients use\<close>

text \<open>Clients emit items and look at the error flag at the end. Such a sink keeps a list of
  bytes; an item is appended whole or not at all, and a failure is remembered.\<close>

fun emit_all :: "('b \<Rightarrow> 'i \<Rightarrow> ('b \<times> int) option) \<Rightarrow> 'b \<Rightarrow> 'i list \<Rightarrow> 'b option" where
  "emit_all emit b [] = Some b"
| "emit_all emit b (i # is) = do { (b1, r) \<leftarrow> emit b i; emit_all emit b1 is }"

locale byte_sink =
  fixes emit :: "'b \<Rightarrow> 'i \<Rightarrow> ('b \<times> int) option"
    and enc :: "'i \<Rightarrow> u8 list"
    and legal :: "'i \<Rightarrow> bool"
    and ok :: "'b \<Rightarrow> bool"
    and bytes :: "'b \<Rightarrow> u8 list"
    and failed :: "'b \<Rightarrow> bool"
  assumes emit_cases: "ok b \<Longrightarrow> legal i \<Longrightarrow> length (bytes b) + length (enc i) + 1 < 2 ^ 64 \<Longrightarrow>
    \<exists>b1 r. emit b i = Some (b1, r) \<and> ok b1 \<and>
      (r = 0 \<and> bytes b1 = bytes b @ enc i \<and> failed b1 = failed b \<or>
       r \<noteq> 0 \<and> bytes b1 = bytes b \<and> failed b1)"
begin

lemma emit_all_refines:
  "ok b \<Longrightarrow> list_all legal is \<Longrightarrow> length (bytes b) + length (concat (map enc is)) + 1 < 2 ^ 64 \<Longrightarrow>
    \<exists>b1. emit_all emit b is = Some b1 \<and> ok b1 \<and> (failed b \<longrightarrow> failed b1) \<and>
      (\<not> failed b1 \<longrightarrow> bytes b1 = bytes b @ concat (map enc is))"
proof (induction "is" arbitrary: b)
  case Nil
  then show ?case by simp
next
  case (Cons i "is")
  obtain b1 r where b1: "emit b i = Some (b1, r)" "ok b1"
      "r = 0 \<and> bytes b1 = bytes b @ enc i \<and> failed b1 = failed b \<or>
       r \<noteq> 0 \<and> bytes b1 = bytes b \<and> failed b1"
    using emit_cases [OF Cons.prems(1), of i] Cons.prems(2,3) by fastforce
  moreover have "length (bytes b1) + length (concat (map enc is)) + 1 < 2 ^ 64"
    using b1(3) Cons.prems(3) by auto
  then obtain b2 where "emit_all emit b1 is = Some b2" "ok b2" "failed b1 \<longrightarrow> failed b2"
      "\<not> failed b2 \<longrightarrow> bytes b2 = bytes b1 @ concat (map enc is)"
    using Cons.IH [OF b1(2)] Cons.prems(2) by auto
  ultimately show ?case by auto
qed

end

text \<open>The items of a \<^verbatim>\<open>DynBuf\<close>, one constructor per function, and the bytes each stands for.\<close>

datatype dbuf_item =
    Put "u8 list" | Putc u8 | Put_u16 u16 | Put_u32 u32 | Put_u64 u64 | Putstr "u8 list" | Printf "u8 list"

fun dbuf_emit :: "u8 list \<Rightarrow> 'h dynbuf \<Rightarrow> dbuf_item \<Rightarrow> ('h dynbuf \<times> int) option" where
  "dbuf_emit stack s (Put d) = dbuf_put s d (word_of_nat (length d))"
| "dbuf_emit stack s (Putc c) = dbuf_putc s c"
| "dbuf_emit stack s (Put_u16 v) = dbuf_put_u16 s v"
| "dbuf_emit stack s (Put_u32 v) = dbuf_put_u32 s v"
| "dbuf_emit stack s (Put_u64 v) = dbuf_put_u64 s v"
| "dbuf_emit stack s (Putstr t) = dbuf_putstr s (t @ [0])"
| "dbuf_emit stack s (Printf t) = dbuf_printf stack s (Some t)"

fun item_bytes :: "dbuf_item \<Rightarrow> u8 list" where
  "item_bytes (Put d) = d"
| "item_bytes (Putc c) = [c]"
| "item_bytes (Put_u16 v) = le_bytes 2 (unat v)"
| "item_bytes (Put_u32 v) = le_bytes 4 (unat v)"
| "item_bytes (Put_u64 v) = le_bytes 8 (unat v)"
| "item_bytes (Putstr t) = t"
| "item_bytes (Printf t) = t"

fun item_legal :: "dbuf_item \<Rightarrow> bool" where
  "item_legal (Putstr t) \<longleftrightarrow> 0 \<notin> set t"
| "item_legal (Printf t) \<longleftrightarrow> length t < 2 ^ 31"
| "item_legal _ \<longleftrightarrow> True"

lemma dbuf_emit_append:
  assumes "item_legal i" and "length (item_bytes i) < 2 ^ 64" and "length stack = PRINT_BUF"
    and "\<And>t. i = Printf t \<Longrightarrow> length t < PRINT_BUF"
  shows "dbuf_emit stack s i = append_bytes s (item_bytes i)"
  using assms
  by (cases i) (simp_all add: dbuf_put_all dbuf_putc_append dbuf_put_ints_append dbuf_putstr_append
      dbuf_printf_short)

lemma dbuf_emit_cases:
  assumes "length stack = PRINT_BUF" and "dbuf_ok s" and "item_legal i"
    and "length (dbuf_bytes s) + length (item_bytes i) + 1 < 2 ^ 64"
  shows "\<exists>s1 r. dbuf_emit stack s i = Some (s1, r) \<and> dbuf_ok s1 \<and>
    (r = 0 \<and> dbuf_bytes s1 = dbuf_bytes s @ item_bytes i \<and> db_error s1 = db_error s \<or>
     r \<noteq> 0 \<and> dbuf_bytes s1 = dbuf_bytes s \<and> db_error s1)"
proof (cases "\<exists>t. i = Printf t \<and> PRINT_BUF \<le> length t")
  case True
  then obtain t where t: "i = Printf t" "PRINT_BUF \<le> length t" by blast
  have "unat (db_size s) + length t + 1 < 2 ^ 64" using assms(4) dbuf_ok_length [OF assms(2)] t by simp
  moreover have "length t < 2 ^ 31" using assms(3) t(1) by simp
  ultimately obtain s1 where "dbuf_printf stack s (Some t) = Some (s1, 0) \<and> dbuf_ok s1 \<and>
        dbuf_bytes s1 = dbuf_bytes s @ t \<and> db_error s1 = db_error s \<or>
      dbuf_printf stack s (Some t) = Some (s1, -1) \<and> dbuf_ok s1 \<and>
        dbuf_bytes s1 = dbuf_bytes s \<and> db_error s1"
    using dbuf_printf_long [OF assms(2,1) t(2)] by metis
  then show ?thesis using t(1) by (metis dbuf_emit.simps(7) item_bytes.simps(7) zero_neq_neg_one)
next
  case False
  then have step: "dbuf_emit stack s i = append_bytes s (item_bytes i)"
    using assms by (intro dbuf_emit_append) (auto simp: not_le)
  have "unat (db_size s) + length (item_bytes i) < 2 ^ 64" using assms(4) dbuf_ok_length [OF assms(2)] by simp
  from append_bytes_cases [OF assms(2) this] show ?thesis unfolding step by (metis zero_neq_neg_one)
qed

text \<open>Any uninitialised array of the right length will do.\<close>

interpretation dbuf: byte_sink "dbuf_emit (map g [0..<PRINT_BUF])" item_bytes item_legal dbuf_ok
    dbuf_bytes db_error for g
  by unfold_locales (rule dbuf_emit_cases; simp)

lemma dbuf_emit_all_refines:
  assumes "length stack = PRINT_BUF" and "dbuf_ok s" and "list_all item_legal is"
    and "length (dbuf_bytes s) + length (concat (map item_bytes is)) + 1 < 2 ^ 64"
  shows "\<exists>s1. emit_all (dbuf_emit stack) s is = Some s1 \<and> dbuf_ok s1 \<and>
    (db_error s \<longrightarrow> db_error s1) \<and>
    (\<not> db_error s1 \<longrightarrow> dbuf_bytes s1 = dbuf_bytes s @ concat (map item_bytes is))"
proof -
  have "stack = map ((!) stack) [0..<PRINT_BUF]" using assms(1) by (metis map_nth)
  then show ?thesis using dbuf.emit_all_refines [OF assms(2-4), of "(!) stack"] by simp
qed

text \<open>An allocator that always succeeds, and one whose state is the memory left.\<close>

definition plain_realloc :: "unit realloc_fn" where
  "plain_realloc h b n = (h, Some (take (unat n) (buf_list b @ replicate (unat n) 0)))"

definition quota_realloc :: "u64 realloc_fn" where
  "quota_realloc q b n =
     (if n \<le> q then (q - n, Some (take (unat n) (buf_list b @ replicate (unat n) 0))) else (q, None))"

lemma lawful_plain_realloc: "lawful_realloc plain_realloc"
  by (auto simp: lawful_realloc_def plain_realloc_def buf_list_def min_def)

lemma lawful_quota_realloc: "lawful_realloc quota_realloc"
  by (auto simp: lawful_realloc_def quota_realloc_def buf_list_def min_def split: if_splits)

end
