(* ===== verification/List_Head.thy ===== *)
theory List_Head
  imports Prelude
begin

text \<open>
  The intrusive circular lists of QuickJS's \<^verbatim>\<open>list.h\<close>, over an explicit store of nodes: an
  address that holds no node (\<^verbatim>\<open>NULL\<close> among them) faults, which is \<^const>\<open>None\<close>. A head and
  the nodes reached from it refine a list of addresses.
\<close>

section \<open>The code\<close>

type_synonym ptr = u64

record list_head =
  lh_prev :: ptr
  lh_next :: ptr

type_synonym nodes = "ptr \<Rightarrow> list_head option"

definition get_next :: "nodes \<Rightarrow> ptr \<Rightarrow> ptr option" where
  "get_next h p = map_option lh_next (h p)"

definition get_prev :: "nodes \<Rightarrow> ptr \<Rightarrow> ptr option" where
  "get_prev h p = map_option lh_prev (h p)"

definition set_next :: "nodes \<Rightarrow> ptr \<Rightarrow> ptr \<Rightarrow> nodes option" where
  "set_next h p q = map_option (\<lambda>n. h(p \<mapsto> n\<lparr>lh_next := q\<rparr>)) (h p)"

definition set_prev :: "nodes \<Rightarrow> ptr \<Rightarrow> ptr \<Rightarrow> nodes option" where
  "set_prev h p q = map_option (\<lambda>n. h(p \<mapsto> n\<lparr>lh_prev := q\<rparr>)) (h p)"

definition init_list_head :: "nodes \<Rightarrow> ptr \<Rightarrow> nodes option" where
  "init_list_head h head = do { h1 \<leftarrow> set_prev h head head; set_next h1 head head }"

text \<open>\<^verbatim>\<open>__list_add\<close>\<close>

definition list_add_between :: "nodes \<Rightarrow> ptr \<Rightarrow> ptr \<Rightarrow> ptr \<Rightarrow> nodes option" where
  "list_add_between h el prev next = do {
     h1 \<leftarrow> set_next h prev el;
     h2 \<leftarrow> set_prev h1 el prev;
     h3 \<leftarrow> set_next h2 el next;
     set_prev h3 next el
   }"

definition list_add :: "nodes \<Rightarrow> ptr \<Rightarrow> ptr \<Rightarrow> nodes option" where
  "list_add h el head = do { n \<leftarrow> get_next h head; list_add_between h el head n }"

definition list_add_tail :: "nodes \<Rightarrow> ptr \<Rightarrow> ptr \<Rightarrow> nodes option" where
  "list_add_tail h el head = do { p \<leftarrow> get_prev h head; list_add_between h el p head }"

definition list_del :: "nodes \<Rightarrow> ptr \<Rightarrow> nodes option" where
  "list_del h el = do {
     prev \<leftarrow> get_prev h el;
     next \<leftarrow> get_next h el;
     h1 \<leftarrow> set_next h prev next;
     h2 \<leftarrow> set_prev h1 next prev;
     h3 \<leftarrow> set_prev h2 el 0;
     set_next h3 el 0
   }"

definition list_empty :: "nodes \<Rightarrow> ptr \<Rightarrow> bool option" where
  "list_empty h el = map_option (\<lambda>n. n = el) (get_next h el)"

text \<open>The loops. The body of \<^verbatim>\<open>list_for_each\<close> is run at every element and here just collects it;
  the body of the safe variant may change the whole state, of which the nodes are a part, and
  \<open>el1\<close> is read before it runs.\<close>

partial_function (option) list_for_each_from :: "nodes \<Rightarrow> ptr \<Rightarrow> ptr \<Rightarrow> ptr list option" where
  "list_for_each_from h el head =
     (if el = head then Some []
      else do { n \<leftarrow> get_next h el; xs \<leftarrow> list_for_each_from h n head; Some (el # xs) })"

definition list_for_each :: "nodes \<Rightarrow> ptr \<Rightarrow> ptr list option" where
  "list_for_each h head = do { n \<leftarrow> get_next h head; list_for_each_from h n head }"

partial_function (option) list_for_each_prev_from :: "nodes \<Rightarrow> ptr \<Rightarrow> ptr \<Rightarrow> ptr list option" where
  "list_for_each_prev_from h el head =
     (if el = head then Some []
      else do { p \<leftarrow> get_prev h el; xs \<leftarrow> list_for_each_prev_from h p head; Some (el # xs) })"

definition list_for_each_prev :: "nodes \<Rightarrow> ptr \<Rightarrow> ptr list option" where
  "list_for_each_prev h head = do { p \<leftarrow> get_prev h head; list_for_each_prev_from h p head }"

partial_function (option) list_for_each_safe_from ::
    "('s \<Rightarrow> nodes) \<Rightarrow> ('s \<Rightarrow> ptr \<Rightarrow> 's option) \<Rightarrow> 's \<Rightarrow> ptr \<Rightarrow> ptr \<Rightarrow> ptr \<Rightarrow> 's option" where
  "list_for_each_safe_from nodes_of body s el el1 head =
     (if el = head then Some s
      else do {
        s1 \<leftarrow> body s el;
        n \<leftarrow> get_next (nodes_of s1) el1;
        list_for_each_safe_from nodes_of body s1 el1 n head
      })"

definition list_for_each_safe ::
    "('s \<Rightarrow> nodes) \<Rightarrow> ('s \<Rightarrow> ptr \<Rightarrow> 's option) \<Rightarrow> 's \<Rightarrow> ptr \<Rightarrow> 's option" where
  "list_for_each_safe nodes_of body s head = do {
     el \<leftarrow> get_next (nodes_of s) head;
     el1 \<leftarrow> get_next (nodes_of s) el;
     list_for_each_safe_from nodes_of body s el el1 head
   }"

section \<open>The list of addresses behind a head\<close>

fun linked :: "nodes \<Rightarrow> ptr list \<Rightarrow> bool" where
  "linked h (a # b # xs) \<longleftrightarrow> get_next h a = Some b \<and> get_prev h b = Some a \<and> linked h (b # xs)"
| "linked h _ \<longleftrightarrow> True"

definition is_list :: "nodes \<Rightarrow> ptr \<Rightarrow> ptr list \<Rightarrow> bool" where
  "is_list h head xs \<longleftrightarrow> distinct (head # xs) \<and> linked h (head # xs @ [head])"

lemma linked_append: "linked h (xs @ b # ys) \<longleftrightarrow> linked h (xs @ [b]) \<and> linked h (b # ys)"
proof (induction xs)
  case Nil
  then show ?case by simp
next
  case (Cons a xs)
  then show ?case by (cases xs) auto
qed

lemma linked_cong:
  "(\<And>a. a \<in> set (butlast xs) \<Longrightarrow> get_next h1 a = get_next h a) \<Longrightarrow>
   (\<And>a. a \<in> set (tl xs) \<Longrightarrow> get_prev h1 a = get_prev h a) \<Longrightarrow> linked h xs \<Longrightarrow> linked h1 xs"
  by (induction h xs rule: linked.induct) auto

text \<open>Reads after writes.\<close>

lemma get_set_next:
  assumes "set_next h p q = Some h1"
  shows "get_next h1 a = (if a = p then Some q else get_next h a)" and "get_prev h1 a = get_prev h a"
    and "dom h1 = dom h"
  using assms by (auto simp: set_next_def get_next_def get_prev_def split: if_splits)

lemma get_set_prev:
  assumes "set_prev h p q = Some h1"
  shows "get_prev h1 a = (if a = p then Some q else get_prev h a)" and "get_next h1 a = get_next h a"
    and "dom h1 = dom h"
  using assms by (auto simp: set_prev_def get_next_def get_prev_def split: if_splits)

lemma set_next_dom: "p \<in> dom h \<Longrightarrow> \<exists>h1. set_next h p q = Some h1"
  by (auto simp: set_next_def)

lemma set_prev_dom: "p \<in> dom h \<Longrightarrow> \<exists>h1. set_prev h p q = Some h1"
  by (auto simp: set_prev_def)

lemma get_in_dom: "get_next h p = Some q \<Longrightarrow> p \<in> dom h" "get_prev h p = Some q \<Longrightarrow> p \<in> dom h"
  by (auto simp: get_next_def get_prev_def)

text \<open>The effect of \<^verbatim>\<open>__list_add\<close> and of \<^verbatim>\<open>list_del\<close> as two new views.\<close>

lemma list_add_between_gets:
  assumes "prev \<in> dom h" and "el \<in> dom h" and "next \<in> dom h"
  obtains h1 where "list_add_between h el prev next = Some h1" "dom h1 = dom h"
    "\<And>a. get_next h1 a = (if a = el then Some next else if a = prev then Some el else get_next h a)"
    "\<And>a. get_prev h1 a = (if a = next then Some el else if a = el then Some prev else get_prev h a)"
proof -
  obtain h1 where h1: "set_next h prev el = Some h1" using set_next_dom assms(1) by blast
  note e1 = get_set_next [OF h1]
  obtain h2 where h2: "set_prev h1 el prev = Some h2" using set_prev_dom [of el h1 prev] assms(2) e1(3) by auto
  note e2 = get_set_prev [OF h2]
  obtain h3 where h3: "set_next h2 el next = Some h3" using set_next_dom [of el h2 "next"] assms(2) e1(3) e2(3) by auto
  note e3 = get_set_next [OF h3]
  obtain h4 where h4: "set_prev h3 next el = Some h4"
    using set_prev_dom [of "next" h3 el] assms(3) e1(3) e2(3) e3(3) by auto
  note e4 = get_set_prev [OF h4]
  have "list_add_between h el prev next = Some h4" by (simp add: list_add_between_def h1 h2 h3 h4)
  then show thesis
  proof (rule that)
    show "dom h4 = dom h" by (simp only: e1(3) e2(3) e3(3) e4(3))
    show "get_next h4 a = (if a = el then Some next else if a = prev then Some el else get_next h a)" for a
      unfolding e4(2) e3(1) e2(2) e1(1) ..
    show "get_prev h4 a = (if a = next then Some el else if a = el then Some prev else get_prev h a)" for a
      unfolding e4(1) e3(2) e2(1) e1(2) ..
  qed
qed

lemma list_del_gets:
  assumes "get_prev h el = Some p" and "get_next h el = Some n" and "p \<in> dom h" and "n \<in> dom h"
  obtains h1 where "list_del h el = Some h1" "dom h1 = dom h"
    "\<And>a. get_next h1 a = (if a = el then Some 0 else if a = p then Some n else get_next h a)"
    "\<And>a. get_prev h1 a = (if a = el then Some 0 else if a = n then Some p else get_prev h a)"
proof -
  have el: "el \<in> dom h" using assms(1) by (rule get_in_dom)
  obtain h1 where h1: "set_next h p n = Some h1" using set_next_dom assms(3) by blast
  note e1 = get_set_next [OF h1]
  obtain h2 where h2: "set_prev h1 n p = Some h2" using set_prev_dom [of n h1 p] assms(4) e1(3) by auto
  note e2 = get_set_prev [OF h2]
  obtain h3 where h3: "set_prev h2 el 0 = Some h3" using set_prev_dom [of el h2 0] el e1(3) e2(3) by auto
  note e3 = get_set_prev [OF h3]
  obtain h4 where h4: "set_next h3 el 0 = Some h4" using set_next_dom [of el h3 0] el e1(3) e2(3) e3(3) by auto
  note e4 = get_set_next [OF h4]
  have "list_del h el = Some h4" by (simp add: list_del_def assms(1,2) h1 h2 h3 h4)
  then show thesis
  proof (rule that)
    show "dom h4 = dom h" by (simp only: e1(3) e2(3) e3(3) e4(3))
    show "get_next h4 a = (if a = el then Some 0 else if a = p then Some n else get_next h a)" for a
      unfolding e4(1) e3(2) e2(2) e1(1) ..
    show "get_prev h4 a = (if a = el then Some 0 else if a = n then Some p else get_prev h a)" for a
      unfolding e4(2) e3(1) e2(1) e1(2) ..
  qed
qed

section \<open>Every operation on the list of addresses\<close>

lemma init_list_head_empty:
  assumes "head \<in> dom h"
  shows "\<exists>h1. init_list_head h head = Some h1 \<and> is_list h1 head []"
proof -
  obtain h1 where h1: "set_prev h head head = Some h1" using set_prev_dom assms by blast
  note e1 = get_set_prev [OF h1]
  obtain h2 where h2: "set_next h1 head head = Some h2" using set_next_dom [of head h1 head] assms e1(3) by auto
  note e2 = get_set_next [OF h2]
  show ?thesis by (simp add: init_list_head_def h1 h2 e1 e2 is_list_def)
qed

text \<open>Two neighbours in the cycle: the node before a place in the list and the one after it.\<close>

definition node_before :: "ptr \<Rightarrow> ptr list \<Rightarrow> ptr" where
  "node_before head as = last (head # as)"

definition node_after :: "ptr \<Rightarrow> ptr list \<Rightarrow> ptr" where
  "node_after head bs = hd (bs @ [head])"

lemma node_before_snoc: "head # as = butlast (head # as) @ [node_before head as]"
  unfolding node_before_def by (rule append_butlast_last_id [symmetric]) simp

lemma node_after_cons: "bs @ [head] = node_after head bs # tl (bs @ [head])"
  by (cases bs) (simp_all add: node_after_def)

lemma node_before_in: "node_before head as \<in> set (head # as)"
  unfolding node_before_def by (rule last_in_set) simp

lemma node_after_in: "node_after head bs \<in> set (head # bs)"
  by (cases bs) (simp_all add: node_after_def)

lemma linked_cycle:
  "linked h (head # (as @ bs) @ [head]) \<longleftrightarrow> linked h (head # as) \<and> linked h (bs @ [head]) \<and>
    get_next h (node_before head as) = Some (node_after head bs) \<and>
    get_prev h (node_after head bs) = Some (node_before head as)"
proof -
  define P p n N where "P = butlast (head # as)" and "p = node_before head as"
    and "n = node_after head bs" and "N = tl (bs @ [head])"
  have P: "head # as = P @ [p]" unfolding P_def p_def by (rule node_before_snoc)
  have N: "bs @ [head] = n # N" unfolding N_def n_def by (rule node_after_cons)
  have "head # (as @ bs) @ [head] = (head # as) @ (bs @ [head])" by simp
  also have "\<dots> = P @ p # n # N" unfolding P N by simp
  finally have "linked h (head # (as @ bs) @ [head]) \<longleftrightarrow> linked h (P @ [p]) \<and> linked h (p # n # N)"
    using linked_append [of h P p "n # N"] by simp
  then show ?thesis unfolding P [symmetric] N by (auto simp: p_def n_def)
qed

lemma is_list_split:
  assumes "is_list h head (as @ bs)"
  shows "linked h (head # as)" and "linked h (bs @ [head])"
    and "get_next h (node_before head as) = Some (node_after head bs)"
    and "get_prev h (node_after head bs) = Some (node_before head as)"
    and "node_before head as \<notin> set bs" and "node_after head bs \<notin> set as"
    and "node_before head as \<notin> set (butlast (head # as))"
    and "node_after head bs \<notin> set (tl (bs @ [head]))"
proof -
  have l: "linked h (head # (as @ bs) @ [head])" and d: "distinct (head # as @ bs)"
    using assms by (simp_all add: is_list_def)
  from l show "linked h (head # as)" "linked h (bs @ [head])"
    "get_next h (node_before head as) = Some (node_after head bs)"
    "get_prev h (node_after head bs) = Some (node_before head as)"
    unfolding linked_cycle by blast+
  show "node_before head as \<notin> set bs" using d node_before_in [of head as] by auto
  show "node_after head bs \<notin> set as" using d node_after_in [of head bs] by auto
  have "distinct (head # as)" using d by simp
  then have "distinct (butlast (head # as) @ [node_before head as])"
    by (simp only: node_before_snoc [symmetric])
  then show "node_before head as \<notin> set (butlast (head # as))" by simp
  show "node_after head bs \<notin> set (tl (bs @ [head]))" using d by (cases bs) (auto simp: node_after_def)
qed

lemma is_list_dom: "is_list h head xs \<Longrightarrow> set (head # xs) \<subseteq> dom h"
proof -
  have "linked h ys \<Longrightarrow> set (butlast ys) \<subseteq> dom h" for ys
    by (induction h ys rule: linked.induct) (auto dest: get_in_dom)
  then show "is_list h head xs \<Longrightarrow> set (head # xs) \<subseteq> dom h"
    unfolding is_list_def by (metis append_Cons butlast_snoc)
qed

text \<open>Insertion between two neighbours, wherever they are; nodes outside the list keep their
  links.\<close>

lemma list_add_between_is_list:
  assumes l: "is_list h head (as @ bs)" and el: "el \<in> dom h" "el \<notin> set (head # as @ bs)"
  obtains h1 where "list_add_between h el (node_before head as) (node_after head bs) = Some h1"
    "is_list h1 head (as @ el # bs)" "dom h1 = dom h" "\<And>a. a \<notin> set (head # el # as @ bs) \<Longrightarrow> h1 a = h a"
proof -
  define p where "p = node_before head as"
  define n where "n = node_after head bs"
  note s = is_list_split [OF l, folded p_def n_def]
  have "p \<in> set (head # as)" "n \<in> set (head # bs)"
    unfolding p_def n_def by (rule node_before_in, rule node_after_in)
  then have ne: "el \<noteq> p" "el \<noteq> n" and dm: "p \<in> dom h" "n \<in> dom h"
    using el(2) is_list_dom [OF l] by auto
  obtain h1 where h1: "list_add_between h el p n = Some h1" "dom h1 = dom h"
      "\<And>a. get_next h1 a = (if a = el then Some n else if a = p then Some el else get_next h a)"
      "\<And>a. get_prev h1 a = (if a = n then Some el else if a = el then Some p else get_prev h a)"
    using list_add_between_gets [OF dm(1) el(1) dm(2)] by blast
  have "linked h1 (head # as)"
    by (rule linked_cong [OF _ _ s(1)]) (use h1(3,4) s(6,7) el(2) in \<open>auto dest: in_set_butlastD split: if_splits\<close>)
  moreover have "linked h1 (bs @ [head])"
    by (rule linked_cong [OF _ _ s(2)]) (use h1(3,4) s(5,8) el(2) in \<open>auto dest: list.set_sel(2) [rotated]\<close>)
  then have "linked h1 (el # bs @ [head])"
    using h1(3,4) ne by (cases bs) (auto simp: n_def node_after_def)
  ultimately have "linked h1 (head # (as @ el # bs) @ [head])"
    using linked_cycle [of h1 head as "el # bs"] h1(3,4) ne by (simp add: p_def node_after_def)
  then have "is_list h1 head (as @ el # bs)" using l el(2) by (auto simp: is_list_def)
  moreover have "h1 a = h a" if "a \<notin> set (head # el # as @ bs)" for a
    using h1(1) that \<open>p \<in> set (head # as)\<close> \<open>n \<in> set (head # bs)\<close>
    by (auto simp: list_add_between_def set_next_def set_prev_def split: Option.bind_splits)
  ultimately show thesis using h1(1,2) that unfolding p_def n_def by blast
qed

lemma list_add_is_list:
  assumes "is_list h head xs" and "el \<in> dom h" and "el \<notin> set (head # xs)"
  obtains h1 where "list_add h el head = Some h1" "is_list h1 head (el # xs)"
    "dom h1 = dom h" "\<And>a. a \<notin> set (head # el # xs) \<Longrightarrow> h1 a = h a"
proof -
  have "get_next h head = Some (node_after head xs)"
    using is_list_split(3) [of h head "[]" xs] assms(1) by (simp add: node_before_def)
  then show thesis
    using list_add_between_is_list [of h head "[]" xs el] assms that
    by (auto simp: list_add_def node_before_def)
qed

lemma list_add_tail_is_list:
  assumes "is_list h head xs" and "el \<in> dom h" and "el \<notin> set (head # xs)"
  obtains h1 where "list_add_tail h el head = Some h1" "is_list h1 head (xs @ [el])"
    "dom h1 = dom h" "\<And>a. a \<notin> set (head # el # xs) \<Longrightarrow> h1 a = h a"
proof -
  have "get_prev h head = Some (node_before head xs)"
    using is_list_split(4) [of h head xs "[]"] assms(1) by (simp add: node_after_def)
  then show thesis
    using list_add_between_is_list [of h head xs "[]" el] assms that
    by (auto simp: list_add_tail_def node_after_def)
qed

text \<open>Deletion; the node's own links are cleared.\<close>

lemma list_del_is_list:
  assumes l: "is_list h head (as @ el # bs)"
  obtains h1 where "list_del h el = Some h1" "is_list h1 head (as @ bs)" "dom h1 = dom h"
    "\<And>a. a \<notin> set (head # as @ el # bs) \<Longrightarrow> h1 a = h a"
    "get_next h1 el = Some 0" "get_prev h1 el = Some 0"
proof -
  define p where "p = node_before head as"
  define n where "n = node_after head bs"
  have d: "distinct (head # as @ el # bs)" using l by (simp add: is_list_def)
  have l1: "is_list h head (as @ (el # bs))" and l2: "is_list h head ((as @ [el]) @ bs)" using l by simp_all
  have "node_after head (el # bs) = el" "node_before head (as @ [el]) = el"
    by (simp_all add: node_after_def node_before_def)
  note s1 = is_list_split [OF l1, folded p_def, unfolded this]
  note s2 = is_list_split [OF l2, folded n_def, unfolded \<open>node_before head (as @ [el]) = el\<close>]
  have "p \<in> set (head # as)" "n \<in> set (head # bs)"
    unfolding p_def n_def by (rule node_before_in, rule node_after_in)
  then have ne: "p \<noteq> el" "n \<noteq> el" and dm: "p \<in> dom h" "n \<in> dom h"
    using d is_list_dom [OF l] by auto
  obtain h1 where h1: "list_del h el = Some h1" "dom h1 = dom h"
      "\<And>a. get_next h1 a = (if a = el then Some 0 else if a = p then Some n else get_next h a)"
      "\<And>a. get_prev h1 a = (if a = el then Some 0 else if a = n then Some p else get_prev h a)"
    using list_del_gets [OF s1(4) s2(3) dm] by blast
  have "linked h1 (head # as)"
    by (rule linked_cong [OF _ _ s1(1)]) (use h1(3,4) s1(7) s2(6) d in \<open>auto dest: in_set_butlastD split: if_splits\<close>)
  moreover have "linked h1 (bs @ [head])"
    by (rule linked_cong [OF _ _ s2(2)]) (use h1(3,4) s1(5) s2(8) d in \<open>auto dest: list.set_sel(2) [rotated]\<close>)
  ultimately have "linked h1 (head # (as @ bs) @ [head])"
    using linked_cycle [of h1 head as bs] h1(3,4) ne by (simp add: p_def n_def)
  then have "is_list h1 head (as @ bs)" using d by (simp add: is_list_def)
  moreover have "h1 a = h a" if "a \<notin> set (head # as @ el # bs)" for a
    using h1(1) that s1(4) s2(3) \<open>p \<in> set (head # as)\<close> \<open>n \<in> set (head # bs)\<close>
    by (auto simp: list_del_def set_next_def set_prev_def split: Option.bind_splits)
  ultimately show thesis using h1 that by simp
qed

lemma list_empty_iff: "is_list h head xs \<Longrightarrow> list_empty h head = Some (xs = [])"
  using is_list_split(3) [of h head "[]" xs] 
  by (cases xs) (auto simp: list_empty_def is_list_def node_before_def node_after_def)

section \<open>The loops\<close>

lemma list_for_each_elements:
  assumes "is_list h head xs"
  shows "list_for_each h head = Some xs"
proof -
  have from': "linked h (ys @ [head]) \<Longrightarrow> head \<notin> set ys \<Longrightarrow>
      list_for_each_from h (node_after head ys) head = Some ys" for ys
  proof (induction ys)
    case Nil
    then show ?case by (simp add: node_after_def list_for_each_from.simps)
  next
    case (Cons y ys)
    have "get_next h y = Some (node_after head ys)" "linked h (ys @ [head])"
      using Cons.prems(1) by (cases ys; simp add: node_after_def)+
    then show ?case using Cons by (auto simp: node_after_def list_for_each_from.simps [of h y])
  qed
  have "get_next h head = Some (node_after head xs)"
    using is_list_split(3) [of h head "[]" xs] assms by (simp add: node_before_def)
  moreover have "linked h (xs @ [head])" using is_list_split(2) [of h head "[]" xs] assms by simp
  ultimately show ?thesis using from' [of xs] assms by (simp add: list_for_each_def is_list_def)
qed

lemma list_for_each_prev_elements:
  assumes "is_list h head xs"
  shows "list_for_each_prev h head = Some (rev xs)"
proof -
  have from': "linked h (head # ys) \<Longrightarrow> head \<notin> set ys \<Longrightarrow>
      list_for_each_prev_from h (node_before head ys) head = Some (rev ys)" for ys
  proof (induction ys rule: rev_induct)
    case Nil
    then show ?case by (simp add: node_before_def list_for_each_prev_from.simps)
  next
    case (snoc y ys)
    have "linked h (butlast (head # ys) @ node_before head ys # [y])"
      using snoc.prems(1) node_before_snoc [of head ys] by (metis append_Cons append_assoc append_Nil)
    then have "get_prev h y = Some (node_before head ys)" "linked h (head # ys)"
      using linked_append [of h "butlast (head # ys)" "node_before head ys" "[y]"]
        node_before_snoc [of head ys] by auto
    then show ?case using snoc
      by (auto simp: node_before_def list_for_each_prev_from.simps [of h y])
  qed
  have "get_prev h head = Some (node_before head xs)"
    using is_list_split(4) [of h head xs "[]"] assms by (simp add: node_after_def)
  moreover have "linked h (head # xs)" using is_list_split(1) [of h head xs "[]"] assms by simp
  ultimately show ?thesis using from' [of xs] assms by (simp add: list_for_each_prev_def is_list_def)
qed

text \<open>The safe loop runs its body once for every element, whatever the body does to that element,
  as long as the links of those that remain are kept: that is \<open>P\<close>.\<close>

lemma list_for_each_safe_rule:
  assumes start: "P s xs" and head: "head \<notin> set xs" "get_next (nodes_of s) head = Some (node_after head xs)"
    and body: "\<And>s x ys. P s (x # ys) \<Longrightarrow> x \<noteq> head \<Longrightarrow> \<exists>s1. body s x = Some s1 \<and> P s1 ys"
    and links: "\<And>s x ys. P s (x # ys) \<Longrightarrow> get_next (nodes_of s) x = Some (node_after head ys)"
    and last: "\<And>s. P s [] \<Longrightarrow> \<exists>n. get_next (nodes_of s) head = Some n"
  shows "\<exists>s1. list_for_each_safe nodes_of body s head = Some s1 \<and> P s1 []"
proof -
  have after: "\<exists>n. get_next (nodes_of s) (node_after head ys) = Some n" if "P s ys" for s ys
    using that last links by (cases ys) (auto simp: node_after_def)
  have loop: "P s ys \<Longrightarrow> head \<notin> set ys \<Longrightarrow> get_next (nodes_of s) (node_after head ys) = Some el1 \<Longrightarrow>
      \<exists>s1. list_for_each_safe_from nodes_of body s (node_after head ys) el1 head = Some s1 \<and> P s1 []"
    for s ys el1
  proof (induction ys arbitrary: s el1)
    case Nil
    then show ?case by (simp add: node_after_def list_for_each_safe_from.simps)
  next
    case (Cons y ys)
    have el1: "el1 = node_after head ys"
      using links [OF Cons.prems(1)] Cons.prems(3) by (simp add: node_after_def)
    have y: "y \<noteq> head" "node_after head (y # ys) = y" using Cons.prems(2) by (auto simp: node_after_def)
    obtain s1 where s1: "body s y = Some s1" "P s1 ys" using body [OF Cons.prems(1) y(1)] by blast
    obtain n where n: "get_next (nodes_of s1) (node_after head ys) = Some n" using after [OF s1(2)] by blast
    show ?case
      using Cons.IH [OF s1(2) _ n] Cons.prems(2) y s1(1) n el1
      by (simp add: list_for_each_safe_from.simps [of nodes_of body s y])
  qed
  obtain n where "get_next (nodes_of s) (node_after head xs) = Some n" using after [OF start] by blast
  then show ?thesis using loop [OF start head(1)] head(2) by (simp add: list_for_each_safe_def)
qed

text \<open>Unlinking and releasing every node, the use the safe loop is made for.\<close>

definition del_and_free :: "nodes \<Rightarrow> ptr \<Rightarrow> nodes option" where
  "del_and_free h el = do { h1 \<leftarrow> list_del h el; Some (h1(el := None)) }"

lemma is_list_cong:
  "is_list h head xs \<Longrightarrow> (\<And>a. a \<in> set (head # xs) \<Longrightarrow> h1 a = h a) \<Longrightarrow> is_list h1 head xs"
  unfolding is_list_def
  by (auto intro!: linked_cong [of "head # xs @ [head]" h1 h] simp: get_next_def get_prev_def butlast_append
      dest: in_set_butlastD split: if_splits)

lemma del_and_free_is_list:
  assumes l: "is_list h head (as @ el # bs)"
  shows "\<exists>h1. del_and_free h el = Some h1 \<and> is_list h1 head (as @ bs) \<and> el \<notin> dom h1"
proof -
  obtain h1 where h1: "list_del h el = Some h1" "is_list h1 head (as @ bs)"
    using list_del_is_list [OF l] by metis
  have "el \<notin> set (head # as @ bs)" using l by (auto simp: is_list_def)
  then have "is_list (h1(el := None)) head (as @ bs)" by (intro is_list_cong [OF h1(2)]) auto
  then show ?thesis using h1(1) by (simp add: del_and_free_def)
qed

lemma list_for_each_safe_frees:
  assumes "is_list h head xs"
  shows "\<exists>h1. list_for_each_safe (\<lambda>h. h) del_and_free h head = Some h1 \<and> is_list h1 head [] \<and>
    set xs \<inter> dom h1 = {}"
proof -
  have "\<exists>h1. list_for_each_safe (\<lambda>h. h) del_and_free h head = Some h1 \<and>
      (is_list h1 head [] \<and> set xs \<inter> dom h1 \<subseteq> set [])"
  proof (rule list_for_each_safe_rule [of "\<lambda>h1 ys. is_list h1 head ys \<and> set xs \<inter> dom h1 \<subseteq> set ys"])
    show "get_next h head = Some (node_after head xs)"
      using is_list_split(3) [of h head "[]" xs] assms by (simp add: node_before_def)
    fix h x ys
    assume l: "is_list h head (x # ys) \<and> set xs \<inter> dom h \<subseteq> set (x # ys)"
    then show "get_next h x = Some (node_after head ys)"
      using is_list_split(3) [of h head "[x]" ys] by (simp add: node_before_def)
    obtain h1 where h1: "list_del h x = Some h1" "is_list h1 head ys" "dom h1 = dom h"
      using list_del_is_list [of h head "[]" x ys] l by (metis append_Nil)
    have "x \<notin> set (head # ys)" using l by (auto simp: is_list_def)
    then have "is_list (h1(x := None)) head ys" by (intro is_list_cong [OF h1(2)]) auto
    moreover have "set xs \<inter> dom (h1(x := None)) \<subseteq> set ys" using l h1(3) by auto
    ultimately show "\<exists>h1. del_and_free h x = Some h1 \<and>
        (is_list h1 head ys \<and> set xs \<inter> dom h1 \<subseteq> set ys)"
      using h1(1) by (simp add: del_and_free_def)
  next
    fix h assume "is_list h head [] \<and> set xs \<inter> dom h \<subseteq> set []"
    then show "\<exists>n. get_next h head = Some n" by (auto simp: is_list_def)
  qed (use assms in \<open>auto simp: is_list_def\<close>)
  then show ?thesis by auto
qed

section \<open>The list as a queue\<close>

text \<open>What the users of a list rely on: elements join at the end, the first one is found, and an
  element is taken out; releasing or allocating a node that is not in the list changes nothing.\<close>

locale node_queue =
  fixes rep :: "nodes \<Rightarrow> ptr list \<Rightarrow> bool"
    and own :: "ptr \<Rightarrow> bool"
    and push :: "nodes \<Rightarrow> ptr \<Rightarrow> nodes option"
    and first :: "nodes \<Rightarrow> ptr option"
    and remove :: "nodes \<Rightarrow> ptr \<Rightarrow> nodes option"
    and is_empty :: "nodes \<Rightarrow> bool option"
  assumes push: "rep h xs \<Longrightarrow> el \<in> dom h \<Longrightarrow> el \<notin> set xs \<Longrightarrow> \<not> own el \<Longrightarrow>
      \<exists>h1. push h el = Some h1 \<and> rep h1 (xs @ [el]) \<and> dom h1 = dom h"
    and first: "rep h (x # xs) \<Longrightarrow> first h = Some x"
    and remove: "rep h (x # xs) \<Longrightarrow> \<exists>h1. remove h x = Some h1 \<and> rep h1 xs \<and> dom h1 = dom h"
    and is_empty: "rep h xs \<Longrightarrow> is_empty h = Some (xs = [])"
    and other: "rep h xs \<Longrightarrow> a \<notin> set xs \<Longrightarrow> \<not> own a \<Longrightarrow> rep (h(a := n)) xs"
    and live: "rep h xs \<Longrightarrow> set xs \<subseteq> dom h" "rep h xs \<Longrightarrow> distinct xs" "rep h (x # xs) \<Longrightarrow> \<not> own x"
begin

lemma push_fresh:
  assumes "rep h xs" and "h el = None" and "\<not> own el"
  shows "\<exists>h1. push (h(el \<mapsto> n)) el = Some h1 \<and> rep h1 (xs @ [el]) \<and> dom h1 = insert el (dom h)"
proof -
  have "el \<notin> set xs" using live(1) [OF assms(1)] assms(2) by auto
  then show ?thesis using push [of "h(el \<mapsto> n)" xs el] other [OF assms(1) _ assms(3)] assms(3) by auto
qed

lemma pop_and_free:
  assumes "rep h (x # xs)"
  shows "first h = Some x \<and> (\<exists>h1. remove h x = Some h1 \<and> rep h1 xs \<and> dom h1 = dom h \<and>
    rep (h1(x := None)) xs)"
proof -
  obtain h1 where "remove h x = Some h1" "rep h1 xs" "dom h1 = dom h" using remove [OF assms] by blast
  moreover have "x \<notin> set xs" using live(2) [OF assms] by simp
  ultimately show ?thesis using first [OF assms] other live(3) [OF assms] by blast
qed

end

interpretation tail: node_queue "\<lambda>h. is_list h head" "\<lambda>p. p = head" "\<lambda>h el. list_add_tail h el head"
    "\<lambda>h. get_next h head" list_del "\<lambda>h. list_empty h head" for head
proof unfold_locales
  fix h xs el assume "is_list h head xs" "el \<in> dom h" "el \<notin> set xs" "el \<noteq> head"
  then show "\<exists>h1. list_add_tail h el head = Some h1 \<and> is_list h1 head (xs @ [el]) \<and> dom h1 = dom h"
    using list_add_tail_is_list [of h head xs el] by (metis set_ConsD)
next
  fix h x xs assume l: "is_list h head (x # xs)"
  then show "get_next h head = Some x" by (simp add: is_list_def)
  show "\<exists>h1. list_del h x = Some h1 \<and> is_list h1 head xs \<and> dom h1 = dom h"
    using list_del_is_list [of h head "[]" x xs] l by (metis append_Nil)
  show "x \<noteq> head" using l by (auto simp: is_list_def)
next
  fix h xs a n assume "is_list h head xs" "a \<notin> set xs" "a \<noteq> head"
  then show "is_list (h(a := n)) head xs" by (auto intro: is_list_cong [of h])
next
  fix h xs assume l: "is_list h head xs"
  then show "set xs \<subseteq> dom h" using is_list_dom by fastforce
  show "distinct xs" using l by (simp add: is_list_def)
  show "list_empty h head = Some (xs = [])" using l by (rule list_empty_iff)
qed

end
