(* ===== verification/Js_Jobs.thy ===== *)
theory Js_Jobs
  imports List_Head
begin

text \<open>
  The job queue of the QuickJS runtime (\<^verbatim>\<open>quickjs.c\<close>) and the event loop that empties it
  (\<^verbatim>\<open>quickjs-libc.c\<close>). A job is one allocated \<^verbatim>\<open>JSJobEntry\<close> whose first field is its link, so its
  address is its node's. Values are opaque; the runtime's reference counts are a map. Allocation
  and the job functions, which run script code, are parameters.
\<close>

section \<open>The code\<close>

record 'v job =
  job_ctx :: ptr
  job_func :: nat
  job_argv :: "'v list"

record ('v, 'x) runtime =
  rt_nodes :: nodes
  rt_jobs :: "ptr \<Rightarrow> 'v job option"
  rt_refs :: "'v \<Rightarrow> int"
  rt_world :: 'x

text \<open>\<^verbatim>\<open>JS_DupValue\<close> and \<^verbatim>\<open>JS_FreeValue\<close> on every element of an argument array.\<close>

definition dup_values :: "'v list \<Rightarrow> ('v, 'x) runtime \<Rightarrow> ('v, 'x) runtime" where
  "dup_values vs rt = rt\<lparr>rt_refs := fold (\<lambda>v r. r(v := r v + 1)) vs (rt_refs rt)\<rparr>"

definition free_values :: "'v list \<Rightarrow> ('v, 'x) runtime \<Rightarrow> ('v, 'x) runtime" where
  "free_values vs rt = rt\<lparr>rt_refs := fold (\<lambda>v r. r(v := r v - 1)) vs (rt_refs rt)\<rparr>"

text \<open>\<open>alloc\<close> is \<^verbatim>\<open>js_malloc\<close>; \<open>head\<close> is the address of \<^verbatim>\<open>rt->job_list\<close>.\<close>

definition JS_EnqueueJob :: "ptr \<Rightarrow> (('v, 'x) runtime \<Rightarrow> ptr option) \<Rightarrow> ptr \<Rightarrow> nat \<Rightarrow> 'v list \<Rightarrow>
    ('v, 'x) runtime \<Rightarrow> (('v, 'x) runtime \<times> int) option" where
  "JS_EnqueueJob head alloc ctx func argv rt = (case alloc rt of
     None \<Rightarrow> Some (rt, -1)
   | Some e \<Rightarrow> do {
       let job = \<lparr>job_ctx = ctx, job_func = func, job_argv = argv\<rparr>;
       let rt1 = dup_values argv (rt\<lparr>rt_nodes := (rt_nodes rt)(e \<mapsto> \<lparr>lh_prev = 0, lh_next = 0\<rparr>),
                                    rt_jobs := (rt_jobs rt)(e \<mapsto> job)\<rparr>);
       n \<leftarrow> list_add_tail (rt_nodes rt1) e head;
       Some (rt1\<lparr>rt_nodes := n\<rparr>, 0)
     })"

definition JS_IsJobPending :: "ptr \<Rightarrow> ('v, 'x) runtime \<Rightarrow> bool option" where
  "JS_IsJobPending head rt = map_option Not (list_empty (rt_nodes rt) head)"

text \<open>\<open>call\<close> runs the job function; it yields the runtime it leaves, the value returned and whether
  that is the exception marker. The last component is the context stored in \<^verbatim>\<open>*pctx\<close>.\<close>

type_synonym ('v, 'x) job_call = "'v job \<Rightarrow> ('v, 'x) runtime \<Rightarrow> ('v, 'x) runtime \<times> 'v \<times> bool"

definition JS_ExecutePendingJob :: "ptr \<Rightarrow> ('v, 'x) job_call \<Rightarrow> ('v, 'x) runtime \<Rightarrow>
    (('v, 'x) runtime \<times> int \<times> ptr option) option" where
  "JS_ExecutePendingJob head call rt = do {
     empty \<leftarrow> list_empty (rt_nodes rt) head;
     if empty then Some (rt, 0, None)
     else do {
       e \<leftarrow> get_next (rt_nodes rt) head;
       n \<leftarrow> list_del (rt_nodes rt) e;
       job \<leftarrow> rt_jobs rt e;
       let (rt1, res, exc) = call job (rt\<lparr>rt_nodes := n\<rparr>);
       job1 \<leftarrow> rt_jobs rt1 e;
       let rt2 = free_values [res] (free_values (job_argv job1) rt1);
       Some (rt2\<lparr>rt_nodes := (rt_nodes rt2)(e := None), rt_jobs := (rt_jobs rt2)(e := None)\<rparr>,
             if exc then -1 else 1, Some (job_ctx job))
     }
   }"

text \<open>The inner loop of \<^verbatim>\<open>js_std_loop\<close>, which ends with the last code returned, and the loop itself:
  \<open>poll\<close> is \<^verbatim>\<open>os_poll_func\<close> (\<^const>\<open>None\<close>: not set) and \<open>dump\<close> is \<^verbatim>\<open>js_std_dump_error\<close>.\<close>

partial_function (option) run_pending_jobs ::
    "ptr \<Rightarrow> ('v, 'x) job_call \<Rightarrow> ('v, 'x) runtime \<Rightarrow> (('v, 'x) runtime \<times> int \<times> ptr option) option" where
  "run_pending_jobs head call rt = do {
     (rt1, err, ctx) \<leftarrow> JS_ExecutePendingJob head call rt;
     if err \<le> 0 then Some (rt1, err, ctx) else run_pending_jobs head call rt1
   }"

partial_function (option) js_std_loop ::
    "ptr \<Rightarrow> ('v, 'x) job_call \<Rightarrow> (ptr option \<Rightarrow> ('v, 'x) runtime \<Rightarrow> ('v, 'x) runtime) \<Rightarrow>
     (('v, 'x) runtime \<Rightarrow> ('v, 'x) runtime \<times> bool) option \<Rightarrow> ('v, 'x) runtime \<Rightarrow>
     ('v, 'x) runtime option" where
  "js_std_loop head call dump poll rt = do {
     (rt1, err, ctx) \<leftarrow> run_pending_jobs head call rt;
     let rt2 = (if err < 0 then dump ctx rt1 else rt1);
     (case poll of
        None \<Rightarrow> Some rt2
      | Some p \<Rightarrow> let (rt3, stop) = p rt2
                 in if stop then Some rt3 else js_std_loop head call dump poll rt3)
   }"

text \<open>The part of \<^verbatim>\<open>JS_FreeRuntime\<close> that drops the jobs never run: the entries are released without
  being unlinked, and the list is initialised again.\<close>

definition drop_job :: "('v, 'x) runtime \<Rightarrow> ptr \<Rightarrow> ('v, 'x) runtime option" where
  "drop_job rt e = do {
     job \<leftarrow> rt_jobs rt e;
     let rt1 = free_values (job_argv job) rt;
     Some (rt1\<lparr>rt_nodes := (rt_nodes rt1)(e := None), rt_jobs := (rt_jobs rt1)(e := None)\<rparr>)
   }"

definition drop_all_jobs :: "ptr \<Rightarrow> ('v, 'x) runtime \<Rightarrow> ('v, 'x) runtime option" where
  "drop_all_jobs head rt = do {
     rt1 \<leftarrow> list_for_each_safe rt_nodes drop_job rt head;
     n \<leftarrow> init_list_head (rt_nodes rt1) head;
     Some (rt1\<lparr>rt_nodes := n\<rparr>)
   }"

section \<open>The queue it stands for\<close>

text \<open>The addresses in the list, and the jobs behind them, first to run first.\<close>

definition queued :: "ptr \<Rightarrow> ('v, 'x) runtime \<Rightarrow> ptr list \<Rightarrow> 'v job list \<Rightarrow> bool" where
  "queued head rt ps js \<longleftrightarrow> is_list (rt_nodes rt) head ps \<and> map (rt_jobs rt) ps = map Some js"

definition job_queue :: "ptr \<Rightarrow> ('v, 'x) runtime \<Rightarrow> 'v job list \<Rightarrow> bool" where
  "job_queue head rt js \<longleftrightarrow> (\<exists>ps. queued head rt ps js)"

lemma values_fields [simp]:
  "rt_nodes (dup_values vs rt) = rt_nodes rt" "rt_jobs (dup_values vs rt) = rt_jobs rt"
  "rt_world (dup_values vs rt) = rt_world rt"
  "rt_nodes (free_values vs rt) = rt_nodes rt" "rt_jobs (free_values vs rt) = rt_jobs rt"
  "rt_world (free_values vs rt) = rt_world rt"
  by (simp_all add: dup_values_def free_values_def)

lemma refs_fold:
  "fold (\<lambda>v r. r(v := r v + 1)) vs r = (\<lambda>v. r v + int (count_list vs v))"
  "fold (\<lambda>v r. r(v := r v - 1)) vs r = (\<lambda>v. r v - int (count_list vs v))"
  by (induction vs arbitrary: r) (auto simp: fun_eq_iff)

lemma values_refs [simp]:
  "rt_refs (dup_values vs rt) v = rt_refs rt v + int (count_list vs v)"
  "rt_refs (free_values vs rt) v = rt_refs rt v - int (count_list vs v)"
  by (simp_all add: dup_values_def free_values_def refs_fold)

text \<open>The references the queue holds.\<close>

definition queue_refs :: "'v job list \<Rightarrow> 'v \<Rightarrow> int" where
  "queue_refs js v = (\<Sum>j\<leftarrow>js. int (count_list (job_argv j) v))"

lemma queue_refs_simps [simp]:
  "queue_refs [] v = 0" "queue_refs (j # js) v = int (count_list (job_argv j) v) + queue_refs js v"
  "queue_refs (js @ js1) v = queue_refs js v + queue_refs js1 v"
  by (simp_all add: queue_refs_def)

lemma JS_IsJobPending_iff: "job_queue head rt js \<Longrightarrow> JS_IsJobPending head rt = Some (js \<noteq> [])"
  by (auto simp: job_queue_def queued_def JS_IsJobPending_def tail.is_empty)

text \<open>Enqueuing puts the job last and takes a reference to every argument; when there is no
  memory nothing changes.\<close>

lemma JS_EnqueueJob_queued:
  assumes q: "queued head rt ps js"
    and fresh: "\<And>e. alloc rt = Some e \<Longrightarrow> rt_nodes rt e = None"
    and j: "j = \<lparr>job_ctx = ctx, job_func = f, job_argv = argv\<rparr>"
  shows "\<exists>rt1 r. JS_EnqueueJob head alloc ctx f argv rt = Some (rt1, r) \<and>
    rt_world rt1 = rt_world rt \<and>
    (case alloc rt of None \<Rightarrow> r = -1 \<and> rt1 = rt
     | Some e \<Rightarrow> r = 0 \<and> queued head rt1 (ps @ [e]) (js @ [j]) \<and> rt_jobs rt1 = (rt_jobs rt)(e \<mapsto> j) \<and>
       rt_refs rt1 = (\<lambda>v. rt_refs rt v + queue_refs [j] v))"
proof (cases "alloc rt")
  case None
  then show ?thesis by (simp add: JS_EnqueueJob_def)
next
  case (Some e)
  have ps: "is_list (rt_nodes rt) head ps" "map (rt_jobs rt) ps = map Some js"
    using q by (auto simp: queued_def)
  have e: "rt_nodes rt e = None" "e \<notin> set ps" "e \<noteq> head"
    using fresh [OF Some] is_list_dom [OF ps(1)] by auto
  obtain n where n: "list_add_tail ((rt_nodes rt)(e \<mapsto> \<lparr>lh_prev = 0, lh_next = 0\<rparr>)) e head = Some n"
      "is_list n head (ps @ [e])"
    using tail.push_fresh [OF ps(1) e(1) e(3)] by blast
  define rt1 where "rt1 = (dup_values argv (rt\<lparr>rt_nodes := (rt_nodes rt)(e \<mapsto> \<lparr>lh_prev = 0, lh_next = 0\<rparr>),
      rt_jobs := (rt_jobs rt)(e \<mapsto> j)\<rparr>))\<lparr>rt_nodes := n\<rparr>"
  have "JS_EnqueueJob head alloc ctx f argv rt = Some (rt1, 0)"
    using n(1) by (simp add: JS_EnqueueJob_def Some rt1_def j)
  moreover have "queued head rt1 (ps @ [e]) (js @ [j])"
    unfolding queued_def using n(2) ps(2) e(2) by (auto simp: rt1_def intro: map_cong)
  moreover have "rt_refs rt1 = (\<lambda>v. rt_refs rt v + queue_refs [j] v)"
    by (simp add: rt1_def fun_eq_iff queue_refs_def j)
  moreover have "rt_world rt1 = rt_world rt" "rt_jobs rt1 = (rt_jobs rt)(e \<mapsto> j)"
    by (simp_all add: rt1_def)
  ultimately show ?thesis using Some by auto
qed

text \<open>What a job may do, seen from the queue: the jobs it enqueues, what becomes of the rest of the
  world, and whether it throws. The description is a set of outcomes, because what a job does may
  depend on more than the queue and the world, on the memory that is left for instance. A call
  keeps to such a description when its effect is one of the outcomes, it appends just those
  jobs, leaves the entry of the running job alone, and takes just the references that the queue
  and its result hold.\<close>

type_synonym ('v, 'x) job_spec = "'v job \<Rightarrow> 'x \<Rightarrow> ('v job list \<times> 'x \<times> bool) set"

definition lawful_call :: "ptr \<Rightarrow> ('v, 'x) job_call \<Rightarrow> ('v, 'x) job_spec \<Rightarrow> bool" where
  "lawful_call head call spec \<longleftrightarrow> (\<forall>j rt e ps js rt1 res exc.
     rt_jobs rt e = Some j \<longrightarrow> rt_nodes rt e \<noteq> None \<longrightarrow> e \<notin> set (head # ps) \<longrightarrow> queued head rt ps js \<longrightarrow>
     call j rt = (rt1, res, exc) \<longrightarrow>
     (\<exists>added new. (added, rt_world rt1, exc) \<in> spec j (rt_world rt) \<and>
       queued head rt1 (ps @ new) (js @ added) \<and> e \<notin> set new \<and> rt_jobs rt1 e = Some j \<and>
       rt_refs rt1 = (\<lambda>v. rt_refs rt v + queue_refs added v + int (count_list [res] v))))"

lemma queued_free:
  assumes "queued head rt ps js" and "e \<notin> set (head # ps)"
  shows "queued head (rt\<lparr>rt_nodes := (rt_nodes rt)(e := None), rt_jobs := (rt_jobs rt)(e := None)\<rparr>) ps js"
proof -
  have "is_list ((rt_nodes rt)(e := None)) head ps"
  proof (rule is_list_cong)
    show "is_list (rt_nodes rt) head ps" using assms(1) by (simp add: queued_def)
    show "((rt_nodes rt)(e := None)) a = rt_nodes rt a" if "a \<in> set (head # ps)" for a
      using that assms(2) by (cases "a = e") simp_all
  qed
  moreover have "map ((rt_jobs rt)(e := None)) ps = map (rt_jobs rt) ps"
    using assms(2) by (intro map_cong) auto
  then have "map ((rt_jobs rt)(e := None)) ps = map Some js" using assms(1) by (simp only: queued_def)
  ultimately show ?thesis by (simp add: queued_def del: map_eq_conv map_fun_upd)
qed

text \<open>Executing takes the first job, gives back its references, and appends what it enqueued.\<close>

lemma JS_ExecutePendingJob_first:
  assumes q: "job_queue head rt (j # js)" and law: "lawful_call head call spec"
  shows "\<exists>rt1 added ex. JS_ExecutePendingJob head call rt =
      Some (rt1, if ex then -1 else 1, Some (job_ctx j)) \<and>
    (added, rt_world rt1, ex) \<in> spec j (rt_world rt) \<and> job_queue head rt1 (js @ added) \<and>
    (\<forall>v. rt_refs rt1 v = rt_refs rt v - queue_refs (j # js) v + queue_refs (js @ added) v)"
proof -
  obtain e ps where ps: "is_list (rt_nodes rt) head (e # ps)" "rt_jobs rt e = Some j"
      "map (rt_jobs rt) ps = map Some js"
    using q by (auto simp: job_queue_def queued_def Cons_eq_map_conv map_eq_Cons_conv)
  obtain n where n: "list_del (rt_nodes rt) e = Some n" "is_list n head ps" "dom n = dom (rt_nodes rt)"
    using tail.remove [OF ps(1)] by blast
  have e: "e \<notin> set (head # ps)" "n e \<noteq> None"
    using ps(1) is_list_dom [OF ps(1)] n(3) by (auto simp: is_list_def)
  define rt0 where "rt0 = rt\<lparr>rt_nodes := n\<rparr>"
  obtain rt1 res exc where c: "call j rt0 = (rt1, res, exc)" by (cases "call j rt0")
  have "queued head rt0 ps js" "rt_jobs rt0 e = Some j" "rt_nodes rt0 e \<noteq> None"
    using n(2) ps(2,3) e(2) by (simp_all add: queued_def rt0_def)
  then obtain added new where l: "(added, rt_world rt1, exc) \<in> spec j (rt_world rt0)"
      "queued head rt1 (ps @ new) (js @ added)" "e \<notin> set new" "rt_jobs rt1 e = Some j"
      "rt_refs rt1 = (\<lambda>v. rt_refs rt0 v + queue_refs added v + int (count_list [res] v))"
    using law c e(1) unfolding lawful_call_def by blast
  define rt2 where "rt2 = free_values [res] (free_values (job_argv j) rt1)"
  define rt3 where "rt3 = rt2\<lparr>rt_nodes := (rt_nodes rt2)(e := None), rt_jobs := (rt_jobs rt2)(e := None)\<rparr>"
  have "JS_ExecutePendingJob head call rt = Some (rt3, if exc then -1 else 1, Some (job_ctx j))"
    using tail.is_empty [OF ps(1)] tail.first [OF ps(1)] n(1) ps(2) c l(4)
    by (simp add: JS_ExecutePendingJob_def rt0_def rt2_def rt3_def Let_def)
  moreover have "queued head rt2 (ps @ new) (js @ added)" using l(2) by (simp add: queued_def rt2_def)
  then have "queued head rt3 (ps @ new) (js @ added)"
    unfolding rt3_def using e(1) l(3) by (intro queued_free) auto
  then have "job_queue head rt3 (js @ added)" unfolding job_queue_def by blast
  moreover have "rt_refs rt3 v = rt_refs rt v - queue_refs (j # js) v + queue_refs (js @ added) v" for v
    by (simp add: rt3_def rt2_def l(5) rt0_def)
  moreover have "rt_world rt3 = rt_world rt1" by (simp add: rt3_def rt2_def)
  moreover have "rt_world rt0 = rt_world rt" by (simp add: rt0_def)
  ultimately show ?thesis using l(1) by metis
qed

lemma JS_ExecutePendingJob_none:
  "job_queue head rt [] \<Longrightarrow> JS_ExecutePendingJob head call rt = Some (rt, 0, None)"
  by (auto simp: job_queue_def queued_def JS_ExecutePendingJob_def tail.is_empty)

section \<open>Running the queue\<close>

text \<open>The runs of an abstract queue: jobs leave at the front and enter at the back until none is
  left or one throws.\<close>

inductive queue_run :: "('v, 'x) job_spec \<Rightarrow> 'v job list \<Rightarrow> 'x \<Rightarrow> 'v job list \<Rightarrow> 'x \<Rightarrow> int \<Rightarrow> bool"
  for spec where
  run_done: "queue_run spec [] x [] x 0"
| run_throw: "(added, x1, True) \<in> spec j x \<Longrightarrow> queue_run spec (j # js) x (js @ added) x1 (-1)"
| run_step: "(added, x1, False) \<in> spec j x \<Longrightarrow> queue_run spec (js @ added) x1 js2 x2 r \<Longrightarrow>
    queue_run spec (j # js) x js2 x2 r"

inductive_simps queue_run_simps:
  "queue_run spec [] x js2 x2 r"
  "queue_run spec (j # js) x js2 x2 r"

text \<open>A queue ends when no run of it goes on for ever.\<close>

inductive queue_ends :: "('v, 'x) job_spec \<Rightarrow> 'v job list \<Rightarrow> 'x \<Rightarrow> bool" for spec where
  ends_empty: "queue_ends spec [] x"
| ends_job: "(\<And>added x1. (added, x1, False) \<in> spec j x \<Longrightarrow> queue_ends spec (js @ added) x1) \<Longrightarrow>
    queue_ends spec (j # js) x"

lemma run_pending_jobs_refines:
  assumes run: "queue_ends spec js x" and law: "lawful_call head call spec"
  shows "job_queue head rt js \<Longrightarrow> rt_world rt = x \<Longrightarrow>
    \<exists>rt1 r ctx js2. run_pending_jobs head call rt = Some (rt1, r, ctx) \<and>
      queue_run spec js x js2 (rt_world rt1) r \<and> job_queue head rt1 js2 \<and>
      (\<forall>v. rt_refs rt1 v - queue_refs js2 v = rt_refs rt v - queue_refs js v)"
  using run
proof (induction arbitrary: rt rule: queue_ends.induct)
  case (ends_empty x)
  then show ?case
    using JS_ExecutePendingJob_none [OF ends_empty(1), of call]
    by (simp add: run_pending_jobs.simps [of head call rt] queue_run_simps)
next
  case (ends_job j x js)
  obtain rt1 added ex where rt1: "JS_ExecutePendingJob head call rt =
        Some (rt1, if ex then -1 else 1, Some (job_ctx j))"
      "(added, rt_world rt1, ex) \<in> spec j x" "job_queue head rt1 (js @ added)"
      "\<forall>v. rt_refs rt1 v = rt_refs rt v - queue_refs (j # js) v + queue_refs (js @ added) v"
    using JS_ExecutePendingJob_first [OF ends_job.prems(1) law] ends_job.prems(2) by blast
  show ?case
  proof (cases ex)
    case True
    then have "queue_run spec (j # js) x (js @ added) (rt_world rt1) (-1)"
      using rt1(2) by (simp add: queue_run.run_throw)
    then show ?thesis using rt1 True
      by (intro exI [of _ rt1] exI [of _ "-1"] exI [of _ "Some (job_ctx j)"] exI [of _ "js @ added"])
        (simp add: run_pending_jobs.simps [of head call rt])
  next
    case False
    then have step: "(added, rt_world rt1, False) \<in> spec j x" using rt1(2) by simp
    obtain rt2 r ctx js2 where rt2: "run_pending_jobs head call rt1 = Some (rt2, r, ctx)"
        "queue_run spec (js @ added) (rt_world rt1) js2 (rt_world rt2) r" "job_queue head rt2 js2"
        "\<forall>v. rt_refs rt2 v - queue_refs js2 v = rt_refs rt1 v - queue_refs (js @ added) v"
      using ends_job.IH [OF step rt1(3) refl] by blast
    have "queue_run spec (j # js) x js2 (rt_world rt2) r" by (rule queue_run.run_step [OF step rt2(2)])
    then show ?thesis using rt1(1,4) rt2 False
      by (intro exI [of _ rt2] exI [of _ r] exI [of _ ctx] exI [of _ js2])
        (simp add: run_pending_jobs.simps [of head call rt])
  qed
qed

text \<open>Jobs that enqueue nothing and do not throw all run, once each, in the order they were
  enqueued.\<close>

lemma queue_run_quiet:
  assumes "\<And>j x. spec j x = {([], f j x, False)}"
  shows "queue_ends spec js x" and "queue_run spec js x js2 x2 r \<longleftrightarrow> js2 = [] \<and> x2 = fold f js x \<and> r = 0"
proof -
  show "queue_ends spec js x"
    by (induction js arbitrary: x) (auto intro: queue_ends.intros simp: assms)
  show "queue_run spec js x js2 x2 r \<longleftrightarrow> js2 = [] \<and> x2 = fold f js x \<and> r = 0"
    by (induction js arbitrary: x) (simp_all add: queue_run_simps assms)
qed

text \<open>Jobs that may each enqueue one more through \<^const>\<open>JS_EnqueueJob\<close>, with an allocator whose
  pool of addresses can run out: then the job throws. They keep to a description with two
  outcomes.\<close>

definition pool_alloc :: "ptr list \<Rightarrow> ('v, 'x) runtime \<Rightarrow> ptr option" where
  "pool_alloc pool rt = find (\<lambda>p. rt_nodes rt p = None) pool"

lemma pool_alloc_fresh: "pool_alloc pool rt = Some e \<Longrightarrow> rt_nodes rt e = None"
  by (auto simp: pool_alloc_def find_Some_iff)

definition ran :: "nat \<Rightarrow> (nat, nat list) runtime \<Rightarrow> (nat, nat list) runtime" where
  "ran f rt = rt\<lparr>rt_world := rt_world rt @ [f], rt_refs := (rt_refs rt)(0 := rt_refs rt 0 + 1)\<rparr>"

definition spawning :: "ptr \<Rightarrow> ptr list \<Rightarrow> (nat \<Rightarrow> nat job option) \<Rightarrow> (nat, nat list) job_call" where
  "spawning head pool next j rt = (case next (job_func j) of
     None \<Rightarrow> (ran (job_func j) rt, 0, False)
   | Some k \<Rightarrow> (case JS_EnqueueJob head (pool_alloc pool) (job_ctx k) (job_func k) (job_argv k) rt of
       None \<Rightarrow> (rt, 0, False)
     | Some (rt1, r) \<Rightarrow> (ran (job_func j) rt1, 0, r < 0)))"

definition spawn_spec :: "(nat \<Rightarrow> nat job option) \<Rightarrow> (nat, nat list) job_spec" where
  "spawn_spec next j x = (case next (job_func j) of
     None \<Rightarrow> {([], x @ [job_func j], False)}
   | Some k \<Rightarrow> {([k], x @ [job_func j], False), ([], x @ [job_func j], True)})"

lemma ran_fields [simp]:
  "rt_nodes (ran f rt) = rt_nodes rt" "rt_jobs (ran f rt) = rt_jobs rt"
  "rt_world (ran f rt) = rt_world rt @ [f]"
  "rt_refs (ran f rt) = (\<lambda>v. rt_refs rt v + int (count_list [0] v))"
  by (auto simp: ran_def)

lemma spawning_lawful: "lawful_call head (spawning head pool next) (spawn_spec next)"
  unfolding lawful_call_def
proof (intro allI impI)
  fix j rt e ps js rt1 res exc
  assume e: "rt_jobs rt e = Some j" "rt_nodes rt e \<noteq> None" and q: "queued head rt ps js"
    and c: "spawning head pool next j rt = (rt1, res, exc)"
  show "\<exists>added new. (added, rt_world rt1, exc) \<in> spawn_spec next j (rt_world rt) \<and>
      queued head rt1 (ps @ new) (js @ added) \<and> e \<notin> set new \<and> rt_jobs rt1 e = Some j \<and>
      rt_refs rt1 = (\<lambda>v. rt_refs rt v + queue_refs added v + int (count_list [res] v))"
  proof (cases "next (job_func j)")
    case None
    then show ?thesis using e q c
      by (intro exI [of _ "[]"]) (auto simp: spawning_def spawn_spec_def queued_def)
  next
    case (Some k)
    let ?alloc = "pool_alloc pool :: (nat, nat list) runtime \<Rightarrow> ptr option"
    obtain rt2 r where rt2: "JS_EnqueueJob head ?alloc (job_ctx k) (job_func k) (job_argv k) rt = Some (rt2, r)"
        "rt_world rt2 = rt_world rt"
        "case ?alloc rt of None \<Rightarrow> r = -1 \<and> rt2 = rt
         | Some a \<Rightarrow> r = 0 \<and> queued head rt2 (ps @ [a]) (js @ [k]) \<and> rt_jobs rt2 = (rt_jobs rt)(a \<mapsto> k) \<and>
           rt_refs rt2 = (\<lambda>v. rt_refs rt v + queue_refs [k] v)"
      using JS_EnqueueJob_queued [OF q, of ?alloc k "job_ctx k" "job_func k" "job_argv k"]
        pool_alloc_fresh by fastforce
    have rt1: "rt1 = ran (job_func j) rt2" "res = 0" "exc = (r < 0)"
      using c Some rt2(1) by (auto simp: spawning_def)
    show ?thesis
    proof (cases "?alloc rt")
      case None
      then show ?thesis using rt1 rt2 Some e q
        by (intro exI [of _ "[]"]) (auto simp: spawn_spec_def queued_def)
    next
      case (Some a)
      then have "a \<noteq> e" using pool_alloc_fresh [of pool rt a] e(2) by auto
      then show ?thesis using rt1 rt2 Some \<open>next (job_func j) = Some k\<close> e q
        by (intro exI [of _ "[k]"] exI [of _ "[a]"]) (auto simp: spawn_spec_def queued_def fun_eq_iff)
    qed
  qed
qed

section \<open>Dropping the queue\<close>

lemma drop_all_jobs_empties:
  fixes rt :: "('v, 'x) runtime"
  assumes "job_queue head rt js"
  shows "\<exists>rt1. drop_all_jobs head rt = Some rt1 \<and> job_queue head rt1 [] \<and>
    rt_world rt1 = rt_world rt \<and> (\<forall>v. rt_refs rt1 v = rt_refs rt v - queue_refs js v)"
proof -
  obtain ps where ps: "is_list (rt_nodes rt) head ps" "map (rt_jobs rt) ps = map Some js"
    using assms by (auto simp: job_queue_def queued_def)
  define P where "P rt1 qs \<longleftrightarrow> linked (rt_nodes rt1) (qs @ [head]) \<and> distinct (head # qs) \<and>
      rt_nodes rt1 head \<noteq> None \<and> rt_world rt1 = rt_world rt \<and>
      (\<exists>ks. map (rt_jobs rt1) qs = map Some ks \<and>
        (\<forall>v. rt_refs rt1 v - queue_refs ks v = rt_refs rt v - queue_refs js v))"
    for rt1 :: "('v, 'x) runtime" and qs
  have "\<exists>rt1. list_for_each_safe rt_nodes drop_job rt head = Some rt1 \<and> P rt1 []"
  proof (rule list_for_each_safe_rule)
    show "P rt ps"
      using ps is_list_split(2) [of "rt_nodes rt" head "[]" ps] is_list_dom [OF ps(1)]
      by (auto simp: P_def is_list_def)
    show "head \<notin> set ps" using ps(1) by (simp add: is_list_def)
    show "get_next (rt_nodes rt) head = Some (node_after head ps)"
      using is_list_split(3) [of "rt_nodes rt" head "[]" ps] ps(1) by (simp add: node_before_def)
    fix s x ys
    assume "P s (x # ys)"
    then show "get_next (rt_nodes s) x = Some (node_after head ys)"
      by (cases ys) (auto simp: P_def node_after_def)
    from \<open>P s (x # ys)\<close> obtain k ks where k: "rt_jobs s x = Some k" "map (rt_jobs s) ys = map Some ks"
        "\<forall>v. rt_refs s v - queue_refs (k # ks) v = rt_refs rt v - queue_refs js v"
      by (auto simp: P_def Cons_eq_map_conv)
    have x: "x \<notin> set ys" "x \<noteq> head" and lk: "linked (rt_nodes s) (ys @ [head])"
      using \<open>P s (x # ys)\<close> by (cases ys; auto simp: P_def)+
    define s1 where "s1 = (free_values (job_argv k) s)
      \<lparr>rt_nodes := (rt_nodes s)(x := None), rt_jobs := (rt_jobs s)(x := None)\<rparr>"
    have "drop_job s x = Some s1" by (simp add: drop_job_def k(1) s1_def)
    moreover have "linked (rt_nodes s1) (ys @ [head])"
      by (rule linked_cong [OF _ _ lk])
        (use x in \<open>auto simp: s1_def get_next_def get_prev_def butlast_append
           dest: list.set_sel(2) [rotated] in_set_butlastD split: if_splits\<close>)
    moreover have "map (rt_jobs s1) ys = map Some ks" using k(2) x(1) by (auto simp: s1_def intro: map_cong)
    then have "\<exists>ks. map (rt_jobs s1) ys = map Some ks \<and>
        (\<forall>v. rt_refs s1 v - queue_refs ks v = rt_refs rt v - queue_refs js v)"
      using k(3) by (intro exI [of _ ks]) (simp add: s1_def algebra_simps)
    ultimately show "\<exists>s1. drop_job s x = Some s1 \<and> P s1 ys"
      using \<open>P s (x # ys)\<close> x by (auto simp: P_def s1_def)
  next
    fix s assume "P s []"
    then show "\<exists>n. get_next (rt_nodes s) head = Some n" by (auto simp: P_def get_next_def)
  qed
  then obtain rt1 where rt1: "list_for_each_safe rt_nodes drop_job rt head = Some rt1" "P rt1 []" by blast
  obtain n where "init_list_head (rt_nodes rt1) head = Some n" "is_list n head []"
    using init_list_head_empty [of head "rt_nodes rt1"] rt1(2) by (auto simp: P_def)
  then show ?thesis using rt1
    by (auto simp: drop_all_jobs_def P_def job_queue_def queued_def intro!: exI [of _ "[]"])
qed

end
