(* ===== verification/Char_Range.thy ===== *)
theory Char_Range
  imports Cutils
begin

text \<open>
  The character ranges of QuickJS's \<^verbatim>\<open>libunicode\<close>: a set of codes as an array of points, sorted,
  where the codes from an even-numbered point up to the next are in. The allocation function is a
  parameter with a state of its own and may fail; an access outside an array, a signed overflow and
  \<^verbatim>\<open>abort\<close> are \<^const>\<open>None\<close>.
\<close>

section \<open>The code\<close>

text \<open>An \<^verbatim>\<open>int\<close> computed without overflow.\<close>

definition c_int :: "int \<Rightarrow> int option" where
  "c_int i = (if - (2 ^ 31) \<le> i \<and> i < 2 ^ 31 then Some i else None)"

type_synonym 'h points_realloc = "'h \<Rightarrow> u32 list option \<Rightarrow> u64 \<Rightarrow> 'h \<times> u32 list option"

record 'h char_range =
  cr_len :: int
  cr_size :: int
  cr_points :: "u32 list option"
  cr_opaque :: 'h
  cr_realloc_func :: "'h points_realloc"

definition cr_init :: "'h points_realloc \<Rightarrow> 'h \<Rightarrow> 'h points_realloc option \<Rightarrow> 'h char_range" where
  "cr_init cr_default_realloc opq f = \<lparr>cr_len = 0, cr_size = 0, cr_points = None, cr_opaque = opq,
     cr_realloc_func = (case f of None \<Rightarrow> cr_default_realloc | Some g \<Rightarrow> g)\<rparr>"

text \<open>\<^verbatim>\<open>cr_free\<close>, as the state of the allocator after it.\<close>

definition cr_free :: "'h char_range \<Rightarrow> 'h" where
  "cr_free cr = fst (cr_realloc_func cr (cr_opaque cr) (cr_points cr) 0)"

definition cr_realloc :: "'h char_range \<Rightarrow> int \<Rightarrow> ('h char_range \<times> int) option" where
  "cr_realloc cr sz =
     (if sz > cr_size cr then do {
        t \<leftarrow> c_int (cr_size cr * 3);
        let new_size = max_int sz (t div 2);
        (case cr_realloc_func cr (cr_opaque cr) (cr_points cr) (word_of_int (new_size * 4)) of
           (h, None) \<Rightarrow> Some (cr\<lparr>cr_opaque := h\<rparr>, -1)
         | (h, Some b) \<Rightarrow> Some (cr\<lparr>cr_opaque := h, cr_points := Some b, cr_size := new_size\<rparr>, 0))
      }
      else Some (cr, 0))"

definition points_wr :: "u32 list option \<Rightarrow> int \<Rightarrow> u32 \<Rightarrow> u32 list option" where
  "points_wr pts i v = (case pts of None \<Rightarrow> None | Some xs \<Rightarrow> if 0 \<le> i then wr xs (nat i) v else None)"

definition cr_add_point :: "'h char_range \<Rightarrow> u32 \<Rightarrow> ('h char_range \<times> int) option" where
  "cr_add_point cr v = do {
     (cr1, r) \<leftarrow> (if cr_len cr \<ge> cr_size cr
       then do { n \<leftarrow> c_int (cr_len cr + 1); cr_realloc cr n } else Some (cr, 0));
     if r \<noteq> 0 then Some (cr1, -1)
     else do {
       xs \<leftarrow> points_wr (cr_points cr1) (cr_len cr1) v;
       Some (cr1\<lparr>cr_points := Some xs, cr_len := cr_len cr1 + 1\<rparr>, 0)
     }
   }"

definition cr_add_interval :: "'h char_range \<Rightarrow> u32 \<Rightarrow> u32 \<Rightarrow> ('h char_range \<times> int) option" where
  "cr_add_interval cr c1 c2 = do {
     n \<leftarrow> c_int (cr_len cr + 2);
     (cr1, r) \<leftarrow> (if n > cr_size cr then cr_realloc cr n else Some (cr, 0));
     if r \<noteq> 0 then Some (cr1, -1)
     else do {
       xs \<leftarrow> points_wr (cr_points cr1) (cr_len cr1) c1;
       ys \<leftarrow> points_wr (Some xs) (cr_len cr1 + 1) c2;
       Some (cr1\<lparr>cr_points := Some ys, cr_len := cr_len cr1 + 2\<rparr>, 0)
     }
   }"

text \<open>The points in use, as an array to copy from.\<close>

definition points_used :: "u32 list option \<Rightarrow> int \<Rightarrow> u32 list option" where
  "points_used pts n = (if n \<le> 0 then Some []
     else case pts of None \<Rightarrow> None | Some xs \<Rightarrow> if nat n \<le> length xs then Some (take (nat n) xs) else None)"

text \<open>\<^verbatim>\<open>memcpy\<close> and \<^verbatim>\<open>memmove\<close> of points to index \<open>i\<close>.\<close>

definition points_copy :: "u32 list option \<Rightarrow> nat \<Rightarrow> u32 list \<Rightarrow> u32 list option option" where
  "points_copy pts i src = (if src = [] then Some pts
     else case pts of None \<Rightarrow> None
     | Some xs \<Rightarrow> if i + length src \<le> length xs
                 then Some (Some (take i xs @ src @ drop (i + length src) xs)) else None)"

definition cr_copy :: "'h char_range \<Rightarrow> 'h char_range \<Rightarrow> ('h char_range \<times> int) option" where
  "cr_copy cr cr1 = do {
     (cr2, r) \<leftarrow> cr_realloc cr (cr_len cr1);
     if r \<noteq> 0 then Some (cr2, -1)
     else do {
       src \<leftarrow> points_used (cr_points cr1) (cr_len cr1);
       pts \<leftarrow> points_copy (cr_points cr2) 0 src;
       Some (cr2\<lparr>cr_points := pts, cr_len := cr_len cr1\<rparr>, 0)
     }
   }"

text \<open>The loops of \<^verbatim>\<open>cr_compress\<close>, in place.\<close>

partial_function (option) compress_run :: "u32 list \<Rightarrow> nat \<Rightarrow> nat \<Rightarrow> nat option" where
  "compress_run pt len j =
     (if j + 3 < len then do {
        a \<leftarrow> rd pt (j + 1);
        b \<leftarrow> rd pt (j + 2);
        if a = b then compress_run pt len (j + 2) else Some j
      } else Some j)"

partial_function (option) compress_loop :: "u32 list \<Rightarrow> nat \<Rightarrow> nat \<Rightarrow> nat \<Rightarrow> (u32 list \<times> nat) option" where
  "compress_loop pt len i k =
     (if i + 1 < len then do {
        a \<leftarrow> rd pt i;
        b \<leftarrow> rd pt (i + 1);
        if a = b then compress_loop pt len (i + 2) k
        else do {
          j \<leftarrow> compress_run pt len i;
          pt1 \<leftarrow> wr pt k a;
          c \<leftarrow> rd pt1 (j + 1);
          pt2 \<leftarrow> wr pt1 (k + 1) c;
          compress_loop pt2 len (j + 2) (k + 2)
        }
      } else Some (pt, k))"

definition cr_compress :: "'h char_range \<Rightarrow> 'h char_range option" where
  "cr_compress cr = (case cr_points cr of
     None \<Rightarrow> (if cr_len cr \<le> 1 then Some (cr\<lparr>cr_len := 0\<rparr>) else None)
   | Some pt \<Rightarrow> do {
       (pt1, k) \<leftarrow> compress_loop pt (nat (cr_len cr)) 0 0;
       Some (cr\<lparr>cr_points := Some pt1, cr_len := int k\<rparr>)
     })"

definition CR_OP_UNION :: nat where "CR_OP_UNION = 0"
definition CR_OP_INTER :: nat where "CR_OP_INTER = 1"
definition CR_OP_XOR :: nat where "CR_OP_XOR = 2"

definition cr_is_in :: "nat \<Rightarrow> bool \<Rightarrow> bool \<Rightarrow> bool option" where
  "cr_is_in op1 a b =
     (if op1 = CR_OP_UNION then Some (a \<or> b)
      else if op1 = CR_OP_INTER then Some (a \<and> b)
      else if op1 = CR_OP_XOR then Some (a \<noteq> b)
      else None)"

text \<open>The point that comes next and the two indices after it; \<^const>\<open>None\<close> inside when both arrays
  are used up.\<close>

definition next_point :: "u32 list \<Rightarrow> nat \<Rightarrow> u32 list \<Rightarrow> nat \<Rightarrow> nat \<Rightarrow> nat \<Rightarrow> (u32 \<times> nat \<times> nat) option option" where
  "next_point a a_len b b_len ai bi =
     (if ai < a_len \<and> bi < b_len then do {
        x \<leftarrow> rd a ai;
        y \<leftarrow> rd b bi;
        Some (Some (if x < y then (x, ai + 1, bi) else if x = y then (x, ai + 1, bi + 1)
                    else (y, ai, bi + 1)))
      }
      else if ai < a_len then do { x \<leftarrow> rd a ai; Some (Some (x, ai + 1, bi)) }
      else if bi < b_len then do { y \<leftarrow> rd b bi; Some (Some (y, ai, bi + 1)) }
      else Some None)"

partial_function (option) cr_op_loop ::
    "'h char_range \<Rightarrow> u32 list \<Rightarrow> nat \<Rightarrow> u32 list \<Rightarrow> nat \<Rightarrow> nat \<Rightarrow> nat \<Rightarrow> nat \<Rightarrow> ('h char_range \<times> int) option" where
  "cr_op_loop cr a a_len b b_len op1 ai bi = do {
     np \<leftarrow> next_point a a_len b b_len ai bi;
     (case np of
        None \<Rightarrow> Some (cr, 0)
      | Some (v, ai1, bi1) \<Rightarrow> do {
          is_in \<leftarrow> cr_is_in op1 (odd ai1) (odd bi1);
          if is_in \<noteq> odd (cr_len cr) then do {
            (cr1, r) \<leftarrow> cr_add_point cr v;
            if r \<noteq> 0 then Some (cr1, -1) else cr_op_loop cr1 a a_len b b_len op1 ai1 bi1
          }
          else cr_op_loop cr a a_len b b_len op1 ai1 bi1
        })
   }"

definition cr_op :: "'h char_range \<Rightarrow> u32 list \<Rightarrow> int \<Rightarrow> u32 list \<Rightarrow> int \<Rightarrow> nat \<Rightarrow> ('h char_range \<times> int) option" where
  "cr_op cr a_pt a_len b_pt b_len op1 = do {
     (cr1, r) \<leftarrow> cr_op_loop cr a_pt (nat a_len) b_pt (nat b_len) op1 0 0;
     if r \<noteq> 0 then Some (cr1, -1)
     else do { cr2 \<leftarrow> cr_compress cr1; Some (cr2, 0) }
   }"

text \<open>The old points are read from the copy \<^verbatim>\<open>a\<close>, which is released at the end: it shares the
  allocator with \<^verbatim>\<open>cr\<close>.\<close>

definition cr_union1 :: "'h char_range \<Rightarrow> u32 list \<Rightarrow> int \<Rightarrow> ('h char_range \<times> int) option" where
  "cr_union1 cr b_pt b_len = do {
     a_pt \<leftarrow> points_used (cr_points cr) (cr_len cr);
     (cr1, ret) \<leftarrow> cr_op (cr\<lparr>cr_len := 0, cr_size := 0, cr_points := None\<rparr>) a_pt (cr_len cr) b_pt b_len
       CR_OP_UNION;
     let h = cr_free (cr\<lparr>cr_opaque := cr_opaque cr1\<rparr>);
     Some (cr1\<lparr>cr_opaque := h\<rparr>, ret)
   }"

definition cr_union_interval :: "'h char_range \<Rightarrow> u32 \<Rightarrow> u32 \<Rightarrow> ('h char_range \<times> int) option" where
  "cr_union_interval cr c1 c2 = cr_union1 cr [c1, c2 + 1] 2"

definition cr_invert :: "'h char_range \<Rightarrow> ('h char_range \<times> int) option" where
  "cr_invert cr = do {
     let len = cr_len cr;
     n \<leftarrow> c_int (len + 2);
     (cr1, r) \<leftarrow> cr_realloc cr n;
     if r \<noteq> 0 then Some (cr1, -1)
     else do {
       src \<leftarrow> points_used (cr_points cr1) len;
       pts \<leftarrow> points_copy (cr_points cr1) 1 src;
       xs \<leftarrow> points_wr pts 0 0;
       ys \<leftarrow> points_wr (Some xs) (len + 1) 0xffffffff;
       cr2 \<leftarrow> cr_compress (cr1\<lparr>cr_points := Some ys, cr_len := len + 2\<rparr>);
       Some (cr2, 0)
     }
   }"

section \<open>The set of codes\<close>

text \<open>A code is in when an odd number of points is at most it.\<close>

definition cr_mem :: "u32 list \<Rightarrow> u32 \<Rightarrow> bool" where
  "cr_mem pts c \<longleftrightarrow> odd (length (filter (\<lambda>p. p \<le> c) pts))"

lemma cr_mem_simps [simp]:
  "cr_mem [] c = False" "cr_mem (p # ps) c = ((p \<le> c) \<noteq> cr_mem ps c)"
  "cr_mem (ps @ qs) c = (cr_mem ps c \<noteq> cr_mem qs c)"
  by (auto simp: cr_mem_def)

lemma cr_mem_all: "(\<And>p. p \<in> set ps \<Longrightarrow> p \<le> c) \<Longrightarrow> cr_mem ps c = odd (length ps)"
  unfolding cr_mem_def by (subst filter_True) auto

text \<open>What compression computes, on lists.\<close>

fun squeeze :: "u32 list \<Rightarrow> u32 list" and squeeze_from :: "u32 \<Rightarrow> u32 \<Rightarrow> u32 list \<Rightarrow> u32 list" where
  "squeeze (x # y # r) = (if x = y then squeeze r else squeeze_from x y r)"
| "squeeze _ = []"
| "squeeze_from x y (a # b # r) =
     (if y = a then squeeze_from x b r else x # y # squeeze (a # b # r))"
| "squeeze_from x y _ = [x, y]"

lemma squeeze_set: "set (squeeze r) \<subseteq> set r" "set (squeeze_from x y r) \<subseteq> insert x (insert y (set r))"
  by (induction r and x y r rule: squeeze_squeeze_from.induct) auto

lemma squeeze_length: "length (squeeze r) \<le> length r" "length (squeeze_from x y r) \<le> length r + 2"
  by (induction r and x y r rule: squeeze_squeeze_from.induct) auto

lemma squeeze_even: "even (length (squeeze r))" "even (length (squeeze_from x y r))"
  by (induction r and x y r rule: squeeze_squeeze_from.induct) auto

lemma squeeze_mem:
  "even (length r) \<Longrightarrow> cr_mem (squeeze r) c = cr_mem r c"
  "even (length r) \<Longrightarrow> cr_mem (squeeze_from x y r) c = cr_mem (x # y # r) c"
  by (induction r and x y r rule: squeeze_squeeze_from.induct) auto

lemma squeeze_short: "length r \<le> 1 \<Longrightarrow> squeeze r = [] \<and> squeeze_from x y r = [x, y]"
  by (cases r; cases "tl r") auto

lemma squeeze_strict:
  "sorted r \<Longrightarrow> sorted_wrt (<) (squeeze r)"
  "x < y \<Longrightarrow> sorted (y # r) \<Longrightarrow> sorted_wrt (<) (squeeze_from x y r)"
proof (induction r and x y r rule: squeeze_squeeze_from.induct)
  case (3 x y a b r)
  show ?case
  proof (cases "y = a")
    case True
    then have "x < b" using 3 by auto
    then show ?thesis using 3 True by auto
  next
    case False
    then have "y < a" using 3 by auto
    moreover have "set (squeeze (a # b # r)) \<subseteq> set (a # b # r)" by (rule squeeze_set)
    ultimately have "\<forall>z\<in>set (squeeze (a # b # r)). y < z" using 3(4) by fastforce
    moreover from this have "\<forall>z\<in>set (squeeze (a # b # r)). x < z" using 3(3) by (meson order.strict_trans)
    ultimately show ?thesis using 3 False by auto
  qed
qed auto

text \<open>The loops compute it, in place.\<close>

lemma compress_run_from:
  assumes len: "len \<le> length pt"
  shows "j + 1 < len \<Longrightarrow> \<exists>j1. compress_run pt len j = Some j1 \<and> j \<le> j1 \<and> j1 + 1 < len \<and>
    squeeze_from x (pt ! (j + 1)) (drop (j + 2) (take len pt)) =
      x # pt ! (j1 + 1) # squeeze (drop (j1 + 2) (take len pt))"
proof (induction "len - j" arbitrary: j rule: less_induct)
  case less
  show ?case
  proof (cases "j + 3 < len")
    case False
    have "length (drop (j + 2) (take len pt)) \<le> 1" using False len by simp
    then show ?thesis
      using False less.prems squeeze_short [of "drop (j + 2) (take len pt)"] by (simp add: compress_run.simps)
  next
    case True
    then have d: "drop (j + 2) (take len pt) = pt ! (j + 2) # pt ! (j + 3) # drop (j + 4) (take len pt)"
      using len by (simp add: Cons_nth_drop_Suc [symmetric] numeral_eq_Suc)
    show ?thesis
    proof (cases "pt ! (j + 1) = pt ! (j + 2)")
      case eq: True
      have "len - (j + 2) < len - j" using True by linarith
      then obtain j1 where "compress_run pt len (j + 2) = Some j1" "j + 2 \<le> j1" "j1 + 1 < len"
          "squeeze_from x (pt ! (j + 3)) (drop (j + 4) (take len pt)) =
            x # pt ! (j1 + 1) # squeeze (drop (j1 + 2) (take len pt))"
        using less.hyps [of "j + 2"] True by (auto simp: numeral_eq_Suc)
      moreover have "compress_run pt len j = compress_run pt len (j + 2)"
        using True eq len by (simp add: compress_run.simps [of pt len j] rd_in)
      moreover have "squeeze_from x (pt ! (j + 1)) (drop (j + 2) (take len pt)) =
          squeeze_from x (pt ! (j + 3)) (drop (j + 4) (take len pt))"
        unfolding d using eq by simp
      ultimately show ?thesis by (intro exI [of _ j1]) simp
    next
      case False
      then have "squeeze_from x (pt ! (j + 1)) (drop (j + 2) (take len pt)) =
          x # pt ! (j + 1) # squeeze (drop (j + 2) (take len pt))"
        unfolding d by simp
      moreover have "compress_run pt len j = Some j"
        using False True len by (simp add: compress_run.simps [of pt len j] rd_in)
      ultimately show ?thesis using less.prems by (intro exI [of _ j]) simp
    qed
  qed
qed

lemma compress_loop_squeeze:
  "k \<le> i \<Longrightarrow> len \<le> length pt \<Longrightarrow> i \<le> len \<Longrightarrow> s = squeeze (drop i (take len pt)) \<Longrightarrow>
    \<exists>pt1. compress_loop pt len i k = Some (pt1, k + length s) \<and> length pt1 = length pt \<and>
      take (k + length s) pt1 = take k pt @ s"
proof (induction "len - i" arbitrary: pt i k s rule: less_induct)
  case less
  show ?case
  proof (cases "i + 1 < len")
    case False
    then have "length (drop i (take len pt)) \<le> 1" using less.prems by simp
    then have "s = []" using less.prems(4) squeeze_short by simp
    then show ?thesis using False by (simp add: compress_loop.simps)
  next
    case True
    then have d: "drop i (take len pt) = pt ! i # pt ! (i + 1) # drop (i + 2) (take len pt)"
      using less.prems by (simp add: Cons_nth_drop_Suc [symmetric] numeral_eq_Suc)
    show ?thesis
    proof (cases "pt ! i = pt ! (i + 1)")
      case eq: True
      then have "s = squeeze (drop (i + 2) (take len pt))" using less.prems(4) d by simp
      moreover have "len - (i + 2) < len - i" "k \<le> i + 2" "i + 2 \<le> len" using True less.prems(1) by linarith+
      ultimately obtain pt1 where "compress_loop pt len (i + 2) k = Some (pt1, k + length s)"
          "length pt1 = length pt" "take (k + length s) pt1 = take k pt @ s"
        using less.hyps [of "i + 2" k pt s] less.prems(2) by blast
      then show ?thesis
        using True eq less.prems by (simp add: compress_loop.simps [of pt len i] rd_in)
    next
      case False
      obtain j where j: "compress_run pt len i = Some j" "i \<le> j" "j + 1 < len"
          "squeeze_from (pt ! i) (pt ! (i + 1)) (drop (i + 2) (take len pt)) =
            pt ! i # pt ! (j + 1) # squeeze (drop (j + 2) (take len pt))"
        using compress_run_from [OF less.prems(2) True] by blast
      define pt2 where "pt2 = pt[k := pt ! i, k + 1 := pt ! (j + 1)]"
      define s1 where "s1 = squeeze (drop (j + 2) (take len pt))"
      have "drop (j + 2) (take len pt2) = drop (j + 2) (take len pt)"
        using less.prems(1) j(2) by (simp add: pt2_def take_update_swap)
      moreover have "len - (j + 2) < len - i" "k + 2 \<le> j + 2" "j + 2 \<le> len" "len \<le> length pt2"
        using True j(2,3) less.prems(1,2) by (simp_all add: pt2_def)
      ultimately obtain pt1 where pt1: "compress_loop pt2 len (j + 2) (k + 2) = Some (pt1, k + 2 + length s1)"
          "length pt1 = length pt2" "take (k + 2 + length s1) pt1 = take (k + 2) pt2 @ s1"
        using less.hyps [of "j + 2" "k + 2" pt2 s1] by (auto simp: s1_def)
      have s: "s = pt ! i # pt ! (j + 1) # s1" using less.prems(4) d False j(4) by (simp add: s1_def)
      have "take (k + 2) pt2 = take k pt @ [pt ! i, pt ! (j + 1)]"
        using less.prems True by (simp add: pt2_def numeral_eq_Suc take_Suc_conv_app_nth)
      moreover have "compress_loop pt len i k = compress_loop pt2 len (j + 2) (k + 2)"
        using True False j less.prems
        by (simp add: compress_loop.simps [of pt len i] rd_in wr_in pt2_def)
      ultimately show ?thesis using pt1 s by (simp add: pt2_def)
    qed
  qed
qed

section \<open>Ranges\<close>

text \<open>The points in use, and a range whose arrays are as long as its fields say. Ranges here stay
  below \<open>2 ^ 28\<close> points, far above the number of codes; so no size computation overflows.\<close>

definition points_of :: "'h char_range \<Rightarrow> u32 list" where
  "points_of cr = (case cr_points cr of None \<Rightarrow> [] | Some xs \<Rightarrow> take (nat (cr_len cr)) xs)"

definition lawful_points :: "'h points_realloc \<Rightarrow> bool" where
  "lawful_points f \<longleftrightarrow> (\<forall>h b n h1 b1. n \<noteq> 0 \<longrightarrow> f h b n = (h1, Some b1) \<longrightarrow>
     length b1 = unat n div 4 \<and>
     (\<forall>old. b = Some old \<longrightarrow> take (min (unat n div 4) (length old)) b1 = take (unat n div 4) old))"

definition cr_ok :: "'h char_range \<Rightarrow> bool" where
  "cr_ok cr \<longleftrightarrow> (case cr_points cr of None \<Rightarrow> cr_size cr = 0 | Some xs \<Rightarrow> cr_size cr = int (length xs)) \<and>
     0 \<le> cr_len cr \<and> cr_len cr \<le> cr_size cr \<and> cr_size cr \<le> 2 ^ 29 \<and> lawful_points (cr_realloc_func cr)"

lemma cr_init_ok:
  "lawful_points f \<Longrightarrow> cr_ok (cr_init f opq None)" "points_of (cr_init f opq None) = []"
  by (simp_all add: cr_ok_def cr_init_def points_of_def)

lemma length_points_of: "cr_ok cr \<Longrightarrow> int (length (points_of cr)) = cr_len cr"
  by (auto simp: cr_ok_def points_of_def split: option.splits)

lemma cr_ok_empty: "cr_ok cr \<Longrightarrow> cr_ok (cr\<lparr>cr_len := 0, cr_size := 0, cr_points := None\<rparr>)"
  by (simp add: cr_ok_def)

lemma cr_ok_opaque [simp]: "cr_ok (cr\<lparr>cr_opaque := h\<rparr>) = cr_ok cr" "points_of (cr\<lparr>cr_opaque := h\<rparr>) = points_of cr"
  by (simp_all add: cr_ok_def points_of_def split: option.splits)

lemma cr_realloc_cases:
  assumes ok: "cr_ok cr" and sz: "sz \<le> 2 ^ 28"
  obtains cr1 where "cr_realloc cr sz = Some (cr1, 0)" "cr_ok cr1" "points_of cr1 = points_of cr"
      "cr_len cr1 = cr_len cr" "sz \<le> cr_size cr1"
  | cr1 where "cr_realloc cr sz = Some (cr1, -1)" "cr_ok cr1" "points_of cr1 = points_of cr"
      "cr_len cr1 = cr_len cr"
proof (cases "sz > cr_size cr")
  case False
  then show ?thesis using ok by (intro that(1) [of cr]) (simp_all add: cr_realloc_def)
next
  case True
  have b: "0 \<le> cr_len cr" "cr_len cr \<le> cr_size cr" "lawful_points (cr_realloc_func cr)"
    using ok by (simp_all add: cr_ok_def)
  define m where "m = max sz (cr_size cr * 3 div 2)"
  have m: "sz \<le> m" "0 < m" "m \<le> 2 ^ 29" "cr_size cr \<le> m" using True sz b by (auto simp: m_def)
  define w where "w = (word_of_int (m * 4) :: u64)"
  have w: "unat w = nat m * 4"
    unfolding w_def unat_eq_nat_uint uint_word_of_int using m by (simp add: nat_mult_distrib)
  have w0: "w \<noteq> 0" using w m(2) by auto
  have ci: "c_int (cr_size cr * 3) = Some (cr_size cr * 3)" using True sz b by (simp add: c_int_def)
  obtain h r where c: "cr_realloc_func cr (cr_opaque cr) (cr_points cr) w = (h, r)"
    by (cases "cr_realloc_func cr (cr_opaque cr) (cr_points cr) w")
  have step: "cr_realloc cr sz = (case r of
      None \<Rightarrow> Some (cr\<lparr>cr_opaque := h\<rparr>, -1)
    | Some b \<Rightarrow> Some (cr\<lparr>cr_opaque := h, cr_points := Some b, cr_size := m\<rparr>, 0))"
    using True ci c by (simp add: cr_realloc_def m_def [symmetric] w_def)
  show ?thesis
  proof (cases r)
    case None
    then show ?thesis using step ok by (intro that(2) [of "cr\<lparr>cr_opaque := h\<rparr>"]) simp_all
  next
    case (Some b1)
    define cr1 where "cr1 = cr\<lparr>cr_opaque := h, cr_points := Some b1, cr_size := m\<rparr>"
    have len: "length b1 = nat m"
        and pre: "\<And>old. cr_points cr = Some old \<Longrightarrow> take (min (nat m) (length old)) b1 = take (nat m) old"
      using b(3) w0 c w unfolding lawful_points_def Some by fastforce+
    have "points_of cr1 = points_of cr"
    proof (cases "cr_points cr")
      case None
      then have "cr_len cr = 0" using ok b by (simp add: cr_ok_def)
      then show ?thesis by (simp add: points_of_def cr1_def None)
    next
      case (Some old)
      then have "nat (cr_len cr) \<le> min (nat m) (length old)"
        using ok m(4) by (simp add: cr_ok_def nat_le_iff)
      then have "take (nat (cr_len cr)) b1 = take (nat (cr_len cr)) (take (min (nat m) (length old)) b1)"
        by (simp add: min_absorb1)
      also have "\<dots> = take (nat (cr_len cr)) old"
        using pre [OF Some] \<open>nat (cr_len cr) \<le> min (nat m) (length old)\<close> by (simp add: min_absorb1)
      finally show ?thesis by (simp add: points_of_def cr1_def Some)
    qed
    moreover have "cr_ok cr1" using b m len by (simp add: cr_ok_def cr1_def)
    moreover have "cr_realloc cr sz = Some (cr1, 0)" using step Some by (simp add: cr1_def)
    ultimately show ?thesis using m(1) by (intro that(1) [of cr1]) (simp_all add: cr1_def)
  qed
qed

lemma points_wr_at_end:
  assumes "cr_ok cr" and "cr_len cr < cr_size cr"
  shows "\<exists>xs. points_wr (cr_points cr) (cr_len cr) v = Some xs \<and>
    cr_ok (cr\<lparr>cr_points := Some xs, cr_len := cr_len cr + 1\<rparr>) \<and>
    points_of (cr\<lparr>cr_points := Some xs, cr_len := cr_len cr + 1\<rparr>) = points_of cr @ [v]"
  using assms
  by (auto simp: points_wr_def cr_ok_def points_of_def wr_def nat_add_distrib take_Suc_conv_app_nth
      nat_less_iff split: option.splits)

lemma cr_add_point_cases:
  assumes ok: "cr_ok cr" and small: "cr_len cr < 2 ^ 28"
  obtains cr1 where "cr_add_point cr v = Some (cr1, 0)" "cr_ok cr1" "points_of cr1 = points_of cr @ [v]"
      "cr_len cr1 = cr_len cr + 1"
  | cr1 where "cr_add_point cr v = Some (cr1, -1)" "cr_ok cr1" "points_of cr1 = points_of cr"
proof -
  have add: thesis if "(if cr_len cr \<ge> cr_size cr then do { n \<leftarrow> c_int (cr_len cr + 1); cr_realloc cr n }
        else Some (cr, 0)) = Some (cr1, 0)" "cr_ok cr1" "points_of cr1 = points_of cr"
      "cr_len cr1 = cr_len cr" "cr_len cr < cr_size cr1"
    and th: "\<And>cr1. cr_add_point cr v = Some (cr1, 0) \<Longrightarrow> cr_ok cr1 \<Longrightarrow>
      points_of cr1 = points_of cr @ [v] \<Longrightarrow> cr_len cr1 = cr_len cr + 1 \<Longrightarrow> thesis" for cr1
  proof -
    note s = that
    obtain xs where "points_wr (cr_points cr1) (cr_len cr1) v = Some xs"
        "cr_ok (cr1\<lparr>cr_points := Some xs, cr_len := cr_len cr1 + 1\<rparr>)"
        "points_of (cr1\<lparr>cr_points := Some xs, cr_len := cr_len cr1 + 1\<rparr>) = points_of cr1 @ [v]"
      using points_wr_at_end [OF s(2), of v] s(4,5) by auto
    then show thesis
      using s(1,3,4) by (intro th [of "cr1\<lparr>cr_points := Some xs, cr_len := cr_len cr1 + 1\<rparr>"])
        (simp_all add: cr_add_point_def)
  qed
  note fail = that(2)
  have ci: "c_int (cr_len cr + 1) = Some (cr_len cr + 1)"
    using ok small by (simp add: c_int_def cr_ok_def)
  show thesis
  proof (cases "cr_len cr \<ge> cr_size cr")
    case False
    then show thesis using add [of cr] ok that(1) by simp
  next
    case True
    have "cr_len cr + 1 \<le> 2 ^ 28" using small by simp
    then show thesis
    proof (rule cr_realloc_cases [OF ok])
      fix cr1 assume "cr_realloc cr (cr_len cr + 1) = Some (cr1, 0)" "cr_ok cr1"
        "points_of cr1 = points_of cr" "cr_len cr1 = cr_len cr" "cr_len cr + 1 \<le> cr_size cr1"
      then show thesis using add [of cr1] True ci that(1) by simp
    next
      fix cr1 assume "cr_realloc cr (cr_len cr + 1) = Some (cr1, -1)" "cr_ok cr1"
        "points_of cr1 = points_of cr"
      then show thesis using fail [of cr1] True ci by (simp add: cr_add_point_def)
    qed
  qed
qed

lemma cr_compress_squeezes:
  assumes "cr_ok cr"
  shows "\<exists>cr1. cr_compress cr = Some cr1 \<and> cr_ok cr1 \<and> points_of cr1 = squeeze (points_of cr)"
proof (cases "cr_points cr")
  case None
  then show ?thesis using assms by (simp add: cr_compress_def cr_ok_def points_of_def)
next
  case (Some pt)
  have len: "nat (cr_len cr) \<le> length pt" using assms Some by (simp add: cr_ok_def nat_le_iff)
  obtain pt1 where pt1: "compress_loop pt (nat (cr_len cr)) 0 0 = Some (pt1, length (squeeze (points_of cr)))"
      "length pt1 = length pt" "take (length (squeeze (points_of cr))) pt1 = squeeze (points_of cr)"
    using compress_loop_squeeze [of 0 0 "nat (cr_len cr)" pt, OF _ len _ refl] Some
    by (auto simp: points_of_def)
  have "length (squeeze (points_of cr)) \<le> length pt"
    using squeeze_length(1) [of "points_of cr"] len by (simp add: points_of_def Some)
  then show ?thesis using pt1 assms Some
    by (simp add: cr_compress_def cr_ok_def points_of_def)
qed

section \<open>Union, intersection, symmetric difference\<close>

text \<open>The next point is at most every point that remains.\<close>

lemma rd_drop: "i < length xs \<Longrightarrow> \<exists>x. rd xs i = Some x \<and> drop i xs = x # drop (i + 1) xs \<and> take (i + 1) xs = take i xs @ [x]"
  by (simp add: rd_in Cons_nth_drop_Suc take_Suc_conv_app_nth)

lemma next_point_cases:
  assumes sorted: "sorted a" "sorted b" and le: "ai \<le> length a" "bi \<le> length b"
  obtains "next_point a (length a) b (length b) ai bi = Some None" "ai = length a" "bi = length b"
  | v ai1 bi1 where "next_point a (length a) b (length b) ai bi = Some (Some (v, ai1, bi1))"
      "\<forall>q\<in>set (drop ai a) \<union> set (drop bi b). v \<le> q"
      "ai1 = ai \<or> ai1 = ai + 1 \<and> ai < length a \<and> take ai1 a = take ai a @ [v]"
      "bi1 = bi \<or> bi1 = bi + 1 \<and> bi < length b \<and> take bi1 b = take bi b @ [v]"
      "ai1 + bi1 > ai + bi"
proof -
  have sd: "sorted (drop ai a)" "sorted (drop bi b)" using sorted by (simp_all add: sorted_wrt_drop)
  consider "ai < length a" "bi < length b" | "ai < length a" "bi = length b" | "ai = length a" "bi < length b"
    | "ai = length a" "bi = length b" using le by linarith
  then show thesis
  proof cases
    case 1
    obtain x where x: "rd a ai = Some x" "drop ai a = x # drop (ai + 1) a" "take (ai + 1) a = take ai a @ [x]"
      using rd_drop [OF 1(1)] by blast
    obtain y where y: "rd b bi = Some y" "drop bi b = y # drop (bi + 1) b" "take (bi + 1) b = take bi b @ [y]"
      using rd_drop [OF 1(2)] by blast
    have mins: "\<forall>q\<in>set (drop ai a). x \<le> q" "\<forall>q\<in>set (drop bi b). y \<le> q"
      using sd x(2) y(2) by auto
    have mx: "x \<le> y \<Longrightarrow> \<forall>q\<in>set (drop ai a) \<union> set (drop bi b). x \<le> q"
      and my: "y \<le> x \<Longrightarrow> \<forall>q\<in>set (drop ai a) \<union> set (drop bi b). y \<le> q"
      using mins order.trans by blast+
    consider "x < y" | "x = y" | "y < x" by (rule linorder_cases)
    then show thesis
    proof cases
      case 1
      then show thesis using that(2) [of x "ai + 1" bi] \<open>ai < length a\<close> \<open>bi < length b\<close> x(1,3) y(1,3) mx
        by (simp add: next_point_def)
    next
      case 2
      then show thesis using that(2) [of x "ai + 1" "bi + 1"] \<open>ai < length a\<close> \<open>bi < length b\<close> x(1,3) y(1,3) mx
        by (simp add: next_point_def)
    next
      case 3
      then show thesis using that(2) [of y ai "bi + 1"] \<open>ai < length a\<close> \<open>bi < length b\<close> x(1,3) y(1,3) my
        by (simp add: next_point_def not_less_iff_gr_or_eq)
    qed
  next
    case 2
    obtain x where x: "rd a ai = Some x" "drop ai a = x # drop (ai + 1) a" "take (ai + 1) a = take ai a @ [x]"
      using rd_drop [OF 2(1)] by blast
    then show thesis using that(2) [of x "ai + 1" bi] 2 sd by (auto simp: next_point_def)
  next
    case 3
    obtain y where y: "rd b bi = Some y" "drop bi b = y # drop (bi + 1) b" "take (bi + 1) b = take bi b @ [y]"
      using rd_drop [OF 3(2)] by blast
    then show thesis using that(2) [of y ai "bi + 1"] 3 sd by (auto simp: next_point_def)
  next
    case 4
    then show thesis using that(1) by (simp add: next_point_def)
  qed
qed

text \<open>What holds of the output \<open>out\<close> once \<open>ai\<close> and \<open>bi\<close> points are used: all points so far are at most
  those to come, and the output denotes the combination of the two prefixes.\<close>

definition op_inv :: "(bool \<Rightarrow> bool \<Rightarrow> bool) \<Rightarrow> u32 list \<Rightarrow> u32 list \<Rightarrow> nat \<Rightarrow> nat \<Rightarrow> u32 list \<Rightarrow> bool" where
  "op_inv f a b ai bi out \<longleftrightarrow> sorted out \<and> odd (length out) = f (odd ai) (odd bi) \<and>
     (\<forall>p\<in>set out \<union> set (take ai a) \<union> set (take bi b). \<forall>q\<in>set (drop ai a) \<union> set (drop bi b). p \<le> q) \<and>
     (\<forall>c. cr_mem out c = f (cr_mem (take ai a) c) (cr_mem (take bi b) c)) \<and> length out \<le> ai + bi"

lemma op_inv_step:
  assumes inv: "op_inv f a b ai bi out" and le: "ai \<le> length a" "bi \<le> length b"
    and sorted: "sorted a" "sorted b"
    and v: "\<forall>q\<in>set (drop ai a) \<union> set (drop bi b). v \<le> q"
    and ai: "ai1 = ai \<or> ai1 = ai + 1 \<and> ai < length a \<and> take ai1 a = take ai a @ [v]"
    and bi: "bi1 = bi \<or> bi1 = bi + 1 \<and> bi < length b \<and> take bi1 b = take bi b @ [v]"
    and more: "ai1 + bi1 > ai + bi"
    and out: "out1 = (if f (odd ai1) (odd bi1) \<noteq> odd (length out) then out @ [v] else out)"
  shows "op_inv f a b ai1 bi1 out1"
proof -
  let ?old = "set out \<union> set (take ai a) \<union> set (take bi b)"
  have sub: "set (drop ai1 a) \<subseteq> set (drop ai a)" "set (drop bi1 b) \<subseteq> set (drop bi b)"
    by (rule set_drop_subset_set_drop, use ai in linarith) (rule set_drop_subset_set_drop, use bi in linarith)
  have rest: "v \<in> set (drop ai a) \<union> set (drop bi b)"
  proof -
    have "take (ai + 1) a = take ai a @ [v] \<Longrightarrow> ai < length a \<Longrightarrow> v \<in> set (drop ai a)"
      using rd_drop [of ai a] by auto
    moreover have "take (bi + 1) b = take bi b @ [v] \<Longrightarrow> bi < length b \<Longrightarrow> v \<in> set (drop bi b)"
      using rd_drop [of bi b] by auto
    ultimately show ?thesis using ai bi more by auto
  qed
  then have old: "\<forall>p\<in>?old. p \<le> v" using inv by (auto simp: op_inv_def)
  have new: "set out1 \<union> set (take ai1 a) \<union> set (take bi1 b) \<subseteq> insert v ?old"
    using ai bi out by (auto split: if_splits)
  have "sorted out1" using inv old out by (auto simp: op_inv_def sorted_append)
  moreover have "odd (length out1) = f (odd ai1) (odd bi1)" using inv out by (auto simp: op_inv_def)
  moreover have "\<forall>p\<in>set out1 \<union> set (take ai1 a) \<union> set (take bi1 b).
      \<forall>q\<in>set (drop ai1 a) \<union> set (drop bi1 b). p \<le> q"
    using inv v sub new unfolding op_inv_def by blast
  moreover have "cr_mem out1 c = f (cr_mem (take ai1 a) c) (cr_mem (take bi1 b) c)" for c
  proof (cases "v \<le> c")
    case True
    then have all: "\<forall>p\<in>set out1 \<union> set (take ai1 a) \<union> set (take bi1 b). p \<le> c"
      using old new order.trans by blast
    have "cr_mem out1 c = odd (length out1)" "cr_mem (take ai1 a) c = odd (length (take ai1 a))"
        "cr_mem (take bi1 b) c = odd (length (take bi1 b))"
      by (rule cr_mem_all; use all in blast)+
    moreover have "length (take ai1 a) = ai1" "length (take bi1 b) = bi1" using ai bi le by auto
    ultimately show ?thesis using \<open>odd (length out1) = f (odd ai1) (odd bi1)\<close> by simp
  next
    case False
    then have "cr_mem out1 c = cr_mem out c" "cr_mem (take ai1 a) c = cr_mem (take ai a) c"
        "cr_mem (take bi1 b) c = cr_mem (take bi b) c"
      using ai bi out by auto
    then show ?thesis using inv by (simp add: op_inv_def)
  qed
  moreover have "length out1 \<le> ai1 + bi1" using inv out more by (auto simp: op_inv_def)
  ultimately show ?thesis unfolding op_inv_def by blast
qed

lemma cr_op_loop_inv:
  assumes sorted: "sorted a" "sorted b" and f: "\<And>x y. cr_is_in op1 x y = Some (f x y)"
    and small: "length a + length b < 2 ^ 28"
  shows "cr_ok cr \<Longrightarrow> ai \<le> length a \<Longrightarrow> bi \<le> length b \<Longrightarrow> op_inv f a b ai bi (points_of cr) \<Longrightarrow>
    \<exists>cr1 r. cr_op_loop cr a (length a) b (length b) op1 ai bi = Some (cr1, r) \<and> cr_ok cr1 \<and>
      (r = 0 \<and> op_inv f a b (length a) (length b) (points_of cr1) \<or> r = -1)"
proof (induction "length a + length b - (ai + bi)" arbitrary: cr ai bi rule: less_induct)
  case less
  show ?case
  proof (cases rule: next_point_cases [OF sorted less.prems(2,3)])
    case 1
    then show ?thesis using less.prems by (simp add: cr_op_loop.simps)
  next
    case (2 v ai1 bi1)
    have le1: "ai1 \<le> length a" "bi1 \<le> length b" using 2(3,4) less.prems(2,3) by auto
    then have lt: "length a + length b - (ai1 + bi1) < length a + length b - (ai + bi)" using 2(5) by linarith
    have len: "cr_len cr = int (length (points_of cr))" using length_points_of [OF less.prems(1)] by simp
    then have parity: "odd (cr_len cr) = odd (length (points_of cr))" by simp
    note step = op_inv_step [OF less.prems(4,2,3) sorted 2(2-5) refl]
    show ?thesis
    proof (cases "f (odd ai1) (odd bi1) \<noteq> odd (length (points_of cr))")
      case False
      then have inv: "op_inv f a b ai1 bi1 (points_of cr)" using step by simp
      show ?thesis using less.hyps [OF lt less.prems(1) le1 inv] False 2(1) parity
        by (simp add: cr_op_loop.simps [of cr a "length a" b "length b" op1 ai bi] f)
    next
      case True
      have "cr_len cr < 2 ^ 28" using len less.prems(2,3,4) small by (simp add: op_inv_def)
      from cr_add_point_cases [OF less.prems(1) this, of v] show ?thesis
      proof cases
        case (1 cr1)
        then have inv: "op_inv f a b ai1 bi1 (points_of cr1)" using step True by simp
        show ?thesis using less.hyps [OF lt 1(2) le1 inv] True 2(1) parity 1(1)
          by (simp add: cr_op_loop.simps [of cr a "length a" b "length b" op1 ai bi] f)
      next
        case (2 cr1)
        then show ?thesis using True \<open>next_point a (length a) b (length b) ai bi = Some (Some (v, ai1, bi1))\<close> parity
          by (simp add: cr_op_loop.simps [of cr a "length a" b "length b" op1 ai bi] f)
      qed
    qed
  qed
qed

text \<open>A well-formed range: sorted strictly, an even number of points.\<close>

definition cr_wf :: "u32 list \<Rightarrow> bool" where
  "cr_wf pts \<longleftrightarrow> sorted_wrt (<) pts \<and> even (length pts)"

lemma cr_wf_sorted: "cr_wf pts \<Longrightarrow> sorted pts"
  by (simp add: cr_wf_def strict_sorted_imp_sorted)

lemma squeeze_wf: "sorted pts \<Longrightarrow> cr_wf (squeeze pts)"
  by (simp add: cr_wf_def squeeze_strict squeeze_even)

lemma cr_op_combines:
  assumes "cr_ok cr" and "points_of cr = []" and "sorted a" and "sorted b" and "even (length a)"
    and "even (length b)" and "length a + length b < 2 ^ 28"
    and f: "\<And>x y. cr_is_in op1 x y = Some (f x y)" and ff: "f False False = False"
  obtains cr1 where "cr_op cr a (int (length a)) b (int (length b)) op1 = Some (cr1, 0)" "cr_ok cr1"
      "cr_wf (points_of cr1)" "\<And>c. cr_mem (points_of cr1) c = f (cr_mem a c) (cr_mem b c)"
      "length (points_of cr1) \<le> length a + length b"
  | cr1 where "cr_op cr a (int (length a)) b (int (length b)) op1 = Some (cr1, -1)" "cr_ok cr1"
proof -
  have "op_inv f a b 0 0 (points_of cr)" using assms(2) ff by (simp add: op_inv_def)
  then obtain cr1 r where l: "cr_op_loop cr a (length a) b (length b) op1 0 0 = Some (cr1, r)" "cr_ok cr1"
      "r = 0 \<and> op_inv f a b (length a) (length b) (points_of cr1) \<or> r = -1"
    using cr_op_loop_inv [OF assms(3,4) f assms(7,1), of 0 0] by auto
  show thesis
  proof (cases "r = 0")
    case False
    then show thesis using l that(2) [of cr1] by (simp add: cr_op_def)
  next
    case True
    then have inv: "op_inv f a b (length a) (length b) (points_of cr1)" using l(3) by simp
    obtain cr2 where c: "cr_compress cr1 = Some cr2" "cr_ok cr2" "points_of cr2 = squeeze (points_of cr1)"
      using cr_compress_squeezes [OF l(2)] by blast
    have "even (length (points_of cr1))" using inv assms(5,6) ff by (simp add: op_inv_def)
    then have "cr_mem (points_of cr2) x = f (cr_mem a x) (cr_mem b x)" for x
      using c(3) inv by (simp add: squeeze_mem op_inv_def)
    moreover have "cr_wf (points_of cr2)" using c(3) inv by (simp add: squeeze_wf op_inv_def)
    moreover have "length (points_of cr2) \<le> length a + length b"
      using squeeze_length(1) [of "points_of cr1"] inv c(3) by (simp add: op_inv_def)
    ultimately show thesis using that(1) [of cr2] l(1) True c(1,2) by (simp add: cr_op_def)
  qed
qed

lemma cr_op_result:
  assumes "cr_ok cr" and "points_of cr = []" and "cr_wf a" and "sorted b"
    and "even (length b)" and "length a + length b < 2 ^ 28"
    and "\<And>x y. cr_is_in op1 x y = Some (f x y)" and "f False False = False"
  shows "\<exists>cr1 r. cr_op cr a (int (length a)) b (int (length b)) op1 = Some (cr1, r) \<and> cr_ok cr1 \<and>
    (r = 0 \<and> cr_wf (points_of cr1) \<and> (\<forall>c. cr_mem (points_of cr1) c = f (cr_mem a c) (cr_mem b c)) \<and>
       length (points_of cr1) \<le> length a + length b \<or> r = -1)"
proof -
  have a: "sorted a" "even (length a)" using assms(3) by (simp_all add: cr_wf_sorted cr_wf_def)
  show ?thesis
    by (rule cr_op_combines [OF assms(1,2) a(1) assms(4) a(2) assms(5,6), of op1 f]) (use assms(7,8) in auto)
qed

lemma cr_is_in_simps:
  "cr_is_in CR_OP_UNION x y = Some (x \<or> y)" "cr_is_in CR_OP_INTER x y = Some (x \<and> y)"
  "cr_is_in CR_OP_XOR x y = Some (x \<noteq> y)"
  by (simp_all add: cr_is_in_def CR_OP_UNION_def CR_OP_INTER_def CR_OP_XOR_def)

section \<open>The other operations\<close>

text \<open>Adding an interval above the points there are.\<close>

lemma cr_add_interval_cases:
  assumes ok: "cr_ok cr" and small: "cr_len cr + 2 \<le> 2 ^ 28"
  obtains cr1 where "cr_add_interval cr c1 c2 = Some (cr1, 0)" "cr_ok cr1"
      "points_of cr1 = points_of cr @ [c1, c2]"
  | cr1 where "cr_add_interval cr c1 c2 = Some (cr1, -1)" "cr_ok cr1" "points_of cr1 = points_of cr"
proof -
  note added = that(1) and failed = that(2)
  have ci: "c_int (cr_len cr + 2) = Some (cr_len cr + 2)" using ok small by (simp add: c_int_def cr_ok_def)
  have add: thesis if g: "(if cr_len cr + 2 > cr_size cr then cr_realloc cr (cr_len cr + 2) else Some (cr, 0))
        = Some (cr1, 0)" "cr_ok cr1" "points_of cr1 = points_of cr" "cr_len cr1 = cr_len cr"
      "cr_len cr + 2 \<le> cr_size cr1" for cr1
  proof -
    obtain xs where xs: "points_wr (cr_points cr1) (cr_len cr1) c1 = Some xs"
        "cr_ok (cr1\<lparr>cr_points := Some xs, cr_len := cr_len cr1 + 1\<rparr>)"
        "points_of (cr1\<lparr>cr_points := Some xs, cr_len := cr_len cr1 + 1\<rparr>) = points_of cr1 @ [c1]"
      using points_wr_at_end [OF g(2), of c1] g(4,5) by auto
    obtain ys where ys: "points_wr (Some xs) (cr_len cr1 + 1) c2 = Some ys"
        "cr_ok (cr1\<lparr>cr_points := Some ys, cr_len := cr_len cr1 + 1 + 1\<rparr>)"
        "points_of (cr1\<lparr>cr_points := Some ys, cr_len := cr_len cr1 + 1 + 1\<rparr>) = points_of cr1 @ [c1] @ [c2]"
      using points_wr_at_end [OF xs(2), of c2] g(4,5) xs(3) by auto
    have two: "cr_len cr1 + 2 = cr_len cr1 + 1 + 1" by simp
    show thesis
      by (rule added [of "cr1\<lparr>cr_points := Some ys, cr_len := cr_len cr1 + 1 + 1\<rparr>"])
        (use g xs(1) ys ci two in \<open>simp_all add: cr_add_interval_def\<close>)
  qed
  show thesis
  proof (cases "cr_len cr + 2 > cr_size cr")
    case False
    then show thesis using add [of cr] ok by simp
  next
    case True
    from cr_realloc_cases [OF ok small] show thesis
    proof cases
      case (1 cr1)
      then show thesis using add [of cr1] True by simp
    next
      case (2 cr1)
      then show thesis using failed [of cr1] True ci by (simp add: cr_add_interval_def)
    qed
  qed
qed

lemma points_used_of: "cr_ok cr \<Longrightarrow> points_used (cr_points cr) (cr_len cr) = Some (points_of cr)"
  by (auto simp: points_used_def points_of_def cr_ok_def nat_le_iff split: option.splits)

text \<open>Copying.\<close>

lemma cr_copy_copies:
  assumes ok: "cr_ok cr" "cr_ok cr1" and small: "cr_len cr1 \<le> 2 ^ 28"
  obtains cr2 where "cr_copy cr cr1 = Some (cr2, 0)" "cr_ok cr2" "points_of cr2 = points_of cr1"
  | cr2 where "cr_copy cr cr1 = Some (cr2, -1)" "cr_ok cr2" "points_of cr2 = points_of cr"
proof (cases rule: cr_realloc_cases [OF ok(1) small])
  case (1 cr2)
  have len: "int (length (points_of cr1)) = cr_len cr1" by (rule length_points_of [OF ok(2)])
  obtain pts where pts: "points_copy (cr_points cr2) 0 (points_of cr1) = Some pts"
      "cr_ok (cr2\<lparr>cr_points := pts, cr_len := cr_len cr1\<rparr>)"
      "points_of (cr2\<lparr>cr_points := pts, cr_len := cr_len cr1\<rparr>) = points_of cr1"
  proof (cases "points_of cr1 = []")
    case True
    then show ?thesis using that [of "cr_points cr2"] len 1(2,5)
      by (auto simp: points_copy_def cr_ok_def points_of_def split: option.splits)
  next
    case False
    then have "0 < cr_len cr1" using len by (cases "points_of cr1") auto
    then obtain xs where xs: "cr_points cr2 = Some xs" "cr_size cr2 = int (length xs)"
      using 1(2,5) len by (cases "cr_points cr2") (auto simp: cr_ok_def)
    then show ?thesis
      using that [of "Some (points_of cr1 @ drop (length (points_of cr1)) xs)"] False len 1(2,5)
      by (auto simp: points_copy_def cr_ok_def points_of_def nat_le_iff)
  qed
  then show ?thesis using that(1) 1(1) points_used_of [OF ok(2)] by (simp add: cr_copy_def)
next
  case (2 cr2)
  then show ?thesis using that(2) by (simp add: cr_copy_def)
qed

text \<open>Inversion: every code but the largest, which no range can hold.\<close>

lemma le_max_code: "(c :: u32) \<le> 0xffffffff"
  using unsigned_less [of c, where ?'a = nat] by (simp add: word_le_nat_alt)

lemma invert_mem: "c \<noteq> 0xffffffff \<Longrightarrow> cr_mem (0 # pts @ [0xffffffff]) c \<longleftrightarrow> \<not> cr_mem pts c"
proof -
  assume c: "c \<noteq> 0xffffffff"
  have "\<not> 0xffffffff \<le> c"
  proof
    assume "0xffffffff \<le> c"
    moreover have "c \<le> 0xffffffff" by (rule le_max_code)
    ultimately show False using c by simp
  qed
  then show ?thesis by simp
qed

lemma cr_invert_complements:
  assumes ok: "cr_ok cr" and wf: "sorted (points_of cr)" "even (length (points_of cr))"
    and small: "cr_len cr + 2 \<le> 2 ^ 28"
  obtains cr1 where "cr_invert cr = Some (cr1, 0)" "cr_ok cr1" "cr_wf (points_of cr1)"
      "\<And>c. c \<noteq> 0xffffffff \<Longrightarrow> cr_mem (points_of cr1) c = (\<not> cr_mem (points_of cr) c)"
      "length (points_of cr1) \<le> length (points_of cr) + 2"
  | cr1 where "cr_invert cr = Some (cr1, -1)" "cr_ok cr1" "points_of cr1 = points_of cr"
proof -
  have ci: "c_int (cr_len cr + 2) = Some (cr_len cr + 2)" using ok small by (simp add: c_int_def cr_ok_def)
  from cr_realloc_cases [OF ok small] show thesis
  proof cases
    case (1 cr1)
    define P where "P = points_of cr"
    have len: "cr_len cr = int (length P)" using length_points_of [OF ok] by (simp add: P_def)
    obtain xs where xs: "cr_points cr1 = Some xs" "length P + 2 \<le> length xs" "cr_size cr1 = int (length xs)"
      using 1(2,5) len by (cases "cr_points cr1") (auto simp: cr_ok_def)
    define ys where "ys = 0 # P @ 0xffffffff # drop (length P + 2) xs"
    have copy: "points_copy (Some xs) 1 P = Some (if P = [] then Some xs
        else Some (take 1 xs @ P @ drop (1 + length P) xs))"
      using xs(2) by (simp add: points_copy_def)
    obtain x0 x1 xs1 where x: "xs = x0 # xs1" "drop (length P) xs1 = x1 # drop (length P + 1) xs1"
      using xs(2) that [of "hd xs" "tl xs" "tl xs ! length P"]
      by (cases xs) (simp_all add: Cons_nth_drop_Suc)
    have "(do { zs \<leftarrow> points_wr (if P = [] then Some xs else Some (take 1 xs @ P @ drop (1 + length P) xs)) 0 0;
        points_wr (Some zs) (int (length P) + 1) 0xffffffff }) = Some ys"
      using xs(2) x
      by (cases "P = []"; cases xs1) (auto simp: points_wr_def wr_def ys_def nat_add_distrib list_update_append)
    then have stored: "(do { pts \<leftarrow> points_copy (Some xs) 1 P; zs \<leftarrow> points_wr pts 0 0;
        points_wr (Some zs) (int (length P) + 1) 0xffffffff }) = Some ys"
      by (simp only: copy Option.bind.bind_lunit)
    define cr2 where "cr2 = cr1\<lparr>cr_points := Some ys, cr_len := cr_len cr + 2\<rparr>"
    have ok2: "cr_ok cr2" using 1(2) xs(2,3) len by (simp add: cr_ok_def cr2_def ys_def)
    have pts2: "points_of cr2 = 0 # P @ [0xffffffff]"
      by (simp add: points_of_def cr2_def ys_def len nat_add_distrib)
    obtain cr3 where c: "cr_compress cr2 = Some cr3" "cr_ok cr3" "points_of cr3 = squeeze (points_of cr2)"
      using cr_compress_squeezes [OF ok2] by blast
    have "points_used (Some xs) (cr_len cr) = Some P"
      using points_used_of [OF 1(2)] 1(3,4) xs(1) by (simp add: P_def)
    then have "cr_invert cr = Some (cr3, 0)"
      using 1(1) ci stored c(1) xs(1) by (auto simp: cr_invert_def Let_def len cr2_def split: Option.bind_splits)
    moreover have "sorted P" "even (length P)" using wf by (simp_all add: P_def)
    then have "cr_wf (points_of cr3)" unfolding c(3) pts2
      using le_max_code by (intro squeeze_wf) (auto simp: sorted_append)
    moreover have "cr_mem (points_of cr3) d = (\<not> cr_mem (points_of cr) d)" if "d \<noteq> 0xffffffff" for d
      using invert_mem [OF that, of P] \<open>even (length P)\<close> by (simp add: c(3) pts2 squeeze_mem P_def)
    moreover have "length (points_of cr3) \<le> length (points_of cr) + 2"
      using squeeze_length(1) [of "points_of cr2"] pts2 c(3) by (simp add: P_def)
    ultimately show thesis using that(1) c(2) by blast
  next
    case (2 cr1)
    then show thesis using that(2) ci by (simp add: cr_invert_def Let_def)
  qed
qed

text \<open>Union in place.\<close>

lemma cr_union1_unions:
  assumes ok: "cr_ok cr" and wf: "cr_wf (points_of cr)" and b: "sorted b" "even (length b)"
    and small: "length (points_of cr) + length b < 2 ^ 28"
  obtains cr1 where "cr_union1 cr b (int (length b)) = Some (cr1, 0)" "cr_ok cr1" "cr_wf (points_of cr1)"
      "\<And>c. cr_mem (points_of cr1) c = (cr_mem (points_of cr) c \<or> cr_mem b c)"
  | cr1 where "cr_union1 cr b (int (length b)) = Some (cr1, -1)" "cr_ok cr1"
proof -
  define a where "a = points_of cr"
  have used: "points_used (cr_points cr) (cr_len cr) = Some a" unfolding a_def by (rule points_used_of [OF ok])
  have len: "cr_len cr = int (length a)" using length_points_of [OF ok] by (simp add: a_def)
  define cr0 where "cr0 = cr\<lparr>cr_len := 0, cr_size := 0, cr_points := None\<rparr>"
  have "cr_ok cr0" "points_of cr0 = []" by (simp_all add: cr_ok_empty [OF ok] points_of_def cr0_def)
  then obtain cr1 r where l: "cr_op cr0 a (int (length a)) b (int (length b)) CR_OP_UNION = Some (cr1, r)"
      "cr_ok cr1" "r = 0 \<and> cr_wf (points_of cr1) \<and>
        (\<forall>c. cr_mem (points_of cr1) c = (cr_mem a c \<or> cr_mem b c)) \<and>
        length (points_of cr1) \<le> length a + length b \<or> r = -1"
    using cr_op_result [of cr0 a b CR_OP_UNION "(\<or>)"] wf b small cr_is_in_simps(1)
    unfolding a_def by blast
  define h where "h = cr_free (cr\<lparr>cr_opaque := cr_opaque cr1\<rparr>)"
  have u: "cr_union1 cr b (int (length b)) = Some (cr1\<lparr>cr_opaque := h\<rparr>, r)"
    using l(1) used len by (simp add: cr_union1_def Let_def cr0_def h_def)
  from l(3) show thesis
  proof
    assume "r = -1"
    then show thesis using that(2) u l(2) by simp
  next
    assume "r = 0 \<and> cr_wf (points_of cr1) \<and> (\<forall>c. cr_mem (points_of cr1) c = (cr_mem a c \<or> cr_mem b c)) \<and>
        length (points_of cr1) \<le> length a + length b"
    then show thesis using that(1) u l(2) by (simp add: a_def)
  qed
qed

lemma interval_mem:
  fixes c :: u32
  assumes "c2 \<noteq> 0xffffffff" and "c1 \<le> c2"
  shows "sorted [c1, c2 + 1]" and "cr_mem [c1, c2 + 1] c \<longleftrightarrow> c1 \<le> c \<and> c \<le> c2"
proof -
  have "unat c2 \<noteq> 0xffffffff" using assms(1) by (auto simp: word_unat_eq_iff)
  then have "unat (c2 + 1) = unat c2 + 1"
    using unsigned_less [of c2, where ?'a = nat] by (simp add: unat_word_ariths)
  then show "sorted [c1, c2 + 1]" "cr_mem [c1, c2 + 1] c \<longleftrightarrow> c1 \<le> c \<and> c \<le> c2"
    using assms(2) by (auto simp: word_le_nat_alt)
qed

lemma cr_union_interval_adds:
  assumes ok: "cr_ok cr" and wf: "cr_wf (points_of cr)" and c: "c1 \<le> c2" "c2 \<noteq> 0xffffffff"
    and small: "length (points_of cr) + 2 < 2 ^ 28"
  obtains cr1 where "cr_union_interval cr c1 c2 = Some (cr1, 0)" "cr_ok cr1" "cr_wf (points_of cr1)"
      "\<And>c. cr_mem (points_of cr1) c = (cr_mem (points_of cr) c \<or> c1 \<le> c \<and> c \<le> c2)"
  | cr1 where "cr_union_interval cr c1 c2 = Some (cr1, -1)" "cr_ok cr1"
proof -
  have "length (points_of cr) + length [c1, c2 + 1] < 2 ^ 28" using small by simp
  moreover have "even (length [c1, c2 + 1])" by simp
  moreover note interval_mem(1) [OF c(2,1)]
  ultimately show thesis
    using cr_union1_unions [OF ok wf, of "[c1, c2 + 1]" thesis] that interval_mem(2) [OF c(2,1)]
    unfolding cr_union_interval_def by auto
qed

text \<open>An allocation function that always has room.\<close>

definition plain_points :: "unit points_realloc" where
  "plain_points h b n = (h, Some (take (unat n div 4) ((case b of None \<Rightarrow> [] | Some xs \<Rightarrow> xs) @ replicate (unat n div 4) 0)))"

lemma lawful_plain_points: "lawful_points plain_points"
  by (auto simp: lawful_points_def plain_points_def min_def)

section \<open>Failures\<close>

text \<open>The operations fail only when an allocation does.\<close>

definition grants :: "'h points_realloc \<Rightarrow> bool" where
  "grants f \<longleftrightarrow> (\<forall>h b n. n \<noteq> 0 \<longrightarrow> snd (f h b n) \<noteq> None)"

definition served :: "'h points_realloc \<Rightarrow> ('h char_range \<times> int) option \<Rightarrow> bool" where
  "served f m \<longleftrightarrow> (\<forall>cr r. m = Some (cr, r) \<longrightarrow>
     cr_realloc_func cr = f \<and> 0 \<le> cr_size cr \<and> (grants f \<longrightarrow> r = 0))"

lemma served_simps [simp]:
  "served f None" "served f (Some (cr, 0)) \<longleftrightarrow> cr_realloc_func cr = f \<and> 0 \<le> cr_size cr"
  by (auto simp: served_def)

lemma served_bind [intro]:
  assumes "served f m" and "\<And>cr. cr_realloc_func cr = f \<Longrightarrow> 0 \<le> cr_size cr \<Longrightarrow> served f (k cr)"
  shows "served f (m \<bind> (\<lambda>(cr, r). if r \<noteq> 0 then Some (cr, -1) else k cr))"
proof (cases m)
  case (Some p)
  obtain cr r where p: "p = (cr, r)" by (cases p)
  have cr: "cr_realloc_func cr = f" "0 \<le> cr_size cr" "grants f \<Longrightarrow> r = 0"
    using assms(1) unfolding served_def Some p by blast+
  show ?thesis
  proof (cases "r = 0")
    case False
    then show ?thesis using cr unfolding Some p by (auto simp: served_def)
  qed (use assms(2) [OF cr(1,2)] Some p in simp)
qed simp

lemma served_opt: "(\<And>x. m = Some x \<Longrightarrow> served f (k x)) \<Longrightarrow> served f (m \<bind> k)"
  by (cases m) auto

lemma c_int_bound: "c_int i = Some j \<longleftrightarrow> j = i \<and> - (2 ^ 31) \<le> i \<and> i < 2 ^ 31"
  by (auto simp: c_int_def)

lemma cr_realloc_served:
  assumes "0 \<le> cr_size cr" and "sz < 2 ^ 31"
  shows "served (cr_realloc_func cr) (cr_realloc cr sz)"
proof (cases "sz > cr_size cr")
  case True
  define m where "m = max sz (cr_size cr * 3 div 2)"
  have m: "(word_of_int (m * 4) :: u64) \<noteq> 0" "0 \<le> m" if "cr_size cr * 3 < 2 ^ 31"
  proof -
    have m: "0 < m" "m < 2 ^ 31" using True assms that by (auto simp: m_def)
    then have "uint (word_of_int (m * 4) :: u64) = m * 4" unfolding uint_word_of_int by simp
    then show "(word_of_int (m * 4) :: u64) \<noteq> 0" "0 \<le> m" using m(1) by auto
  qed
  show ?thesis unfolding cr_realloc_def
    using True m assms(1) by (auto simp: served_def c_int_bound m_def [symmetric] grants_def
        split: prod.splits option.splits Option.bind_splits) (metis snd_conv)
qed (use assms in \<open>simp add: cr_realloc_def\<close>)

lemma cr_add_point_served: "0 \<le> cr_size cr \<Longrightarrow> served (cr_realloc_func cr) (cr_add_point cr v)"
  unfolding cr_add_point_def
  by (intro served_bind served_opt) (auto simp: c_int_bound intro!: served_opt cr_realloc_served)

lemma cr_add_interval_served: "0 \<le> cr_size cr \<Longrightarrow> served (cr_realloc_func cr) (cr_add_interval cr a b)"
  unfolding cr_add_interval_def
  by (intro served_bind served_opt) (auto simp: c_int_bound intro!: cr_realloc_served)

lemma cr_copy_served: "0 \<le> cr_size cr \<Longrightarrow> cr_len cr1 < 2 ^ 31 \<Longrightarrow> served (cr_realloc_func cr) (cr_copy cr cr1)"
  unfolding cr_copy_def
  by (intro served_bind served_opt cr_realloc_served) auto

lemma cr_compress_same: "cr_compress cr = Some cr1 \<Longrightarrow> cr_realloc_func cr1 = cr_realloc_func cr \<and> cr_size cr1 = cr_size cr"
  by (auto simp: cr_compress_def split: option.splits if_splits Option.bind_splits prod.splits)

lemma cr_invert_served: "0 \<le> cr_size cr \<Longrightarrow> served (cr_realloc_func cr) (cr_invert cr)"
  unfolding cr_invert_def Let_def
  by (intro served_opt served_bind cr_realloc_served) (auto simp: c_int_bound dest: cr_compress_same)

lemma cr_op_loop_served:
  "cr_op_loop cr a a_len b b_len op1 ai bi = Some res \<Longrightarrow> 0 \<le> cr_size cr \<Longrightarrow> served (cr_realloc_func cr) (Some res)"
proof (induction cr a a_len b b_len op1 ai bi res rule: cr_op_loop.raw_induct [rotated, consumes 1, case_names step])
  case (step loop cr a a_len b b_len op1 ai bi res)
  have ih: "served f (loop cr1 a a_len b b_len op1 ai1 bi1)"
    if "cr_realloc_func cr1 = f" "0 \<le> cr_size cr1" for cr1 ai1 bi1 f
    using step(1) [of cr1 a a_len b b_len op1 ai1 bi1] that by (auto simp: served_def)
  have "served (cr_realloc_func cr) (do {
     np \<leftarrow> next_point a a_len b b_len ai bi;
     (case np of
        None \<Rightarrow> Some (cr, 0)
      | Some (v, ai1, bi1) \<Rightarrow> do {
          is_in \<leftarrow> cr_is_in op1 (odd ai1) (odd bi1);
          if is_in \<noteq> odd (cr_len cr) then do {
            (cr1, r) \<leftarrow> cr_add_point cr v;
            if r \<noteq> 0 then Some (cr1, -1) else loop cr1 a a_len b b_len op1 ai1 bi1
          }
          else loop cr a a_len b b_len op1 ai1 bi1
        })
   })"
    using step(3) by (intro served_opt) (simp split: option.split prod.split,
      intro conjI impI allI served_opt, auto intro!: served_bind cr_add_point_served ih simp del: not_None_eq)
  then show ?case using step(2) by simp
qed

lemma cr_op_served: "0 \<le> cr_size cr \<Longrightarrow> served (cr_realloc_func cr) (cr_op cr a a_len b b_len op1)"
proof -
  assume "0 \<le> cr_size cr"
  then have "served (cr_realloc_func cr) (cr_op_loop cr a (nat a_len) b (nat b_len) op1 0 0)"
    using cr_op_loop_served [of cr] by (cases "cr_op_loop cr a (nat a_len) b (nat b_len) op1 0 0") auto
  then show ?thesis unfolding cr_op_def
    by (rule served_bind) (auto intro!: served_opt dest: cr_compress_same)
qed

lemma cr_union1_served: "served (cr_realloc_func cr) (cr_union1 cr b_pt b_len)"
proof -
  have "served (cr_realloc_func cr) (cr_op (cr\<lparr>cr_len := 0, cr_size := 0, cr_points := None\<rparr>) a_pt a_len b_pt b_len op1)"
    for a_pt a_len op1
    using cr_op_served [of "cr\<lparr>cr_len := 0, cr_size := 0, cr_points := None\<rparr>"] by simp
  then show ?thesis unfolding cr_union1_def Let_def
    by (intro served_opt) (auto simp: served_def split: Option.bind_splits)
qed

lemma grants_plain_points: "grants plain_points"
  by (auto simp: grants_def plain_points_def)

end
