(* ===== verification/Case_Conv.thy ===== *)
theory Case_Conv
  imports Prelude
begin

text \<open>
  Case conversion in QuickJS's \<^verbatim>\<open>libunicode.c\<close>, with the tables of \<^verbatim>\<open>libunicode-table.h\<close> it reads. An
  index outside a table is \<^const>\<open>None\<close>.
\<close>

section \<open>The tables\<close>

definition case_conv_table1 :: "u32 list" where
  "case_conv_table1 =
   [0x209a30, 0x309a00, 0x5a8173, 0x601730, 0x6c0730, 0x6f81b3, 0x701700, 0x7c0700, 0x7f8100,
    0x803040, 0x9801c3, 0x988190, 0x990640, 0x9c9040, 0xa481b4, 0xa52e40, 0xbc0130, 0xbc8640,
    0xbf8170, 0xc00100, 0xc08130, 0xc10440, 0xc30130, 0xc38240, 0xc48230, 0xc58240, 0xc70130,
    0xc78130, 0xc80130, 0xc88240, 0xc98130, 0xca0130, 0xca8100, 0xcb0130, 0xcb8130, 0xcc0240,
    0xcd0100, 0xce0130, 0xce8130, 0xcf0100, 0xcf8130, 0xd00640, 0xd30130, 0xd38240, 0xd48130,
    0xd60240, 0xd70130, 0xd78240, 0xd88230, 0xd98440, 0xdb8130, 0xdc0240, 0xde0240, 0xdf8100,
    0xe20350, 0xe38350, 0xe50350, 0xe69040, 0xee8100, 0xef1240, 0xf801b4, 0xf88350, 0xfa0240,
    0xfb0130, 0xfb8130, 0xfc2840, 0x1100130, 0x1111240, 0x11d0131, 0x11d8240, 0x11e8130,
    0x11f0131, 0x11f8201, 0x1208240, 0x1218130, 0x1220130, 0x1228130, 0x1230a40, 0x1280101,
    0x1288101, 0x1290101, 0x1298100, 0x12a0100, 0x12b0200, 0x12c8100, 0x12d8100, 0x12e0101,
    0x1300100, 0x1308101, 0x1318100, 0x1328101, 0x1330101, 0x1340100, 0x1348100, 0x1350101,
    0x1358101, 0x1360101, 0x1378100, 0x1388101, 0x1390100, 0x13a8100, 0x13e8101, 0x1400100,
    0x1410101, 0x1418100, 0x1438101, 0x1440100, 0x1448100, 0x1450200, 0x1460100, 0x1490100,
    0x14e8101, 0x14f0101, 0x1a28173, 0x1b80440, 0x1bb0240, 0x1bd8300, 0x1bf8130, 0x1c30130,
    0x1c40330, 0x1c60130, 0x1c70230, 0x1c801d0, 0x1c89130, 0x1d18930, 0x1d60100, 0x1d68300,
    0x1d801d3, 0x1d89100, 0x1e10173, 0x1e18900, 0x1e60100, 0x1e68200, 0x1e78130, 0x1e80173,
    0x1e88173, 0x1ea8173, 0x1eb0173, 0x1eb8100, 0x1ec1840, 0x1f80173, 0x1f88173, 0x1f90100,
    0x1f98100, 0x1fa01a0, 0x1fa8173, 0x1fb8240, 0x1fc8130, 0x1fd0240, 0x1fe8330, 0x2001030,
    0x2082030, 0x2182000, 0x2281000, 0x2302240, 0x2453640, 0x2600130, 0x2608e40, 0x2678100,
    0x2686040, 0x298a630, 0x2b0a600, 0x2c381b5, 0x8502631, 0x8638131, 0x8668131, 0x8682b00,
    0x87e8300, 0x9d05011, 0x9f80610, 0x9fc0620, 0xe400174, 0xe408174, 0xe410174, 0xe418174,
    0xe420174, 0xe428174, 0xe430174, 0xe438180, 0xe440180, 0xe482b30, 0xe5e8330, 0xebc8101,
    0xebe8101, 0xec70101, 0xf007e40, 0xf3f1840, 0xf4b01b5, 0xf4b81b6, 0xf4c01b6, 0xf4c81b6,
    0xf4d01b7, 0xf4d8180, 0xf4f0130, 0xf506040, 0xf800800, 0xf840830, 0xf880600, 0xf8c0630,
    0xf900800, 0xf940830, 0xf980800, 0xf9c0830, 0xfa00600, 0xfa40630, 0xfa801b0, 0xfa88100,
    0xfa901d3, 0xfa98100, 0xfaa01d3, 0xfaa8100, 0xfab01d3, 0xfab8100, 0xfac8130, 0xfad8130,
    0xfae8130, 0xfaf8130, 0xfb00800, 0xfb40830, 0xfb80200, 0xfb90400, 0xfbb0200, 0xfbc0201,
    0xfbd0201, 0xfbe0201, 0xfc008b7, 0xfc40867, 0xfc808b8, 0xfcc0868, 0xfd008b8, 0xfd40868,
    0xfd80200, 0xfd901b9, 0xfd981b1, 0xfda01b9, 0xfdb01b1, 0xfdb81d7, 0xfdc0230, 0xfdd0230,
    0xfde0161, 0xfdf0173, 0xfe101b9, 0xfe181b2, 0xfe201ba, 0xfe301b2, 0xfe381d8, 0xfe40430,
    0xfe60162, 0xfe80200, 0xfe901d0, 0xfe981d0, 0xfeb01b0, 0xfeb81d0, 0xfec0230, 0xfed0230,
    0xff00201, 0xff101d3, 0xff181d3, 0xff201ba, 0xff28101, 0xff301b0, 0xff381d3, 0xff40230,
    0xff50230, 0xff60131, 0xff901ba, 0xff981b2, 0xffa01bb, 0xffb01b2, 0xffb81d9, 0xffc0230,
    0xffd0230, 0xffe0162, 0x109301a0, 0x109501a0, 0x109581a0, 0x10990131, 0x10a70101, 0x10b01031,
    0x10b81001, 0x10c18240, 0x125b1a31, 0x12681a01, 0x16002f31, 0x16182f01, 0x16300240,
    0x16310130, 0x16318130, 0x16320130, 0x16328100, 0x16330100, 0x16338640, 0x16368130,
    0x16370130, 0x16378130, 0x16380130, 0x16390240, 0x163a8240, 0x163f0230, 0x16406440,
    0x16758440, 0x16790240, 0x16802600, 0x16938100, 0x16968100, 0x53202e40, 0x53401c40,
    0x53910e40, 0x53993e40, 0x53bc8440, 0x53be8130, 0x53bf0a40, 0x53c58240, 0x53c68130,
    0x53c80440, 0x53ca0101, 0x53cb1440, 0x53d50130, 0x53d58130, 0x53d60130, 0x53d68130,
    0x53d70130, 0x53d80130, 0x53d88130, 0x53d90130, 0x53d98131, 0x53da0c40, 0x53e10240,
    0x53e20131, 0x53e28130, 0x53e30130, 0x53e38440, 0x53fa8240, 0x55a98101, 0x55b85020,
    0x7d8001b2, 0x7d8081b2, 0x7d8101b2, 0x7d8181da, 0x7d8201da, 0x7d8281b3, 0x7d8301b3,
    0x7d8981bb, 0x7d8a01bb, 0x7d8a81bb, 0x7d8b01bc, 0x7d8b81bb, 0x7f909a31, 0x7fa09a01,
    0x82002831, 0x82142801, 0x82582431, 0x826c2401, 0x86403331, 0x86603301, 0x8c502031,
    0x8c602001, 0xb7202031, 0xb7302001, 0xf4802231, 0xf4912201]"

definition case_conv_table2 :: "u8 list" where
  "case_conv_table2 =
   [0x1, 0x0, 0x9c, 0x6, 0x7, 0x4d, 0x3, 0x4, 0x10, 0x0, 0x8f, 0xb, 0x0, 0x0, 0x11, 0x0, 0x8,
    0x0, 0x53, 0x4a, 0x51, 0x0, 0x52, 0x0, 0x53, 0x0, 0x3a, 0x54, 0x55, 0x0, 0x57, 0x59, 0x3f,
    0x5d, 0x5c, 0x0, 0x46, 0x61, 0x63, 0x42, 0x64, 0x0, 0x66, 0x0, 0x68, 0x0, 0x6a, 0x0, 0x6c,
    0x0, 0x6e, 0x0, 0x0, 0x40, 0x0, 0x0, 0x0, 0x0, 0x1a, 0x0, 0x93, 0x0, 0x0, 0x20, 0x35, 0x0,
    0x27, 0x0, 0x21, 0x0, 0x24, 0x22, 0x2a, 0x0, 0x13, 0x6b, 0x6d, 0x0, 0x26, 0x24, 0x27, 0x14,
    0x16, 0x18, 0x1b, 0x1c, 0x3e, 0x1e, 0x3f, 0x1f, 0x39, 0x3d, 0x22, 0x21, 0x41, 0x1e, 0x40,
    0x25, 0x25, 0x26, 0x28, 0x20, 0x2a, 0x49, 0x2c, 0x43, 0x2e, 0x4b, 0x30, 0x4c, 0x32, 0x44,
    0x42, 0x99, 0x0, 0x0, 0x95, 0x8f, 0x7d, 0x7e, 0x83, 0x84, 0x12, 0x80, 0x82, 0x76, 0x77, 0x12,
    0x7b, 0xa3, 0x7c, 0x78, 0x79, 0x8a, 0x92, 0x98, 0xa6, 0xa0, 0x85, 0x0, 0x9a, 0xa1, 0x93,
    0x75, 0x33, 0x95, 0x0, 0x8e, 0x0, 0x74, 0x99, 0x98, 0x97, 0x96, 0x0, 0x0, 0x9e, 0x0, 0x9c,
    0x0, 0xa1, 0xa0, 0x15, 0x2e, 0x2f, 0x30, 0xb4, 0xb5, 0x4e, 0xaa, 0xa9, 0x12, 0x14, 0x1e,
    0x21, 0x22, 0x22, 0x2a, 0x34, 0x35, 0xa6, 0xa7, 0x36, 0x1f, 0x4a, 0x0, 0x0, 0x97, 0x1, 0x5a,
    0xda, 0x1d, 0x36, 0x5, 0x0, 0xc4, 0xc3, 0xc6, 0xc5, 0xc8, 0xc7, 0xca, 0xc9, 0xcc, 0xcb, 0xc4,
    0xd5, 0x45, 0xd6, 0x42, 0xd7, 0x46, 0xd8, 0xce, 0xd0, 0xd2, 0xd4, 0xda, 0xd9, 0xee, 0xf6,
    0xfe, 0xe, 0x7, 0xf, 0x80, 0x9f, 0x0, 0x21, 0x80, 0xa3, 0xed, 0x0, 0xc0, 0x40, 0xc6, 0x60,
    0xe7, 0xdb, 0xe6, 0x99, 0xc0, 0x0, 0x0, 0x6, 0x60, 0xdc, 0x29, 0xfd, 0x15, 0x12, 0x6, 0x16,
    0xf8, 0xdd, 0x6, 0x15, 0x12, 0x84, 0x8, 0xc6, 0x16, 0xff, 0xdf, 0x3, 0xc0, 0x40, 0x0, 0x46,
    0x60, 0xde, 0xe0, 0x6d, 0x37, 0x38, 0x39, 0x15, 0x14, 0x17, 0x16, 0x0, 0x1a, 0x19, 0x1c,
    0x1b, 0x0, 0x5f, 0xb7, 0x65, 0x44, 0x47, 0x0, 0x4f, 0x62, 0x4e, 0x50, 0x0, 0x0, 0x48, 0x0,
    0x0, 0x0, 0xa3, 0xa4, 0xa5, 0x0, 0x0, 0x0, 0x0, 0x0, 0xb6, 0x0, 0x0, 0x5a, 0x0, 0x48, 0x0,
    0x5b, 0x56, 0x58, 0x60, 0x5e, 0x70, 0x69, 0x6f, 0x4d, 0x0, 0x0, 0x3b, 0x67, 0xb8, 0x0, 0x0,
    0x45, 0xa8, 0x8a, 0x8b, 0x8c, 0xab, 0xac, 0x58, 0x58, 0xaf, 0x94, 0xb0, 0x6f, 0xb2, 0x5c,
    0x5b, 0x5e, 0x5d, 0x60, 0x5f, 0x62, 0x61, 0x64, 0x63, 0x66, 0x65, 0x68, 0x67]"

definition case_conv_ext :: "u16 list" where
  "case_conv_ext =
   [0x399, 0x308, 0x301, 0x3a5, 0x313, 0x300, 0x342, 0x391, 0x397, 0x3a9, 0x46, 0x49, 0x4c, 0x53,
    0x69, 0x307, 0x2bc, 0x4e, 0x4a, 0x30c, 0x535, 0x552, 0x48, 0x331, 0x54, 0x57, 0x30a, 0x59,
    0x41, 0x2be, 0x1f08, 0x1f80, 0x1f28, 0x1f90, 0x1f68, 0x1fa0, 0x1fba, 0x386, 0x1fb3, 0x1fca,
    0x389, 0x1fc3, 0x3a1, 0x1ffa, 0x38f, 0x1ff3, 0x544, 0x546, 0x53b, 0x54e, 0x53d, 0x3b8, 0x462,
    0xa64a, 0x1e60, 0x3c9, 0x6b, 0xe5]"

section \<open>Searching a table of ranges\<close>

text \<open>The binary search that several functions of the file repeat: the entry whose range of codes
  contains \<open>c\<close>, if any. The bounds never become negative, as the search stops first.\<close>

function range_search :: "u32 list \<Rightarrow> (u32 \<Rightarrow> u32) \<Rightarrow> (u32 \<Rightarrow> u32) \<Rightarrow> u32 \<Rightarrow> int \<Rightarrow> int \<Rightarrow> nat option option" where
  "range_search tab code len c idx_min idx_max =
     (if idx_min \<le> idx_max then do {
        let idx = (idx_max + idx_min) div 2;
        v \<leftarrow> rd tab (nat idx);
        if c < code v then range_search tab code len c idx_min (idx - 1)
        else if c \<ge> code v + len v then range_search tab code len c (idx + 1) idx_max
        else Some (Some (nat idx))
      } else Some None)"
  by pat_completeness auto
termination
  by (relation "measure (\<lambda>(tab, code, len, c, idx_min, idx_max). nat (idx_max - idx_min + 1))") auto

declare range_search.simps [simp del]

section \<open>The code\<close>

definition case_code :: "u32 \<Rightarrow> u32" where
  "case_code v = drop_bit 15 v"

definition case_len :: "u32 \<Rightarrow> u32" where
  "case_len v = drop_bit 8 v AND 0x7f"

definition case_type :: "u32 \<Rightarrow> u32" where
  "case_type v = drop_bit 4 v AND 0xf"

definition RUN_TYPE_U :: u32 where "RUN_TYPE_U = 0"
definition RUN_TYPE_L :: u32 where "RUN_TYPE_L = 1"
definition RUN_TYPE_UF :: u32 where "RUN_TYPE_UF = 2"
definition RUN_TYPE_LF :: u32 where "RUN_TYPE_LF = 3"
definition RUN_TYPE_UL :: u32 where "RUN_TYPE_UL = 4"
definition RUN_TYPE_LSU :: u32 where "RUN_TYPE_LSU = 5"
definition RUN_TYPE_U2L_399_EXT2 :: u32 where "RUN_TYPE_U2L_399_EXT2 = 6"
definition RUN_TYPE_UF_D20 :: u32 where "RUN_TYPE_UF_D20 = 7"
definition RUN_TYPE_UF_D1_EXT :: u32 where "RUN_TYPE_UF_D1_EXT = 8"
definition RUN_TYPE_U_EXT :: u32 where "RUN_TYPE_U_EXT = 9"
definition RUN_TYPE_LF_EXT :: u32 where "RUN_TYPE_LF_EXT = 10"
definition RUN_TYPE_U_EXT2 :: u32 where "RUN_TYPE_U_EXT2 = 11"
definition RUN_TYPE_L_EXT2 :: u32 where "RUN_TYPE_L_EXT2 = 12"
definition RUN_TYPE_U_EXT3 :: u32 where "RUN_TYPE_U_EXT3 = 13"

lemmas run_types = RUN_TYPE_U_def RUN_TYPE_L_def RUN_TYPE_UF_def RUN_TYPE_LF_def RUN_TYPE_UL_def
  RUN_TYPE_LSU_def RUN_TYPE_U2L_399_EXT2_def RUN_TYPE_UF_D20_def RUN_TYPE_UF_D1_EXT_def
  RUN_TYPE_U_EXT_def RUN_TYPE_LF_EXT_def RUN_TYPE_U_EXT2_def RUN_TYPE_L_EXT2_def RUN_TYPE_U_EXT3_def

definition ext :: "u32 \<Rightarrow> u32 option" where
  "ext i = map_option ucast (rd case_conv_ext (unat i))"

text \<open>The \<^verbatim>\<open>switch\<close> on the type of the entry that was found, and the characters stored in \<^verbatim>\<open>res\<close>.
  A \<^verbatim>\<open>break\<close> leaves the code as it is.\<close>

definition case_entry :: "u32 \<Rightarrow> u32 \<Rightarrow> u32 \<Rightarrow> u32 \<Rightarrow> u32 \<Rightarrow> u32 list option" where
  "case_entry conv_type c code type data =
     (let is_lower = (if conv_type \<noteq> 0 then 1 else 0) :: u32 in
      if type = RUN_TYPE_U \<or> type = RUN_TYPE_L \<or> type = RUN_TYPE_UF \<or> type = RUN_TYPE_LF then
        if conv_type = type AND 1 \<or> type \<ge> RUN_TYPE_UF \<and> conv_type = 2 then do {
          v \<leftarrow> rd case_conv_table1 (unat data);
          Some [c - code + drop_bit 15 v]
        } else Some [c]
      else if type = RUN_TYPE_UL then
        let a = c - code in
        if a AND 1 \<noteq> 1 - is_lower then Some [c] else Some [(a XOR 1) + code]
      else if type = RUN_TYPE_LSU then
        let a = c - code in
        if a = 1 then Some [c + (2 * is_lower - 1)]
        else if a = (1 - is_lower) * 2 then Some [c + (2 * is_lower - 1) * 2]
        else Some [c]
      else if type = RUN_TYPE_U2L_399_EXT2 then
        if is_lower = 0 then do { x \<leftarrow> ext (drop_bit 6 data); Some [c - code + x, 0x399] }
        else do { x \<leftarrow> ext (data AND 0x3f); Some [c - code + x] }
      else if type = RUN_TYPE_UF_D20 then
        if conv_type = 1 then Some [c] else Some [data + (if conv_type = 2 then 0x20 else 0)]
      else if type = RUN_TYPE_UF_D1_EXT then
        if conv_type = 1 then Some [c]
        else do { x \<leftarrow> ext data; Some [x + (if conv_type = 2 then 1 else 0)] }
      else if type = RUN_TYPE_U_EXT \<or> type = RUN_TYPE_LF_EXT then
        if is_lower \<noteq> type - RUN_TYPE_U_EXT then Some [c] else do { x \<leftarrow> ext data; Some [x] }
      else if type = RUN_TYPE_U_EXT2 \<or> type = RUN_TYPE_L_EXT2 then
        if conv_type \<noteq> type - RUN_TYPE_U_EXT2 then Some [c]
        else do {
          x \<leftarrow> ext (drop_bit 6 data);
          y \<leftarrow> ext (data AND 0x3f);
          Some [c - code + x, y]
        }
      else if conv_type \<noteq> 0 then Some [c]
      else do {
        x \<leftarrow> ext (drop_bit 8 data);
        y \<leftarrow> ext (drop_bit 4 data AND 0xf);
        z \<leftarrow> ext (data AND 0xf);
        Some [x, y, z]
      })"

definition lre_case_conv :: "u32 \<Rightarrow> u32 \<Rightarrow> u32 list option" where
  "lre_case_conv c conv_type =
     (if c < 128 then
        if conv_type \<noteq> 0 then
          if 0x41 \<le> c \<and> c \<le> 0x5a then Some [c - 0x41 + 0x61] else Some [c]
        else
          if 0x61 \<le> c \<and> c \<le> 0x7a then Some [c - 0x61 + 0x41] else Some [c]
      else do {
        found \<leftarrow> range_search case_conv_table1 case_code case_len c 0 (int (length case_conv_table1) - 1);
        (case found of
           None \<Rightarrow> Some [c]
         | Some idx \<Rightarrow> do {
             v \<leftarrow> rd case_conv_table1 idx;
             d \<leftarrow> rd case_conv_table2 idx;
             let data = push_bit 8 (v AND 0xf) OR ucast d;
             case_entry conv_type c (case_code v) (case_type v) data
           })
      })"

section \<open>Searching finds the range\<close>

definition range_covers :: "u32 list \<Rightarrow> (u32 \<Rightarrow> u32) \<Rightarrow> (u32 \<Rightarrow> u32) \<Rightarrow> nat \<Rightarrow> u32 \<Rightarrow> bool" where
  "range_covers tab code len i c \<longleftrightarrow>
     i < length tab \<and> code (tab ! i) \<le> c \<and> c < code (tab ! i) + len (tab ! i)"

locale range_table =
  fixes tab :: "u32 list" and code :: "u32 \<Rightarrow> u32" and len :: "u32 \<Rightarrow> u32"
  assumes apart: "i < j \<Longrightarrow> j < length tab \<Longrightarrow> code (tab ! i) + len (tab ! i) \<le> code (tab ! j)"
    and no_wrap: "i < length tab \<Longrightarrow> code (tab ! i) \<le> code (tab ! i) + len (tab ! i)"
begin

lemma covers_unique: "range_covers tab code len i c \<Longrightarrow> range_covers tab code len j c \<Longrightarrow> i = j"
proof (rule ccontr)
  assume c: "range_covers tab code len i c" "range_covers tab code len j c" and "i \<noteq> j"
  then consider "i < j" | "j < i" by linarith
  then show False using apart [of i j] apart [of j i] c by cases (auto simp: range_covers_def)
qed

lemma range_search_between:
  "0 \<le> lo \<Longrightarrow> hi < int (length tab) \<Longrightarrow>
    (\<And>i. range_covers tab code len i c \<Longrightarrow> lo \<le> int i \<and> int i \<le> hi) \<Longrightarrow>
    \<exists>r. range_search tab code len c lo hi = Some r \<and>
      (case r of None \<Rightarrow> \<forall>i. \<not> range_covers tab code len i c | Some i \<Rightarrow> range_covers tab code len i c)"
proof (induction "nat (hi - lo + 1)" arbitrary: lo hi rule: less_induct)
  case less
  show ?case
  proof (cases "lo \<le> hi")
    case False
    then have "\<not> range_covers tab code len i c" for i using less.prems(3) [of i] by auto
    then show ?thesis using False by (simp add: range_search.simps)
  next
    case True
    define idx where "idx = (hi + lo) div 2"
    have idx: "lo \<le> idx" "idx \<le> hi" "nat idx < length tab" using True less.prems(1,2) by (auto simp: idx_def)
    define v where "v = tab ! nat idx"
    have v: "rd tab (nat idx) = Some v" using idx(3) by (simp add: rd_in v_def)
    consider "c < code v" | "code v \<le> c" "code v + len v \<le> c" | "code v \<le> c" "c < code v + len v"
      by (meson not_less)
    then show ?thesis
    proof cases
      case 1
      have "int i \<le> idx - 1" if "range_covers tab code len i c" for i
      proof (rule ccontr)
        assume "\<not> int i \<le> idx - 1"
        then consider "i = nat idx" | "nat idx < i" by linarith
        then show False
        proof cases
          case 2
          then show False
            using apart [of "nat idx" i] no_wrap [OF idx(3)] that 1 by (auto simp: range_covers_def v_def)
        qed (use that 1 in \<open>auto simp: range_covers_def v_def\<close>)
      qed
      then have b: "lo \<le> int i \<and> int i \<le> idx - 1" if "range_covers tab code len i c" for i using less.prems(3) that by blast
      have "range_search tab code len c lo hi = range_search tab code len c lo (idx - 1)"
        using True 1 v by (subst range_search.simps) (simp add: Let_def idx_def)
      moreover have "nat (idx - 1 - lo + 1) < nat (hi - lo + 1)" "idx - 1 < int (length tab)"
        using idx by linarith+
      ultimately show ?thesis using less.hyps [of "idx - 1" lo] less.prems(1) b by simp
    next
      case 2
      have "idx + 1 \<le> int i" if "range_covers tab code len i c" for i
      proof (rule ccontr)
        assume "\<not> idx + 1 \<le> int i"
        then consider "i = nat idx" | "i < nat idx" by linarith
        then show False
        proof cases
          case 1
          then show False using that 2 by (auto simp: range_covers_def v_def)
        next
          case 2
          then have "code (tab ! i) + len (tab ! i) \<le> code v" using apart [of i "nat idx"] idx(3) by (simp add: v_def)
          then show False using that \<open>code v \<le> c\<close> by (auto simp: range_covers_def)
        qed
      qed
      then have b: "idx + 1 \<le> int i \<and> int i \<le> hi" if "range_covers tab code len i c" for i using less.prems(3) that by blast
      have "range_search tab code len c lo hi = range_search tab code len c (idx + 1) hi"
        using True 2 v by (subst range_search.simps) (simp add: Let_def idx_def leD)
      moreover have "nat (hi - (idx + 1) + 1) < nat (hi - lo + 1)" "0 \<le> idx + 1"
        using idx less.prems(1) by linarith+
      ultimately show ?thesis using less.hyps [of hi "idx + 1"] less.prems(2) b by simp
    next
      case 3
      then have "\<not> c < code v" "\<not> code v + len v \<le> c" by auto
      then have "range_search tab code len c lo hi = Some (Some (nat idx))"
        using True v by (subst range_search.simps) (simp add: Let_def idx_def)
      then show ?thesis using 3 idx(3) by (simp add: range_covers_def v_def)
    qed
  qed
qed

lemma range_search_finds:
  "range_search tab code len c 0 (int (length tab) - 1) = Some r \<longleftrightarrow>
    (case r of None \<Rightarrow> \<forall>i. \<not> range_covers tab code len i c | Some i \<Rightarrow> range_covers tab code len i c)"
proof -
  obtain r1 where r1: "range_search tab code len c 0 (int (length tab) - 1) = Some r1"
      "case r1 of None \<Rightarrow> \<forall>i. \<not> range_covers tab code len i c | Some i \<Rightarrow> range_covers tab code len i c"
    using range_search_between [of 0 "int (length tab) - 1" c] by (auto simp: range_covers_def)
  then show ?thesis using covers_unique by (cases r1; cases r) auto
qed

end

text \<open>The order of a table is checked by going through it once.\<close>

fun ranges_sorted :: "(u32 \<Rightarrow> u32) \<Rightarrow> (u32 \<Rightarrow> u32) \<Rightarrow> u32 list \<Rightarrow> bool" where
  "ranges_sorted code len (x # y # r) \<longleftrightarrow>
     code x \<le> code x + len x \<and> code x + len x \<le> code y \<and> ranges_sorted code len (y # r)"
| "ranges_sorted code len [x] \<longleftrightarrow> code x \<le> code x + len x"
| "ranges_sorted code len [] \<longleftrightarrow> True"

lemma ranges_sorted_apart:
  "ranges_sorted code len xs \<Longrightarrow> j < length xs \<Longrightarrow>
    code (xs ! j) \<le> code (xs ! j) + len (xs ! j) \<and>
    (\<forall>i<j. code (xs ! i) + len (xs ! i) \<le> code (xs ! j))"
proof (induction code len xs arbitrary: j rule: ranges_sorted.induct)
  case (1 code len x y r)
  show ?case
  proof (cases j)
    case (Suc k)
    have k: "code ((y # r) ! k) \<le> code ((y # r) ! k) + len ((y # r) ! k)"
        "\<forall>i<k. code ((y # r) ! i) + len ((y # r) ! i) \<le> code ((y # r) ! k)"
      using 1 Suc by auto
    have "code y \<le> code ((y # r) ! k)"
    proof (cases k)
      case (Suc k')
      then have "code y + len y \<le> code ((y # r) ! k)" using k(2) by fastforce
      moreover have "code y \<le> code y + len y" using 1 by (cases r) auto
      ultimately show ?thesis by (rule order.trans [rotated])
    qed simp
    then have "code x + len x \<le> code ((y # r) ! k)" using 1(2) by auto
    then show ?thesis using k Suc by (auto simp: less_Suc_eq_0_disj)
  qed (use 1 in auto)
qed auto

lemma range_tableI: "ranges_sorted code len tab \<Longrightarrow> range_table tab code len"
  by unfold_locales (use ranges_sorted_apart in blast)+

lemma case_conv_table1_sorted: "ranges_sorted case_code case_len case_conv_table1"
  unfolding case_conv_table1_def case_code_def case_len_def by simp

interpretation case_ranges: range_table case_conv_table1 case_code case_len
  by (rule range_tableI) (rule case_conv_table1_sorted)

lemma length_case_tables:
  "length case_conv_table1 = 361" "length case_conv_table2 = 361" "length case_conv_ext = 58"
  by (simp_all add: case_conv_table1_def case_conv_table2_def case_conv_ext_def)

section \<open>Every index stays in its table\<close>

definition entry_safe :: "u32 \<Rightarrow> u8 \<Rightarrow> bool" where
  "entry_safe v d =
     (let data = push_bit 8 (v AND 0xf) OR ucast d; type = case_type v in
      if type \<le> 3 then data < 361
      else if type = 8 \<or> type = 9 \<or> type = 10 then data < 58
      else if type = 6 \<or> type = 11 \<or> type = 12 then drop_bit 6 data < 58 \<and> data AND 0x3f < 58
      else type \<le> 12 \<or> drop_bit 8 data < 58)"

lemma case_tables_safe: "list_all2 entry_safe case_conv_table1 case_conv_table2"
  unfolding case_conv_table1_def case_conv_table2_def
  by (simp add: entry_safe_def case_type_def Let_def)

lemma ext_in: "i < 58 \<Longrightarrow> \<exists>x. ext i = Some x"
  by (simp add: ext_def rd_in length_case_tables word_less_nat_alt)

lemma low_nibble: "(x :: u32) AND 0xf < 58"
proof -
  have "x AND 0xf \<le> 0xf" by (rule word_and_le1)
  then show ?thesis by (simp add: word_le_nat_alt word_less_nat_alt)
qed

lemma case_entry_ok:
  assumes safe: "if ty \<le> 3 then data < 361
      else if ty = 8 \<or> ty = 9 \<or> ty = 10 then data < 58
      else if ty = 6 \<or> ty = 11 \<or> ty = 12 then drop_bit 6 data < 58 \<and> data AND 0x3f < 58
      else ty \<le> 12 \<or> drop_bit 8 data < 58"
  shows "\<exists>res. case_entry conv_type c code ty data = Some res \<and> 1 \<le> length res \<and> length res \<le> 3"
proof -
  have table1: "\<exists>x. rd case_conv_table1 (unat data) = Some x" if "data < 361"
    using that by (simp add: rd_in length_case_tables word_less_nat_alt)
  have small: "ty \<le> 3 \<longleftrightarrow> ty = 0 \<or> ty = 1 \<or> ty = 2 \<or> ty = 3"
  proof
    assume "ty \<le> 3"
    then have "unat ty \<le> 3" by (simp add: word_le_nat_alt)
    then have "unat ty = 0 \<or> unat ty = 1 \<or> unat ty = 2 \<or> unat ty = 3" by linarith
    then show "ty = 0 \<or> ty = 1 \<or> ty = 2 \<or> ty = 3" by (simp add: word_unat_eq_iff)
  qed auto
  consider "ty \<le> 3" | "ty = 8 \<or> ty = 9 \<or> ty = 10" | "ty = 6 \<or> ty = 11 \<or> ty = 12"
    | "ty = 4" | "ty = 5" | "ty = 7" | "ty \<notin> {0, 1, 2, 3, 4, 5, 6, 7, 8, 9, 10, 11, 12}" using small by blast
  then show ?thesis
  proof cases
    case 1
    then obtain x where "rd case_conv_table1 (unat data) = Some x" using table1 safe by auto
    then show ?thesis using 1 unfolding small
      by (elim disjE) (simp_all add: case_entry_def run_types)
  next
    case 2
    then obtain x where "ext data = Some x" using ext_in [of data] safe by auto
    then show ?thesis using 2 by (elim disjE) (simp_all add: case_entry_def run_types)
  next
    case 3
    then have "drop_bit 6 data < 58 \<and> data AND 0x3f < 58" using safe by auto
    then obtain x y where "ext (drop_bit 6 data) = Some x" "ext (data AND 0x3f) = Some y"
      using ext_in by blast
    then show ?thesis using 3 by (elim disjE) (simp_all add: case_entry_def run_types)
  next
    case 7
    have "\<not> ty \<le> 12"
    proof
      assume "ty \<le> 12"
      then have "unat ty \<le> 12" by (simp add: word_le_nat_alt)
      then have "unat ty \<in> {0, 1, 2, 3, 4, 5, 6, 7, 8, 9, 10, 11, 12}"
        unfolding insert_iff empty_iff by presburger
      then show False using 7 by (simp add: word_unat_eq_iff)
    qed
    moreover have "\<not> ty \<le> 3" using 7 small by blast
    ultimately have "drop_bit 8 data < 58" using safe 7 by (auto split: if_splits)
    then obtain x y z where "ext (drop_bit 8 data) = Some x" "ext (drop_bit 4 data AND 0xf) = Some y"
        "ext (data AND 0xf) = Some z"
      using ext_in low_nibble by blast
    then show ?thesis using 7 by (simp add: case_entry_def run_types)
  qed (simp_all add: case_entry_def run_types Let_def)
qed

lemma case_entry_safe:
  assumes "entry_safe v d"
  shows "\<exists>res. case_entry conv_type c (case_code v) (case_type v) (push_bit 8 (v AND 0xf) OR ucast d) = Some res \<and>
    1 \<le> length res \<and> length res \<le> 3"
  by (rule case_entry_ok) (use assms in \<open>unfold entry_safe_def Let_def\<close>)

lemma lre_case_conv_safe:
  "\<exists>res. lre_case_conv c conv_type = Some res \<and> 1 \<le> length res \<and> length res \<le> 3"
proof (cases "c < 128")
  case True
  then show ?thesis by (simp add: lre_case_conv_def)
next
  case False
  obtain r where r: "range_search case_conv_table1 case_code case_len c 0 (int (length case_conv_table1) - 1) = Some r"
      "case r of None \<Rightarrow> True | Some i \<Rightarrow> range_covers case_conv_table1 case_code case_len i c"
    using case_ranges.range_search_between [of 0 "int (length case_conv_table1) - 1" c]
    by (force simp: range_covers_def split: option.splits)
  show ?thesis
  proof (cases r)
    case None
    then show ?thesis using r(1) False by (simp add: lre_case_conv_def)
  next
    case (Some i)
    then have i: "i < 361" using r(2) by (simp add: range_covers_def length_case_tables)
    then have "entry_safe (case_conv_table1 ! i) (case_conv_table2 ! i)"
      using list_all2_nthD [OF case_tables_safe] by (simp add: length_case_tables)
    from case_entry_safe [OF this, of conv_type c] show ?thesis
      using r(1) False Some i by (simp add: lre_case_conv_def rd_in length_case_tables Let_def)
  qed
qed

text \<open>Which entry is used.\<close>

lemma lre_case_conv_entry:
  assumes "128 \<le> c"
  shows "lre_case_conv c conv_type =
    (if \<exists>i. range_covers case_conv_table1 case_code case_len i c
     then let i = (THE i. range_covers case_conv_table1 case_code case_len i c); v = case_conv_table1 ! i
          in case_entry conv_type c (case_code v) (case_type v)
               (push_bit 8 (v AND 0xf) OR ucast (case_conv_table2 ! i))
     else Some [c])"
proof (cases "\<exists>i. range_covers case_conv_table1 case_code case_len i c")
  case False
  then show ?thesis using assms case_ranges.range_search_finds [of c None]
    by (simp add: lre_case_conv_def leD)
next
  case True
  then obtain i where i: "range_covers case_conv_table1 case_code case_len i c" by blast
  then have "(THE i. range_covers case_conv_table1 case_code case_len i c) = i"
    using case_ranges.covers_unique by blast
  moreover have "i < 361" using i by (simp add: range_covers_def length_case_tables)
  ultimately show ?thesis using assms case_ranges.range_search_finds [of c "Some i"] i True
    by (simp add: lre_case_conv_def leD Let_def rd_in length_case_tables)
qed

end
