(* ===== verification/Unicode_Norm.thy ===== *)
theory Unicode_Norm
  imports Dyn_Buf
begin

text \<open>
  Unicode normalisation in QuickJS's \<^verbatim>\<open>libunicode.c\<close>. The three lookups in the generated tables are
  arguments: the combining class (\<^verbatim>\<open>unicode_get_cc\<close>), the decomposition of a character
  (\<^verbatim>\<open>unicode_decomp_char\<close>, the empty list when there is none) and the composition of a pair
  (\<^verbatim>\<open>unicode_compose_pair\<close>, 0 when there is none). An access outside a buffer is \<^const>\<open>None\<close>.
\<close>

section \<open>Canonical ordering\<close>

text \<open>The innermost loop of \<^verbatim>\<open>sort_cc\<close>: from \<open>k\<close> down to \<open>start\<close>, move the characters of a higher
  class up; the result has the place for the new one.\<close>

function shift_cc :: "(u32 \<Rightarrow> nat) \<Rightarrow> u32 list \<Rightarrow> int \<Rightarrow> int \<Rightarrow> nat \<Rightarrow> (u32 list \<times> int) option" where
  "shift_cc cc buf start k cc1 =
     (if k \<ge> start then do {
        x \<leftarrow> rd buf (nat k);
        if cc x \<le> cc1 then Some (buf, k)
        else do {
          buf1 \<leftarrow> wr buf (nat (k + 1)) x;
          shift_cc cc buf1 start (k - 1) cc1
        }
      } else Some (buf, k))"
  by pat_completeness auto
termination
  by (relation "measure (\<lambda>(cc, buf, start, k, cc1). nat (k - start + 1))") auto

function sort_run :: "(u32 \<Rightarrow> nat) \<Rightarrow> u32 list \<Rightarrow> nat \<Rightarrow> nat \<Rightarrow> nat \<Rightarrow> (u32 list \<times> nat) option" where
  "sort_run cc buf len start j =
     (if j < len then do {
        ch1 \<leftarrow> rd buf j;
        if cc ch1 = 0 then Some (buf, j)
        else do {
          (buf1, k) \<leftarrow> shift_cc cc buf (int start) (int j - 1) (cc ch1);
          buf2 \<leftarrow> wr buf1 (nat (k + 1)) ch1;
          sort_run cc buf2 len start (j + 1)
        }
      } else Some (buf, j))"
  by pat_completeness auto
termination
  by (relation "measure (\<lambda>(cc, buf, len, start, j). len - j)") auto

declare shift_cc.simps [simp del] sort_run.simps [simp del]

text \<open>After a run the index stands on its end \<open>j\<close>, and the loop increments it.\<close>

partial_function (option) sort_cc_from :: "(u32 \<Rightarrow> nat) \<Rightarrow> u32 list \<Rightarrow> nat \<Rightarrow> nat \<Rightarrow> u32 list option" where
  "sort_cc_from cc buf len i =
     (if i < len then do {
        x \<leftarrow> rd buf i;
        if cc x \<noteq> 0 then do {
          (buf1, j) \<leftarrow> sort_run cc buf len i (i + 1);
          sort_cc_from cc buf1 len (j + 1)
        }
        else sort_cc_from cc buf len (i + 1)
      } else Some buf)"

definition sort_cc :: "(u32 \<Rightarrow> nat) \<Rightarrow> u32 list \<Rightarrow> nat \<Rightarrow> u32 list option" where
  "sort_cc cc buf len = sort_cc_from cc buf len 0"

section \<open>Decomposition\<close>

definition HANGUL_BASE :: u32 where "HANGUL_BASE = 0xac00"

text \<open>The codes a Hangul syllable is written as.\<close>

definition hangul_decomp :: "u32 \<Rightarrow> u32 list" where
  "hangul_decomp c0 =
     (let c = c0 - 0xac00; v = c mod 28 in
      [0x1100 + c div 588, 0x1161 + (c mod 588) div 28] @ (if v \<noteq> 0 then [0x11a7 + v] else []))"

fun put_codes :: "'h dynbuf \<Rightarrow> u32 list \<Rightarrow> 'h dynbuf option" where
  "put_codes d [] = Some d"
| "put_codes d (c # cs) = do { (d1, r) \<leftarrow> dbuf_put_u32 d c; put_codes d1 cs }"

partial_function (option) to_nfd_rec :: "(u32 \<Rightarrow> u32 list) \<Rightarrow> 'h dynbuf \<Rightarrow> u32 list \<Rightarrow> 'h dynbuf option" where
  "to_nfd_rec decomp d src = (case src of
     [] \<Rightarrow> Some d
   | c # cs \<Rightarrow> do {
       d1 \<leftarrow> (if c \<ge> 0xac00 \<and> c < 0xd7a4 then put_codes d (hangul_decomp c)
              else if decomp c \<noteq> [] then to_nfd_rec decomp d (decomp c)
              else put_codes d [c]);
       to_nfd_rec decomp d1 cs
     })"

section \<open>Composition\<close>

definition compose_pair :: "(u32 \<Rightarrow> u32 \<Rightarrow> u32) \<Rightarrow> u32 \<Rightarrow> u32 \<Rightarrow> u32" where
  "compose_pair unicode_compose_pair c0 c1 =
     (if c0 \<ge> 0x1100 \<and> c0 < 0x1100 + 19 \<and> c1 \<ge> 0x1161 \<and> c1 < 0x1161 + 21 then
        0xac00 + (c0 - 0x1100) * 588 + (c1 - 0x1161) * 28
      else if c0 \<ge> 0xac00 \<and> c0 < 0xac00 + 11172 \<and> (c0 - 0xac00) mod 28 = 0 \<and>
              c1 \<ge> 0x11a7 \<and> c1 < 0x11a7 + 28 then c0 + c1 - 0x11a7
      else unicode_compose_pair c0 c1)"

text \<open>The search for the starter, from \<open>starter_pos\<close> down; \<^const>\<open>None\<close> inside when it is blocked
  (\<^verbatim>\<open>goto next\<close>).\<close>

function find_starter :: "(u32 \<Rightarrow> nat) \<Rightarrow> u32 list \<Rightarrow> int \<Rightarrow> nat \<Rightarrow> int option option" where
  "find_starter cc buf starter_pos last_cc =
     (if starter_pos \<ge> 0 then do {
        x \<leftarrow> rd buf (nat starter_pos);
        if cc x = 0 then Some (Some starter_pos)
        else if cc x \<ge> last_cc then Some None
        else find_starter cc buf (starter_pos - 1) 256
      } else Some (Some starter_pos))"
  by pat_completeness auto
termination
  by (relation "measure (\<lambda>(cc, buf, starter_pos, last_cc). nat (starter_pos + 1))") auto

declare find_starter.simps [simp del]

function compose_loop ::
    "(u32 \<Rightarrow> nat) \<Rightarrow> (u32 \<Rightarrow> u32 \<Rightarrow> u32) \<Rightarrow> u32 list \<Rightarrow> nat \<Rightarrow> nat \<Rightarrow> nat \<Rightarrow> (u32 list \<times> nat) option" where
  "compose_loop cc pair buf buf_len i out_len =
     (if i < buf_len then do {
        x \<leftarrow> rd buf i;
        st \<leftarrow> find_starter cc buf (int out_len - 1) (cc x);
        p \<leftarrow> (case st of
            None \<Rightarrow> Some None
          | Some pos \<Rightarrow> if pos \<ge> 0 then do {
                s \<leftarrow> rd buf (nat pos);
                let p = compose_pair pair s x;
                Some (if p \<noteq> 0 then Some (nat pos, p) else None)
              } else Some None);
        (case p of
           Some (pos, v) \<Rightarrow> do {
             buf1 \<leftarrow> wr buf pos v;
             compose_loop cc pair buf1 buf_len (i + 1) out_len
           }
         | None \<Rightarrow> do {
             buf1 \<leftarrow> wr buf out_len x;
             compose_loop cc pair buf1 buf_len (i + 1) (out_len + 1)
           })
      } else Some (buf, out_len))"
  by pat_completeness auto
termination
  by (relation "measure (\<lambda>(cc, pair, buf, buf_len, i, out_len). buf_len - i)") auto

declare compose_loop.simps [simp del]

text \<open>The words of a byte buffer.\<close>

fun codes_of :: "u8 list \<Rightarrow> u32 list" where
  "codes_of (a # b # c # d # r) = word_of_nat (le_val [a, b, c, d]) # codes_of r"
| "codes_of _ = []"

definition UNICODE_NFC :: nat where "UNICODE_NFC = 0"
definition UNICODE_NFD :: nat where "UNICODE_NFD = 1"
definition UNICODE_NFKC :: nat where "UNICODE_NFKC = 2"
definition UNICODE_NFKD :: nat where "UNICODE_NFKD = 3"

text \<open>\<^verbatim>\<open>unicode_normalize\<close>: the codes the caller finds in the block handed to it, with their number as
  the value returned; \<^const>\<open>None\<close> inside for \<open>-1\<close>. \<open>decomp compat\<close> is the decomposition with or
  without compatibility mappings.\<close>

definition unicode_normalize ::
    "(u32 \<Rightarrow> nat) \<Rightarrow> (bool \<Rightarrow> u32 \<Rightarrow> u32 list) \<Rightarrow> (u32 \<Rightarrow> u32 \<Rightarrow> u32) \<Rightarrow> 'h realloc_fn \<Rightarrow> 'h \<Rightarrow>
     u32 list \<Rightarrow> nat \<Rightarrow> u32 list option option" where
  "unicode_normalize cc decomp pair f opq src n_type = do {
     let is_compat = (n_type div 2 \<noteq> 0);
     (d0, r) \<leftarrow> dbuf_realloc (dbuf_init2 f opq None) (word_of_nat (4 * length src));
     if r \<noteq> 0 then Some None
     else if n_type = UNICODE_NFC \<and> list_all (\<lambda>c. c < 0x100) src then Some (Some src)
     else do {
       d1 \<leftarrow> to_nfd_rec (decomp is_compat) d0 src;
       if dbuf_error d1 then Some None
       else do {
         let buf = codes_of (dbuf_bytes d1);
         let buf_len = unat (db_size d1) div 4;
         buf1 \<leftarrow> sort_cc cc buf buf_len;
         if buf_len \<le> 1 \<or> odd n_type then Some (Some buf1)
         else do {
           (buf2, out_len) \<leftarrow> compose_loop cc pair buf1 buf_len 1 1;
           Some (Some (take out_len buf2))
         }
       }
     }
   }"

section \<open>Ordering is a stable sort of every run\<close>

text \<open>The reference: each maximal run of characters with a non-zero class is sorted by class, equal
  classes keeping their order; starters stay where they are.\<close>

function canonical_order :: "(u32 \<Rightarrow> nat) \<Rightarrow> u32 list \<Rightarrow> u32 list" where
  "canonical_order cc [] = []"
| "canonical_order cc (x # xs) =
     (if cc x = 0 then x # canonical_order cc xs
      else sort_key cc (takeWhile (\<lambda>y. cc y \<noteq> 0) (x # xs)) @
           canonical_order cc (dropWhile (\<lambda>y. cc y \<noteq> 0) (x # xs)))"
  by pat_completeness auto
termination
  by (relation "measure (\<lambda>(cc, xs). length xs)") (auto simp: le_imp_less_Suc length_dropWhile_le)

lemma shift_cc_moves:
  "start = int (length pre) \<Longrightarrow> k = int (length pre + length mid) - 1 \<Longrightarrow> sorted (map cc mid) \<Longrightarrow>
    \<exists>lo hi gap. mid = lo @ hi \<and> (\<forall>y\<in>set lo. cc y \<le> c) \<and> (\<forall>y\<in>set hi. c < cc y) \<and>
      shift_cc cc (pre @ mid @ x # post) start k c = Some (pre @ lo @ gap # hi @ post, int (length pre + length lo) - 1)"
proof (induction mid arbitrary: k x post rule: rev_induct)
  case Nil
  then show ?case by (simp add: shift_cc.simps)
next
  case (snoc y mid)
  have k: "k = int (length pre + length mid)" using snoc.prems by simp
  have y: "rd (pre @ (mid @ [y]) @ x # post) (nat k) = Some y" using k by (simp add: rd_def nth_append nat_add_distrib)
  show ?case
  proof (cases "cc y \<le> c")
    case True
    then have "shift_cc cc (pre @ (mid @ [y]) @ x # post) start k c = Some (pre @ (mid @ [y]) @ x # post, k)"
      using snoc.prems(1) k y by (subst shift_cc.simps) simp
    moreover have "\<forall>z\<in>set (mid @ [y]). cc z \<le> c"
      using True snoc.prems(3) by (auto simp: sorted_append intro: order.trans)
    ultimately show ?thesis using k by (intro exI [of _ "mid @ [y]"] exI [of _ "[]"] exI [of _ x]) simp
  next
    case False
    have w: "wr (pre @ (mid @ [y]) @ x # post) (nat (k + 1)) y = Some (pre @ mid @ y # y # post)"
      using k by (simp add: wr_def nat_add_distrib list_update_append)
    obtain lo hi gap where ih: "mid = lo @ hi" "\<forall>z\<in>set lo. cc z \<le> c" "\<forall>z\<in>set hi. c < cc z"
        "shift_cc cc (pre @ mid @ y # y # post) start (k - 1) c =
          Some (pre @ lo @ gap # hi @ y # post, int (length pre + length lo) - 1)"
      using snoc.IH [of "k - 1" y "y # post"] snoc.prems k by (auto simp: sorted_append)
    have "shift_cc cc (pre @ (mid @ [y]) @ x # post) start k c = shift_cc cc (pre @ mid @ y # y # post) start (k - 1) c"
      using snoc.prems(1) k y w False by (subst shift_cc.simps) simp
    then show ?thesis using ih False by (intro exI [of _ lo] exI [of _ "hi @ [y]"] exI [of _ gap]) auto
  qed
qed

lemma sort_key_snoc:
  assumes "mid = lo @ hi" and "mid = sort_key cc run" and "\<forall>y\<in>set lo. cc y \<le> cc x" and "\<forall>y\<in>set hi. cc x < cc y"
  shows "sort_key cc (run @ [x]) = lo @ x # hi"
proof (rule properties_for_sort_key)
  have "mset run = mset (lo @ hi)" using arg_cong [OF assms(2), of mset] assms(1) by simp
  then show "mset (lo @ x # hi) = mset (run @ [x])" by simp
  have s: "sorted (map cc (lo @ hi))" unfolding assms(1) [symmetric] assms(2) by simp
  then show "sorted (map cc (lo @ x # hi))" using assms(3,4) by (auto simp: sorted_append)
  fix k assume "k \<in> set (lo @ x # hi)"
  have "filter (\<lambda>y. cc k = cc y) (lo @ hi) = filter (\<lambda>y. cc k = cc y) run"
    using sort_key_stable [of cc "cc k" run] assms(1,2) by (simp add: eq_commute)
  moreover have none: "cc k = cc x \<Longrightarrow> filter (\<lambda>y. cc x = cc y) hi = []"
    using assms(4) by (auto simp: filter_empty_conv)
  moreover have "filter (\<lambda>y. cc k = cc y) (lo @ x # hi) = filter (\<lambda>y. cc k = cc y) (lo @ hi) @ (if cc k = cc x then [x] else [])"
    using none by simp
  ultimately show "filter (\<lambda>y. cc k = cc y) (lo @ x # hi) = filter (\<lambda>y. cc k = cc y) (run @ [x])" by simp
qed

lemma sort_run_sorts:
  "\<forall>y\<in>set todo. cc y \<noteq> 0 \<Longrightarrow> (post = [] \<or> cc (hd post) = 0) \<Longrightarrow>
    len = length pre + length run + length todo + length post \<Longrightarrow>
    sort_run cc (pre @ sort_key cc run @ todo @ post) len (length pre) (length pre + length run) =
      Some (pre @ sort_key cc (run @ todo) @ post, length pre + length run + length todo)"
proof (induction todo arbitrary: run)
  case Nil
  show ?case
  proof (cases post)
    case Nil
    then show ?thesis using Nil.prems by (simp add: sort_run.simps)
  next
    case (Cons p ps)
    then have "rd (pre @ sort_key cc run @ [] @ post) (length pre + length run) = Some p"
      by (simp add: rd_def nth_append)
    then show ?thesis using Nil.prems Cons by (simp add: sort_run.simps)
  qed
next
  case (Cons x todo)
  let ?buf = "pre @ sort_key cc run @ (x # todo) @ post"
  have x: "rd ?buf (length pre + length run) = Some x" by (simp add: rd_def nth_append)
  obtain lo hi gap where m: "sort_key cc run = lo @ hi" "\<forall>y\<in>set lo. cc y \<le> cc x" "\<forall>y\<in>set hi. cc x < cc y"
      "shift_cc cc (pre @ sort_key cc run @ x # (todo @ post)) (int (length pre)) (int (length pre + length run) - 1) (cc x) =
        Some (pre @ lo @ gap # hi @ todo @ post, int (length pre + length lo) - 1)"
    using shift_cc_moves [of "int (length pre)" pre "int (length pre + length run) - 1" "sort_key cc run" cc "cc x" x "todo @ post"]
    by auto
  have w: "wr (pre @ lo @ gap # hi @ todo @ post) (nat (int (length pre + length lo) - 1 + 1)) x =
      Some (pre @ lo @ x # hi @ todo @ post)"
    by (simp add: wr_def nat_add_distrib list_update_append)
  have s: "sort_key cc (run @ [x]) = lo @ x # hi" by (rule sort_key_snoc [OF m(1) refl m(2,3), symmetric, THEN sym])
  have "sort_run cc ?buf len (length pre) (length pre + length run) =
      sort_run cc (pre @ sort_key cc (run @ [x]) @ todo @ post) len (length pre) (length pre + length (run @ [x]))"
    using x Cons.prems m(4) w s by (subst sort_run.simps) simp
  also have "\<dots> = Some (pre @ sort_key cc ((run @ [x]) @ todo) @ post, length pre + length (run @ [x]) + length todo)"
    by (rule Cons.IH) (use Cons.prems in simp_all)
  finally show ?case by simp
qed

lemma canonical_order_run:
  "cc x \<noteq> 0 \<Longrightarrow> xs = takeWhile (\<lambda>y. cc y \<noteq> 0) xs @ dropWhile (\<lambda>y. cc y \<noteq> 0) xs"
  by simp

lemma sort_cc_from_orders:
  "len = length pre + length xs \<Longrightarrow>
    sort_cc_from cc (pre @ xs) len (length pre) = Some (pre @ canonical_order cc xs)"
proof (induction cc xs arbitrary: pre rule: canonical_order.induct)
  case (1 cc)
  then show ?case by (simp add: sort_cc_from.simps)
next
  case (2 cc x xs)
  show ?case
  proof (cases "cc x = 0")
    case True
    have "sort_cc_from cc (pre @ x # xs) len (length pre) = sort_cc_from cc ((pre @ [x]) @ xs) len (length (pre @ [x]))"
      using 2(3) True by (subst sort_cc_from.simps) (simp add: rd_def)
    also have "\<dots> = Some ((pre @ [x]) @ canonical_order cc xs)"
      by (rule 2(1) [OF True]) (use 2(3) in simp)
    finally show ?thesis using True by simp
  next
    case False
    define run where "run = takeWhile (\<lambda>y. cc y \<noteq> 0) xs"
    define post where "post = dropWhile (\<lambda>y. cc y \<noteq> 0) xs"
    have xs: "xs = run @ post" by (simp add: run_def post_def)
    have nz: "\<forall>y\<in>set run. cc y \<noteq> 0" unfolding run_def by (auto dest: set_takeWhileD)
    have end': "post = [] \<or> cc (hd post) = 0"
      unfolding post_def using hd_dropWhile [of "\<lambda>y. cc y \<noteq> 0" xs] by blast
    define sorted_run where "sorted_run = sort_key cc (x # run)"
    have "sort_run cc (pre @ sort_key cc [x] @ run @ post) len (length pre) (length pre + length [x]) =
        Some (pre @ sort_key cc ([x] @ run) @ post, length pre + length [x] + length run)"
      by (rule sort_run_sorts [OF nz end']) (use 2(3) xs in simp)
    then have step: "sort_cc_from cc (pre @ x # xs) len (length pre) =
        sort_cc_from cc (pre @ sorted_run @ post) len (length pre + length (x # run) + 1)"
      using 2(3) False xs by (subst sort_cc_from.simps) (simp add: rd_def sorted_run_def)
    have canon: "canonical_order cc (x # xs) = sorted_run @ canonical_order cc post"
      using False by (simp add: sorted_run_def run_def post_def)
    show ?thesis
    proof (cases post)
      case Nil
      then show ?thesis using step canon 2(3) xs by (simp add: sort_cc_from.simps)
    next
      case (Cons p ps)
      have p: "cc p = 0" using end' Cons by simp
      let ?pre = "pre @ sorted_run @ [p]"
      have l: "length sorted_run = length (x # run)" by (simp add: sorted_run_def)
      have d: "dropWhile (\<lambda>y. cc y \<noteq> 0) (x # xs) = post" using False by (simp add: post_def)
      have len: "len = length (pre @ sorted_run) + length post" using 2(3) l by (simp add: xs)
      have ih: "sort_cc_from cc ((pre @ sorted_run) @ post) len (length (pre @ sorted_run)) =
          Some ((pre @ sorted_run) @ canonical_order cc post)"
        by (rule 2(2) [OF False, of "pre @ sorted_run", unfolded d, OF len])
      have "sort_cc_from cc ((pre @ sorted_run) @ post) len (length (pre @ sorted_run)) =
          sort_cc_from cc ((pre @ sorted_run) @ post) len (length (pre @ sorted_run) + 1)"
        using 2(3) xs l Cons p by (subst sort_cc_from.simps) (simp add: rd_def nth_append)
      moreover have "length pre + length (x # run) + 1 = length (pre @ sorted_run) + 1" using l by simp
      ultimately show ?thesis using step canon ih by (simp only: append_assoc)
    qed
  qed
qed

lemma sort_cc_canonical: "sort_cc cc buf (length buf) = Some (canonical_order cc buf)"
  using sort_cc_from_orders [of "length buf" "[]" buf cc] by (simp add: sort_cc_def)

lemma sort_cc_canonical_prefix:
  "n \<le> length buf \<Longrightarrow> sort_cc cc (take n buf) n = Some (canonical_order cc (take n buf))"
  using sort_cc_canonical [of cc "take n buf"] by (simp add: min_absorb2)

lemma canonical_order_perm: "mset (canonical_order cc xs) = mset xs"
proof (induction cc xs rule: canonical_order.induct)
  case (2 cc x xs)
  show ?case
  proof (cases "cc x = 0")
    case False
    have "mset (canonical_order cc (x # xs)) = mset (takeWhile (\<lambda>y. cc y \<noteq> 0) (x # xs)) +
        mset (dropWhile (\<lambda>y. cc y \<noteq> 0) (x # xs))"
      using 2(2) [OF False] False by (simp only: canonical_order.simps if_False mset_append mset_sort)
    then show ?thesis by (metis mset_append takeWhile_dropWhile_id)
  qed (use 2 in simp)
qed simp

section \<open>Hangul syllables\<close>

text \<open>Composing what a syllable decomposes to, from left to right, gives it back.\<close>

definition recompose :: "(u32 \<Rightarrow> u32 \<Rightarrow> u32) \<Rightarrow> u32 list \<Rightarrow> u32" where
  "recompose pair cs = fold (\<lambda>c acc. compose_pair pair acc c) (tl cs) (hd cs)"

lemma unat_small_arith:
  fixes a b :: u32
  shows "unat a + unat b < 2 ^ 32 \<Longrightarrow> unat (a + b) = unat a + unat b"
    and "unat a * unat b < 2 ^ 32 \<Longrightarrow> unat (a * b) = unat a * unat b"
    and "b \<le> a \<Longrightarrow> unat (a - b) = unat a - unat b"
  by (simp_all add: unat_word_ariths unat_sub)

lemma hangul_recompose:
  assumes "0xac00 \<le> c" and "c < 0xd7a4"
  shows "recompose pair (hangul_decomp c) = c"
proof -
  define s where "s = unat c - 0xac00"
  have c: "unat c = 0xac00 + s" "s < 11172"
    using assms by (auto simp: s_def word_le_nat_alt word_less_nat_alt)
  define l where "l = s div 588"
  define v where "v = s mod 588 div 28"
  define t where "t = s mod 28"
  have b: "l < 19" "v < 21" "t < 28" using c(2) by (auto simp: l_def v_def t_def)
  have s: "s = l * 588 + v * 28 + t"
  proof -
    have "s mod 588 mod 28 = t" unfolding t_def by (rule mod_mod_cancel) simp
    then have "s mod 588 = v * 28 + t" unfolding v_def by (metis div_mult_mod_eq)
    then show ?thesis unfolding l_def by (metis add.assoc div_mult_mod_eq)
  qed
  have sub: "unat (c - 0xac00) = s" using assms(1) c(1) by (simp add: unat_sub)
  define L where "L = 0x1100 + (c - 0xac00) div 588"
  define V where "V = 0x1161 + ((c - 0xac00) mod 588) div 28"
  define T where "T = 0x11a7 + (c - 0xac00) mod 28"
  have L: "unat L = 0x1100 + l" using b sub
    by (simp add: L_def unat_word_ariths unat_div l_def)
  have V: "unat V = 0x1161 + v" using b sub
    by (simp add: V_def unat_word_ariths unat_div unat_mod v_def)
  have T: "unat T = 0x11a7 + t" using b sub
    by (simp add: T_def unat_word_ariths unat_mod t_def)
  define LV where "LV = 0xac00 + (L - 0x1100) * 588 + (V - 0x1161) * 28"
  have LV: "unat LV = 0xac00 + l * 588 + v * 28"
    using b L V by (simp add: LV_def unat_word_ariths unat_sub word_le_nat_alt)
  have pLV: "compose_pair pair L V = LV"
    using b L V by (simp add: compose_pair_def LV_def word_le_nat_alt word_less_nat_alt)
  have dec: "hangul_decomp c = [L, V] @ (if t \<noteq> 0 then [T] else [])"
  proof -
    have "(c - 0xac00) mod 28 \<noteq> 0 \<longleftrightarrow> t \<noteq> 0"
      using sub by (simp add: word_unat_eq_iff unat_mod t_def)
    then show ?thesis by (simp add: hangul_decomp_def Let_def L_def V_def T_def)
  qed
  show ?thesis
  proof (cases "t = 0")
    case True
    then show ?thesis using dec pLV LV c(1) s by (simp add: recompose_def word_unat_eq_iff)
  next
    case False
    have "unat (LV - 0xac00) = l * 588 + v * 28" using LV by (simp add: unat_sub word_le_nat_alt)
    then have "unat ((LV - 0xac00) mod 28) = 0" by (simp add: unat_mod)
    then have "(LV - 0xac00) mod 28 = 0" by (simp add: word_unat_eq_iff)
    moreover have "\<not> (LV \<ge> 0x1100 \<and> LV < 0x1100 + 19)" using LV by (simp add: word_less_nat_alt word_le_nat_alt)
    ultimately have "compose_pair pair LV T = LV + T - 0x11a7"
      using b LV T by (simp add: compose_pair_def word_le_nat_alt word_less_nat_alt)
    moreover have "unat (LV + T - 0x11a7) = 0xac00 + s"
      using b LV T s by (simp add: unat_sub word_le_nat_alt unat_word_ariths)
    ultimately have "compose_pair pair LV T = c" using c(1) by (simp add: word_unat_eq_iff)
    then show ?thesis using dec pLV False by (simp add: recompose_def)
  qed
qed

section \<open>What decomposition writes\<close>

text \<open>The codes alone, without the buffer.\<close>

partial_function (option) nfd_codes :: "(u32 \<Rightarrow> u32 list) \<Rightarrow> u32 list \<Rightarrow> u32 list option" where
  "nfd_codes decomp src = (case src of
     [] \<Rightarrow> Some []
   | c # cs \<Rightarrow> do {
       xs \<leftarrow> (if c \<ge> 0xac00 \<and> c < 0xd7a4 then Some (hangul_decomp c)
              else if decomp c \<noteq> [] then nfd_codes decomp (decomp c)
              else Some [c]);
       ys \<leftarrow> nfd_codes decomp cs;
       Some (xs @ ys)
     })"

definition is_hangul :: "u32 \<Rightarrow> bool" where
  "is_hangul c \<longleftrightarrow> 0xac00 \<le> c \<and> c < 0xd7a4"

definition fully_decomposed :: "(u32 \<Rightarrow> u32 list) \<Rightarrow> u32 \<Rightarrow> bool" where
  "fully_decomposed decomp x \<longleftrightarrow> \<not> is_hangul x \<and> decomp x = [] \<or> (\<exists>c. is_hangul c \<and> x \<in> set (hangul_decomp c))"

text \<open>When no character decomposes to itself, directly or through others, the recursion ends, and
  nothing it writes can be decomposed further.\<close>

lemma nfd_codes_total:
  assumes "\<And>c x. x \<in> set (decomp c) \<Longrightarrow> (rank x :: nat) < rank c"
  shows "\<forall>c\<in>set src. rank c < n \<Longrightarrow> \<exists>cs. nfd_codes decomp src = Some cs \<and> list_all (fully_decomposed decomp) cs"
proof (induction n arbitrary: src)
  case 0
  then have "src = []" by (cases src) auto
  then show ?case by (simp add: nfd_codes.simps)
next
  case (Suc n)
  show ?case using Suc.prems
  proof (induction src)
    case Nil
    then show ?case by (simp add: nfd_codes.simps)
  next
    case (Cons c src)
    obtain ys where ys: "nfd_codes decomp src = Some ys" "list_all (fully_decomposed decomp) ys"
      using Cons by auto
    have "\<forall>x\<in>set (decomp c). rank x < n" using assms [of _ c] Cons.prems by fastforce
    then obtain xs where xs: "nfd_codes decomp (decomp c) = Some xs" "list_all (fully_decomposed decomp) xs"
      using Suc.IH by blast
    consider "is_hangul c" | "\<not> is_hangul c" "decomp c \<noteq> []" | "\<not> is_hangul c" "decomp c = []" by blast
    then show ?case
    proof cases
      case 1
      then have "list_all (fully_decomposed decomp) (hangul_decomp c)"
        unfolding list_all_iff fully_decomposed_def by blast
      then show ?thesis using 1 ys by (subst nfd_codes.simps) (simp add: is_hangul_def)
    next
      case 2
      then have "\<not> (c \<ge> 0xac00 \<and> c < 0xd7a4)" by (simp add: is_hangul_def)
      then show ?thesis using 2 ys xs by (subst nfd_codes.simps) auto
    next
      case 3
      then have "\<not> (c \<ge> 0xac00 \<and> c < 0xd7a4)" "fully_decomposed decomp c"
        by (simp_all add: is_hangul_def fully_decomposed_def)
      then show ?thesis using 3 ys by (subst nfd_codes.simps) auto
    qed
  qed
qed

lemma put_codes_append: "put_codes d (xs @ ys) = do { d1 \<leftarrow> put_codes d xs; put_codes d1 ys }"
  by (induction xs arbitrary: d) (simp_all add: Option.bind_assoc case_prod_unfold)

lemma to_nfd_rec_codes:
  fixes d :: "'h dynbuf"
  assumes "nfd_codes decomp src = Some cs"
  shows "to_nfd_rec decomp d src = put_codes d cs"
  using assms
proof (induction decomp src cs arbitrary: d rule: nfd_codes.raw_induct [rotated, consumes 1, case_names step])
  case (step f decomp src cs)
  show ?case
  proof (cases src)
    case Nil
    then show ?thesis using step(2) by (simp add: to_nfd_rec.simps)
  next
    case (Cons c rest)
    obtain xs ys where x: "(if c \<ge> 0xac00 \<and> c < 0xd7a4 then Some (hangul_decomp c)
          else if decomp c \<noteq> [] then f decomp (decomp c) else Some [c]) = Some xs"
        "f decomp rest = Some ys" "cs = xs @ ys"
      using step(2) Cons by (auto split: Option.bind_splits)
    have first: "(if c \<ge> 0xac00 \<and> c < 0xd7a4 then put_codes d (hangul_decomp c)
        else if decomp c \<noteq> [] then to_nfd_rec decomp d (decomp c) else put_codes d [c]) = put_codes d xs" for d :: "'h dynbuf"
    proof (cases "decomp c = [] \<or> c \<ge> 0xac00 \<and> c < 0xd7a4")
      case True
      then show ?thesis using x(1) by (auto split: if_splits)
    next
      case False
      then have "f decomp (decomp c) = Some xs" using x(1) by auto
      from step(1) [OF this, of d] show ?thesis using False by auto
    qed
    have rest: "to_nfd_rec decomp d rest = put_codes d ys" for d :: "'h dynbuf" using step(1) x(2) by blast
    show ?thesis
      unfolding Cons by (subst to_nfd_rec.simps) (simp only: list.case first rest x(3) put_codes_append)
  qed
qed

text \<open>Through the buffer the codes come back, unless an allocation failed.\<close>

lemma put_codes_emit: "put_codes d cs = emit_all (dbuf_emit stack) d (map Put_u32 cs)"
  by (induction cs arbitrary: d) simp_all

lemma codes_of_append4: "length b = 4 \<Longrightarrow> codes_of (b @ r) = word_of_nat (le_val b) # codes_of r"
  by (auto simp: numeral_eq_Suc length_Suc_conv simp del: le_val.simps)

lemma codes_of_bytes: "codes_of (concat (map (\<lambda>c. le_bytes 4 (unat c)) cs)) = cs"
proof (induction cs)
  case (Cons c cs)
  have "unat c < 256 ^ 4" using unsigned_less [of c, where ?'a = nat] by simp
  then have v: "le_val (le_bytes 4 (unat c)) = unat c" by (simp only: le_val_le_bytes mod_less)
  have "codes_of (le_bytes 4 (unat c) @ concat (map (\<lambda>c. le_bytes 4 (unat c)) cs)) =
      word_of_nat (le_val (le_bytes 4 (unat c))) # cs"
    by (subst codes_of_append4) (simp_all only: Cons length_le_bytes)
  then show ?case by (simp only: v concat.simps list.map) simp
qed simp

lemma concat_le_bytes_length: "length (concat (map (\<lambda>c. le_bytes 4 (unat c)) cs)) = 4 * length cs"
  by (induction cs) simp_all

lemma put_codes_result:
  assumes "dbuf_ok d" and "dbuf_bytes d = []" and "4 * length cs + 1 < 2 ^ 64"
  shows "\<exists>d1. put_codes d cs = Some d1 \<and>
    (\<not> dbuf_error d1 \<longrightarrow> codes_of (dbuf_bytes d1) = cs \<and> unat (db_size d1) div 4 = length cs)"
proof -
  have m: "concat (map item_bytes (map Put_u32 cs)) = concat (map (\<lambda>c. le_bytes 4 (unat c)) cs)"
    by (simp add: comp_def)
  have "list_all item_legal (map Put_u32 cs)" by (simp add: list_all_iff)
  moreover have "length (dbuf_bytes d) + length (concat (map item_bytes (map Put_u32 cs))) + 1 < 2 ^ 64"
    using assms(2,3) by (simp only: m concat_le_bytes_length) simp
  ultimately obtain d1 where d1: "put_codes d cs = Some d1" "dbuf_ok d1"
      "\<not> db_error d1 \<longrightarrow> dbuf_bytes d1 = concat (map (\<lambda>c. le_bytes 4 (unat c)) cs)"
    using dbuf_emit_all_refines [of "replicate PRINT_BUF 0" d "map Put_u32 cs"] assms(1,2)
    unfolding m put_codes_emit [of d cs "replicate PRINT_BUF 0"] by auto
  moreover have "unat (db_size d1) = length (dbuf_bytes d1)" using dbuf_ok_length [OF d1(2)] by simp
  ultimately show ?thesis by (auto simp: dbuf_error_def codes_of_bytes concat_le_bytes_length)
qed

section \<open>Composition stays in the buffer\<close>

lemma find_starter_bound:
  "p < int (length buf) \<Longrightarrow> \<exists>r. find_starter cc buf p lc = Some r \<and> (case r of None \<Rightarrow> True | Some q \<Rightarrow> q \<le> p)"
proof (induction cc buf p lc rule: find_starter.induct)
  case (1 cc buf p lc)
  show ?case
  proof (cases "p \<ge> 0")
    case False
    then show ?thesis by (simp add: find_starter.simps)
  next
    case True
    then have r: "rd buf (nat p) = Some (buf ! nat p)" using 1(2) by (simp add: rd_in nat_less_iff)
    show ?thesis
    proof (cases "cc (buf ! nat p) = 0 \<or> cc (buf ! nat p) \<ge> lc")
      case True
      then show ?thesis using r \<open>p \<ge> 0\<close> by (subst find_starter.simps) auto
    next
      case False
      then obtain q where "find_starter cc buf (p - 1) 256 = Some q" "case q of None \<Rightarrow> True | Some q \<Rightarrow> q \<le> p - 1"
        using 1(1) [OF True r] 1(2) by auto
      then show ?thesis using False True r by (subst find_starter.simps) (auto split: option.splits)
    qed
  qed
qed

lemma compose_loop_safe:
  "1 \<le> out_len \<Longrightarrow> out_len \<le> i \<Longrightarrow> i \<le> buf_len \<Longrightarrow> buf_len = length buf \<Longrightarrow>
    \<exists>buf1 n. compose_loop cc pair buf buf_len i out_len = Some (buf1, n) \<and> n \<le> buf_len \<and> length buf1 = buf_len"
proof (induction "buf_len - i" arbitrary: buf i out_len)
  case 0
  then show ?case by (simp add: compose_loop.simps)
next
  case (Suc m)
  have i: "i < buf_len" using Suc.hyps(2) by simp
  have m: "m = buf_len - (i + 1)" using Suc.hyps(2) by simp
  have x: "rd buf i = Some (buf ! i)" using Suc.prems(4) i by (simp add: rd_in)
  obtain st where st: "find_starter cc buf (int out_len - 1) (cc (buf ! i)) = Some st"
      "case st of None \<Rightarrow> True | Some q \<Rightarrow> q \<le> int out_len - 1"
    using find_starter_bound [of "int out_len - 1" buf cc "cc (buf ! i)"] Suc.prems i by auto
  have keep: ?case if "(case st of None \<Rightarrow> Some None
          | Some pos \<Rightarrow> if pos \<ge> 0 then do { s \<leftarrow> rd buf (nat pos); let p = compose_pair pair s (buf ! i);
              Some (if p \<noteq> 0 then Some (nat pos, p) else None) } else Some None) = Some None"
  proof -
    have w: "wr buf out_len (buf ! i) = Some (buf[out_len := buf ! i])"
      using Suc.prems(2,4) i by (simp add: wr_in)
    obtain b n where "compose_loop cc pair (buf[out_len := buf ! i]) buf_len (i + 1) (out_len + 1) = Some (b, n)"
        "n \<le> buf_len" "length b = buf_len"
      using Suc.hyps(1) [of "i + 1" "out_len + 1" "buf[out_len := buf ! i]"] m Suc.prems i by auto
    then show ?thesis using i x st(1) that w by (subst compose_loop.simps) simp
  qed
  show ?case
  proof (cases st)
    case None
    then show ?thesis using keep by simp
  next
    case (Some pos)
    show ?thesis
    proof (cases "pos \<ge> 0 \<and> compose_pair pair (buf ! nat pos) (buf ! i) \<noteq> 0")
      case True
      have pos: "nat pos < length buf" using st(2) Some True Suc.prems i by auto
      define b1 where "b1 = buf[nat pos := compose_pair pair (buf ! nat pos) (buf ! i)]"
      obtain b n where "compose_loop cc pair b1 buf_len (i + 1) out_len = Some (b, n)"
          "n \<le> buf_len" "length b = buf_len"
        using Suc.hyps(1) [of "i + 1" out_len b1] m Suc.prems i by (auto simp: b1_def)
      then show ?thesis using i x st(1) Some True pos
        by (subst compose_loop.simps) (simp add: rd_in wr_in b1_def)
    next
      case False
      have "pos \<ge> 0 \<Longrightarrow> nat pos < length buf" using st(2) Some Suc.prems i by auto
      then show ?thesis using keep Some False by (auto simp: rd_in Let_def)
    qed
  qed
qed

section \<open>Normalisation as a whole\<close>

lemma dbuf_init2_realloc:
  assumes "lawful_realloc f"
  obtains d0 where "dbuf_realloc (dbuf_init2 f opq None) n = Some (d0, 0)" "dbuf_ok d0" "dbuf_bytes d0 = []"
  | d0 where "dbuf_realloc (dbuf_init2 f opq None) n = Some (d0, -1)"
proof -
  have i: "dbuf_ok (dbuf_init2 f opq None)" "dbuf_bytes (dbuf_init2 f opq None) = []"
    using dbuf_init_ok [OF assms, of None opq] by auto
  show thesis
    by (rule dbuf_realloc_cases [OF i(1), of n]) (use i(2) that in auto)
qed

lemma unicode_normalize_cases:
  assumes lawful: "lawful_realloc f" and codes: "nfd_codes (decomp (n_type div 2 \<noteq> 0)) src = Some cs"
    and fits: "4 * length cs + 1 < 2 ^ 64"
  shows "unicode_normalize cc decomp pair f opq src n_type = Some None \<or>
    unicode_normalize cc decomp pair f opq src n_type = Some (Some
      (if n_type = UNICODE_NFC \<and> list_all (\<lambda>c. c < 0x100) src then src
       else if length cs \<le> 1 \<or> odd n_type then canonical_order cc cs
       else (case the (compose_loop cc pair (canonical_order cc cs) (length cs) 1 1) of (buf, n) \<Rightarrow> take n buf)))"
  using lawful
proof (cases rule: dbuf_init2_realloc [where opq = opq and n = "word_of_nat (4 * length src)"])
  case (1 d0)
  obtain d1 where d1: "put_codes d0 cs = Some d1"
      "\<not> dbuf_error d1 \<longrightarrow> codes_of (dbuf_bytes d1) = cs \<and> unat (db_size d1) div 4 = length cs"
    using put_codes_result [OF 1(2,3) fits] by blast
  have nfd: "to_nfd_rec (decomp (n_type div 2 \<noteq> 0)) d0 src = Some d1"
    by (rule trans [OF to_nfd_rec_codes [OF codes] d1(1)])
  have len: "length (canonical_order cc cs) = length cs"
    using arg_cong [OF canonical_order_perm [of cc cs], of size] by simp
  obtain b n where loop: "length cs > 1 \<Longrightarrow>
      compose_loop cc pair (canonical_order cc cs) (length cs) 1 1 = Some (b, n)"
    using compose_loop_safe [of 1 1 "length cs" "canonical_order cc cs" cc pair] len by fastforce
  show ?thesis
  proof (cases "dbuf_error d1")
    case True
    then show ?thesis using 1(1) nfd by (simp add: unicode_normalize_def)
  next
    case False
    then have "sort_cc cc (codes_of (dbuf_bytes d1)) (unat (db_size d1) div 4) = Some (canonical_order cc cs)"
      using d1(2) sort_cc_canonical [of cc cs] by simp
    then show ?thesis using 1(1) nfd False d1(2) loop by (simp add: unicode_normalize_def Let_def)
  qed
next
  case (2 d0)
  then show ?thesis by (simp add: unicode_normalize_def)
qed

end
