(* ===== verification/Index_Table.thy ===== *)
theory Index_Table
  imports Unicode_Tables Case_Conv
begin

text \<open>
  Sets of characters as compressed tables, in QuickJS's \<^verbatim>\<open>libunicode.c\<close>: a table is a sequence of
  run lengths, alternately outside and inside the set; an index gives, for every block of 32
  bytes, a code and a position from which decoding may start. A read outside a table is
  \<^const>\<open>None\<close>.
\<close>

section \<open>Lookup\<close>

definition get_le24 :: "u8 list \<Rightarrow> nat \<Rightarrow> u32 option" where
  "get_le24 p i = do {
     a \<leftarrow> rd p i;
     b \<leftarrow> rd p (i + 1);
     c \<leftarrow> rd p (i + 2);
     Some (ucast a OR push_bit 8 (ucast b) OR push_bit 16 (ucast c))
   }"

definition UNICODE_INDEX_BLOCK_LEN :: nat where "UNICODE_INDEX_BLOCK_LEN = 32"

definition index_code :: "u32 \<Rightarrow> u32" where
  "index_code v = v AND (push_bit 21 1 - 1)"

function index_search :: "u32 \<Rightarrow> u8 list \<Rightarrow> nat \<Rightarrow> nat \<Rightarrow> nat option" where
  "index_search c index_table idx_min idx_max =
     (if idx_max - idx_min > 1 then do {
        let idx = (idx_max + idx_min) div 2;
        v \<leftarrow> get_le24 index_table (idx * 3);
        if c < index_code v then index_search c index_table idx_min idx
        else index_search c index_table idx idx_max
      } else Some idx_min)"
  by pat_completeness auto
termination
  by (relation "measure (\<lambda>(c, tab, lo, hi). hi - lo)") auto

declare index_search.simps [simp del]

text \<open>The code and the position at which decoding starts; \<^const>\<open>None\<close> inside for \<open>-1\<close>.\<close>

definition get_index_pos :: "u32 \<Rightarrow> u8 list \<Rightarrow> nat \<Rightarrow> (u32 \<times> nat) option option" where
  "get_index_pos c index_table index_table_len = do {
     v \<leftarrow> get_le24 index_table 0;
     if c < index_code v then Some (Some (0, 0))
     else do {
       let idx_max = index_table_len - 1;
       code \<leftarrow> get_le24 index_table (idx_max * 3);
       if c \<ge> code then Some None
       else do {
         idx_min \<leftarrow> index_search c index_table 0 idx_max;
         v \<leftarrow> get_le24 index_table (idx_min * 3);
         Some (Some (index_code v, (idx_min + 1) * UNICODE_INDEX_BLOCK_LEN + unat (drop_bit 21 v)))
       }
     }
   }"

function in_table_loop :: "u32 \<Rightarrow> u8 list \<Rightarrow> nat \<Rightarrow> u32 \<Rightarrow> bool \<Rightarrow> bool option" where
  "in_table_loop c table p code b1 =
     (if p < length table then
        let b = ucast (table ! p) :: u32 in
        if b < 64 then
          let code = code + drop_bit 3 b + 1 in
          if c < code then Some b1
          else
            let code = code + (b AND 7) + 1 in
            if c < code then Some (\<not> b1) else in_table_loop c table (p + 1) code b1
        else if b \<ge> 0x80 then
          let code = code + (b - 0x80 + 1) in
          if c < code then Some b1 else in_table_loop c table (p + 1) code (\<not> b1)
        else if b < 0x60 then
          (case rd table (p + 1) of None \<Rightarrow> None
           | Some x \<Rightarrow>
             let code = code + ((push_bit 8 (b - 0x40) OR ucast x) + 1) in
             if c < code then Some b1 else in_table_loop c table (p + 2) code (\<not> b1))
        else
          (case rd table (p + 1) of None \<Rightarrow> None
           | Some x \<Rightarrow> (case rd table (p + 2) of None \<Rightarrow> None
             | Some y \<Rightarrow>
               let code = code + ((push_bit 16 (b - 0x60) OR push_bit 8 (ucast x) OR ucast y) + 1) in
               if c < code then Some b1 else in_table_loop c table (p + 3) code (\<not> b1)))
      else None)"
  by pat_completeness auto
termination
  by (relation "measure (\<lambda>(c, table, p, code, b1). length table - p)") auto

declare in_table_loop.simps [simp del]

definition lre_is_in_table :: "u32 \<Rightarrow> u8 list \<Rightarrow> u8 list \<Rightarrow> nat \<Rightarrow> bool option" where
  "lre_is_in_table c table index_table index_table_len = do {
     r \<leftarrow> get_index_pos c index_table index_table_len;
     (case r of None \<Rightarrow> Some False
      | Some (code, pos) \<Rightarrow> in_table_loop c table pos code False)
   }"

definition lre_is_cased :: "u32 \<Rightarrow> bool option" where
  "lre_is_cased c = do {
     r \<leftarrow> range_search case_conv_table1 case_code case_len c 0 (int (length case_conv_table1) - 1);
     (case r of Some _ \<Rightarrow> Some True
      | None \<Rightarrow> lre_is_in_table c unicode_prop_Cased1_table unicode_prop_Cased1_index
                  (length unicode_prop_Cased1_index div 3))
   }"

definition lre_is_case_ignorable :: "u32 \<Rightarrow> bool option" where
  "lre_is_case_ignorable c = lre_is_in_table c unicode_prop_Case_Ignorable_table
     unicode_prop_Case_Ignorable_index (length unicode_prop_Case_Ignorable_index div 3)"

definition lre_is_id_start :: "u32 \<Rightarrow> bool option" where
  "lre_is_id_start c = lre_is_in_table c unicode_prop_ID_Start_table
     unicode_prop_ID_Start_index (length unicode_prop_ID_Start_index div 3)"

definition lre_is_id_continue :: "u32 \<Rightarrow> bool option" where
  "lre_is_id_continue c = do {
     a \<leftarrow> lre_is_id_start c;
     if a then Some True
     else lre_is_in_table c unicode_prop_ID_Continue1_table
       unicode_prop_ID_Continue1_index (length unicode_prop_ID_Continue1_index div 3)
   }"

section \<open>The run lengths of a table\<close>

text \<open>Each byte, with the bytes that continue it, is one run or two; the reference decoding on
  natural numbers.\<close>

fun table_runs :: "u8 list \<Rightarrow> nat list option" where
  "table_runs [] = Some []"
| "table_runs (b # r) =
     (if b < 64 then map_option (\<lambda>rs. (unat b div 8 + 1) # (unat b mod 8 + 1) # rs) (table_runs r)
      else if b \<ge> 0x80 then map_option (\<lambda>rs. (unat b - 0x80 + 1) # rs) (table_runs r)
      else if b < 0x60 then (case r of
          x # r1 \<Rightarrow> map_option (\<lambda>rs. ((unat b - 0x40) * 256 + unat x + 1) # rs) (table_runs r1)
        | [] \<Rightarrow> None)
      else (case r of
          x # y # r1 \<Rightarrow> map_option (\<lambda>rs. ((unat b - 0x60) * 65536 + unat x * 256 + unat y + 1) # rs) (table_runs r1)
        | _ \<Rightarrow> None))"

text \<open>The four kinds of first byte.\<close>

lemma table_runs_ConsE:
  assumes "table_runs (b # p) = Some rs"
  obtains (two) rs1 where "b < 64" "table_runs p = Some rs1" "rs = (unat b div 8 + 1) # (unat b mod 8 + 1) # rs1"
  | (short) rs1 where "\<not> b < 64" "b \<ge> 0x80" "table_runs p = Some rs1" "rs = (unat b - 0x80 + 1) # rs1"
  | (medium) x t rs1 where "\<not> b < 64" "\<not> b \<ge> 0x80" "b < 0x60" "p = x # t" "table_runs t = Some rs1"
      "rs = ((unat b - 0x40) * 256 + unat x + 1) # rs1"
  | (long) x y t rs1 where "\<not> b < 64" "\<not> b \<ge> 0x80" "\<not> b < 0x60" "p = x # y # t" "table_runs t = Some rs1"
      "rs = ((unat b - 0x60) * 65536 + unat x * 256 + unat y + 1) # rs1"
proof -
  consider "b < 64" | "\<not> b < 64" "b \<ge> 0x80" | "\<not> b < 64" "\<not> b \<ge> 0x80" "b < 0x60"
    | "\<not> b < 64" "\<not> b \<ge> 0x80" "\<not> b < 0x60" by blast
  then show thesis
  proof cases
    case 1
    then show thesis using assms two by auto
  next
    case 2
    then show thesis using assms short by auto
  next
    case 3
    then obtain x t where "p = x # t" using assms by (cases p) auto
    then show thesis using 3 assms medium by auto
  next
    case 4
    then obtain x y t where "p = x # y # t" using assms by (cases p rule: list.exhaust; cases "tl p") auto
    then show thesis using 4 assms long by auto
  qed
qed

lemmas table_runs_induct = measure_induct_rule [where f = "length :: u8 list \<Rightarrow> nat"]

text \<open>The set the runs denote: \<open>b\<close> says whether the first run, which starts at \<open>a\<close>, is in.\<close>

fun runs_mem :: "bool \<Rightarrow> nat list \<Rightarrow> nat \<Rightarrow> bool" where
  "runs_mem b [] c = False"
| "runs_mem b (r # rs) c = (if c < r then b else runs_mem (\<not> b) rs (c - r))"

definition table_mem :: "u8 list \<Rightarrow> u32 \<Rightarrow> bool" where
  "table_mem table c \<longleftrightarrow> (case table_runs table of None \<Rightarrow> False | Some rs \<Rightarrow> runs_mem False rs (unat c))"

section \<open>Bits of bytes as numbers\<close>

lemma get_le24_value:
  assumes "i + 2 < length p"
  shows "\<exists>v. get_le24 p i = Some v \<and> unat v = unat (p ! i) + unat (p ! (i + 1)) * 256 + unat (p ! (i + 2)) * 65536"
proof -
  let ?a = "p ! i" and ?b = "p ! (i + 1)" and ?c = "p ! (i + 2)"
  have lo: "unat (push_bit 8 (ucast ?b) OR ucast ?a :: u32) = unat ?b * 256 + unat ?a"
    using unat_shifted_or [of "ucast ?a" 8 "ucast ?b"] u8_bound [of ?a] u8_bound [of ?b] by simp
  have "unat (push_bit 16 (ucast ?c) OR (push_bit 8 (ucast ?b) OR ucast ?a) :: u32) =
      unat ?c * 65536 + (unat ?b * 256 + unat ?a)"
    using unat_shifted_or [of "push_bit 8 (ucast ?b) OR ucast ?a" 16 "ucast ?c"]
      u8_bound [of ?a] u8_bound [of ?b] u8_bound [of ?c] unfolding lo by simp
  moreover have "ucast ?a OR push_bit 8 (ucast ?b) OR push_bit 16 (ucast ?c) =
      (push_bit 16 (ucast ?c) OR (push_bit 8 (ucast ?b) OR ucast ?a) :: u32)"
    by (simp add: ac_simps)
  ultimately show ?thesis using assms by (simp add: get_le24_def rd_in)
qed

lemma low_bits_value: "unat ((x :: u32) AND mask k) = unat x mod 2 ^ k"
proof -
  have "unat (take_bit k x) = take_bit k (unat x)" by (rule unsigned_take_bit_eq)
  then show ?thesis unfolding take_bit_eq_mask [of k x] take_bit_eq_mod [of k "unat x"] .
qed

lemma index_code_value: "unat (index_code v) = unat v mod 2 ^ 21"
  using low_bits_value [of v 21] by (simp add: index_code_def mask_eq_exp_minus_1)

lemma byte_parts:
  "unat (drop_bit 3 (ucast (b :: u8)) :: u32) = unat b div 8" "unat (ucast (b :: u8) AND 7 :: u32) = unat b mod 8"
  using low_bits_value [of "ucast b" 3] by (simp_all only: unat_drop unat_ucast_u8) (simp_all add: mask_eq_exp_minus_1)

section \<open>The loop follows the runs\<close>

lemma unat_plus_small: "unat (a :: u32) + unat b < 2 ^ 32 \<Longrightarrow> unat (a + b) = unat a + unat b"
  by (simp add: unat_word_ariths)

text \<open>What the loop adds for one byte, as a number.\<close>

lemma run_values:
  fixes b x y :: u8
  defines "B \<equiv> ucast b :: u32"
  shows "unat (drop_bit 3 B + 1) = unat b div 8 + 1" and "unat ((B AND 7) + 1) = unat b mod 8 + 1"
    and "0x80 \<le> B \<Longrightarrow> unat (B - 0x80 + 1) = unat b - 0x80 + 1"
    and "0x40 \<le> B \<Longrightarrow> unat ((push_bit 8 (B - 0x40) OR ucast x) + 1) = (unat b - 0x40) * 256 + unat x + 1"
    and "0x60 \<le> B \<Longrightarrow> unat ((push_bit 16 (B - 0x60) OR push_bit 8 (ucast x) OR ucast y) + 1) =
      (unat b - 0x60) * 65536 + unat x * 256 + unat y + 1"
proof -
  note bd = u8_bound [of b] u8_bound [of x] u8_bound [of y]
  show "unat (drop_bit 3 B + 1) = unat b div 8 + 1" "unat ((B AND 7) + 1) = unat b mod 8 + 1"
    using bd byte_parts [of b] by (simp_all add: B_def unat_word_ariths)
  have sub: "k \<le> B \<Longrightarrow> unat (B - k) = unat b - unat k" for k by (simp add: B_def unat_sub)
  show "unat (B - 0x80 + 1) = unat b - 0x80 + 1" if "0x80 \<le> B"
  proof -
    note k = that
    have "unat (B - 0x80) + unat (1 :: u32) < 2 ^ 32" using bd sub [OF k] by simp
    from unat_plus_small [OF this] show ?thesis using sub [OF k] by simp
  qed
  show "unat ((push_bit 8 (B - 0x40) OR ucast x) + 1) = (unat b - 0x40) * 256 + unat x + 1" if "0x40 \<le> B"
    using unat_shifted_or [of "ucast x" 8 "B - 0x40"] sub [OF that] bd by (simp add: unat_word_ariths)
  show "unat ((push_bit 16 (B - 0x60) OR push_bit 8 (ucast x) OR ucast y) + 1) =
      (unat b - 0x60) * 65536 + unat x * 256 + unat y + 1" if "0x60 \<le> B"
  proof -
    have lo: "unat (push_bit 8 (ucast x) OR ucast y :: u32) = unat x * 256 + unat y"
      using unat_shifted_or [of "ucast y" 8 "ucast x"] bd by simp
    have "unat (push_bit 16 (B - 0x60) OR (push_bit 8 (ucast x) OR ucast y)) =
        (unat b - 0x60) * 65536 + (unat x * 256 + unat y)"
      using unat_shifted_or [of "push_bit 8 (ucast x) OR ucast y" 16 "B - 0x60"] sub [OF that] bd
      unfolding lo by simp
    then show ?thesis using bd by (simp add: unat_word_ariths or.assoc)
  qed
qed

lemma byte_class: "ucast (b :: u8) < (64 :: u32) \<longleftrightarrow> b < 64" "0x80 \<le> (ucast b :: u32) \<longleftrightarrow> 0x80 \<le> b"
  "(ucast b :: u32) < 0x60 \<longleftrightarrow> b < 0x60" "(ucast b :: u32) < 0x80 \<longleftrightarrow> b < 0x80"
  by (simp_all add: word_less_nat_alt word_le_nat_alt)

lemma drop_one:
  assumes "drop k xs = x # t"
  shows "k < length xs" "xs ! k = x" "drop (k + 1) xs = t"
proof -
  show "k < length xs" using assms by (cases "k < length xs") auto
  then show "xs ! k = x" "drop (k + 1) xs = t" using assms by (simp_all add: Cons_nth_drop_Suc [symmetric])
qed

lemma drop_two:
  assumes "drop (p + 1) xs = x # y # t"
  shows "p + 2 < length xs" "xs ! (p + 1) = x" "xs ! (p + 2) = y" "drop (p + 3) xs = t"
  using drop_one [OF assms] drop_one [of "p + 2" xs y t] by (simp_all add: numeral_eq_Suc)

lemma in_table_loop_runs:
  "table_runs (drop p table) = Some rs \<Longrightarrow> code \<le> c \<Longrightarrow> unat c < unat code + sum_list rs \<Longrightarrow>
    unat code + sum_list rs < 2 ^ 32 \<Longrightarrow> p \<le> length table \<Longrightarrow>
    in_table_loop c table p code b1 = Some (runs_mem b1 rs (unat c - unat code))"
proof (induction "length table - p" arbitrary: p code b1 rs rule: less_induct)
  case less
  have p: "p < length table"
    using less.prems by (cases "p < length table") (auto simp: word_le_nat_alt)
  obtain b where b: "table ! p = b" "drop p table = b # drop (p + 1) table"
    using p by (simp add: Cons_nth_drop_Suc)
  let ?B = "ucast b :: u32"
  note ih = less.hyps
  note add = unat_plus_small
  show ?case
  proof (cases "b < 64")
    case True
    then obtain rs1 where rs1: "table_runs (drop (p + 1) table) = Some rs1"
        "rs = (unat b div 8 + 1) # (unat b mod 8 + 1) # rs1"
      using less.prems(1) b(2) by auto
    define c1 where "c1 = code + (drop_bit 3 ?B + 1)"
    define c2 where "c2 = c1 + ((?B AND 7) + 1)"
    have u1: "unat c1 = unat code + (unat b div 8 + 1)"
      using add [of code "drop_bit 3 ?B + 1"] less.prems(4) rs1(2) by (simp add: c1_def run_values(1))
    have u2: "unat c2 = unat c1 + (unat b mod 8 + 1)"
      using add [of c1 "(?B AND 7) + 1"] less.prems(4) rs1(2) u1 by (simp add: c2_def run_values(2))
    have step: "in_table_loop c table p code b1 =
        (if c < c1 then Some b1 else if c < c2 then Some (\<not> b1) else in_table_loop c table (p + 1) c2 b1)"
      using True p b(1) by (subst in_table_loop.simps) (simp add: byte_class Let_def c1_def c2_def add.assoc)
    have rec: "in_table_loop c table (p + 1) c2 b1 = Some (runs_mem b1 rs1 (unat c - unat c2))" if "c2 \<le> c"
      by (rule ih) (use p rs1 less.prems(3,4) u1 u2 that in auto)
    show ?thesis unfolding step using rec u1 u2 rs1(2) less.prems(2)
      by (auto simp: word_less_nat_alt word_le_nat_alt)
  next
    case False
    have one: ?thesis if k: "k > 0" and r: "table_runs (drop (p + k) table) = Some rs1" "rs = n # rs1"
        and n: "unat v = n" and le: "p + k \<le> length table"
        and step: "in_table_loop c table p code b1 =
          (if c < code + v then Some b1 else in_table_loop c table (p + k) (code + v) (\<not> b1))"
      for k n rs1 v
    proof -
      have u: "unat (code + v) = unat code + n" using add [of code v] less.prems(4) r(2) n by simp
      have "in_table_loop c table (p + k) (code + v) (\<not> b1) = Some (runs_mem (\<not> b1) rs1 (unat c - unat (code + v)))"
        if "code + v \<le> c"
        by (rule ih) (use p k le r less.prems(3,4) u that in auto)
      then show ?thesis unfolding step using u r(2) less.prems(2)
        by (auto simp: word_less_nat_alt word_le_nat_alt)
    qed
    have nb: "\<not> ?B < 64" "0x40 \<le> ?B" using False by (simp_all add: byte_class word_le_nat_alt word_less_nat_alt)
    consider "0x80 \<le> b" | "\<not> 0x80 \<le> b" "b < 0x60" | "\<not> 0x80 \<le> b" "\<not> b < 0x60" by blast
    then show ?thesis
    proof cases
      case 1
      then have B: "0x80 \<le> ?B" by (simp add: byte_class)
      obtain rs1 where r: "table_runs (drop (p + 1) table) = Some rs1" "rs = (unat b - 0x80 + 1) # rs1"
        using less.prems(1) b(2) False 1 by auto
      show ?thesis
        by (rule one [OF _ r run_values(3) [OF B]])
          (use p b(1) nb B in \<open>simp_all add: in_table_loop.simps [of c table p] Let_def\<close>)
    next
      case 2
      then have B: "\<not> 0x80 \<le> ?B" "?B < 0x60" by (simp_all add: byte_class)
      obtain x t where x: "drop (p + 1) table = x # t"
        using less.prems(1) b(2) False 2 by (cases "drop (p + 1) table") auto
      then have q: "p + 1 < length table" "table ! (p + 1) = x" "drop (p + 2) table = t"
        using drop_one [OF x] by simp_all
      obtain rs1 where r: "table_runs (drop (p + 2) table) = Some rs1"
          "rs = ((unat b - 0x40) * 256 + unat x + 1) # rs1"
        using less.prems(1) b(2) False 2 x q(3) by auto
      show ?thesis
        by (rule one [OF _ r run_values(4) [OF nb(2)]])
          (use p b(1) nb B q in \<open>simp_all add: in_table_loop.simps [of c table p] Let_def rd_in\<close>)
    next
      case 3
      then have B: "\<not> 0x80 \<le> ?B" "\<not> ?B < 0x60" "0x60 \<le> ?B" by (simp_all add: byte_class not_less [symmetric])
      obtain x y t where x: "drop (p + 1) table = x # y # t"
        using less.prems(1) b(2) False 3 by (cases "drop (p + 1) table" rule: list.exhaust [case_product list.exhaust])
          (auto split: list.splits)
      have q: "p + 2 < length table" "table ! (p + 1) = x" "table ! (p + 2) = y" "drop (p + 3) table = t"
        using drop_two [OF x] by simp_all
      obtain rs1 where r: "table_runs (drop (p + 3) table) = Some rs1"
          "rs = ((unat b - 0x60) * 65536 + unat x * 256 + unat y + 1) # rs1"
        using less.prems(1) b(2) False 3 x q(4) by auto
      show ?thesis
        by (rule one [OF _ r run_values(5) [OF B(3)]])
          (use p b(1) nb B q in \<open>simp_all add: in_table_loop.simps [of c table p] Let_def rd_in\<close>)
    qed
  qed
qed

section \<open>The index agrees with the table\<close>

fun le24s :: "u8 list \<Rightarrow> nat list" where
  "le24s (a # b # c # r) = (unat a + unat b * 256 + unat c * 65536) # le24s r"
| "le24s _ = []"

text \<open>The code and the position of each entry but the last.\<close>

fun index_starts :: "nat \<Rightarrow> nat list \<Rightarrow> (nat \<times> nat) list" where
  "index_starts i (v # w # vs) =
     (v mod 2 ^ 21, (i + 1) * UNICODE_INDEX_BLOCK_LEN + v div 2 ^ 21) # index_starts (i + 1) (w # vs)"
| "index_starts i _ = []"

fun start_here :: "(nat \<times> nat) list \<Rightarrow> nat \<Rightarrow> nat \<Rightarrow> bool \<Rightarrow> bool" where
  "start_here [] p code b1 \<longleftrightarrow> True"
| "start_here ((a, q) # es) p code b1 \<longleftrightarrow> p \<noteq> q \<or> code = a \<and> \<not> b1"

fun next_starts :: "(nat \<times> nat) list \<Rightarrow> nat \<Rightarrow> (nat \<times> nat) list" where
  "next_starts [] p = []"
| "next_starts ((a, q) # es) p = (if p = q then es else (a, q) # es)"

text \<open>One pass over the table: at the position of each entry the codes before are outside or inside
  completely, the next run is an outside one, and its first code is that of the entry; the runs end
  at \<open>fin\<close>.\<close>

fun starts_ok :: "nat \<Rightarrow> (nat \<times> nat) list \<Rightarrow> nat \<Rightarrow> nat \<Rightarrow> bool \<Rightarrow> u8 list \<Rightarrow> bool" where
  "starts_ok fin es p code b1 [] = (es = [] \<and> code = fin)"
| "starts_ok fin es p code b1 (b # r) =
     (start_here es p code b1 \<and>
      (if b < 64 then starts_ok fin (next_starts es p) (p + 1) (code + (unat b div 8 + 1) + (unat b mod 8 + 1)) b1 r
       else if b \<ge> 0x80 then starts_ok fin (next_starts es p) (p + 1) (code + (unat b - 0x80 + 1)) (\<not> b1) r
       else if b < 0x60 then (case r of
           x # r1 \<Rightarrow> starts_ok fin (next_starts es p) (p + 2) (code + ((unat b - 0x40) * 256 + unat x + 1)) (\<not> b1) r1
         | [] \<Rightarrow> False)
       else (case r of
           x # y # r1 \<Rightarrow> starts_ok fin (next_starts es p) (p + 3)
             (code + ((unat b - 0x60) * 65536 + unat x * 256 + unat y + 1)) (\<not> b1) r1
         | _ \<Rightarrow> False)))"

text \<open>The pass over a piece of the table: the entries that remain and the state at the end of the piece.\<close>

fun starts_scan :: "(nat \<times> nat) list \<Rightarrow> nat \<Rightarrow> nat \<Rightarrow> bool \<Rightarrow> u8 list \<Rightarrow> ((nat \<times> nat) list \<times> nat \<times> nat \<times> bool) option" where
  "starts_scan es p code b1 [] = Some (es, p, code, b1)"
| "starts_scan es p code b1 (b # r) =
     (if \<not> start_here es p code b1 then None
      else if b < 64 then starts_scan (next_starts es p) (p + 1) (code + (unat b div 8 + 1) + (unat b mod 8 + 1)) b1 r
      else if b \<ge> 0x80 then starts_scan (next_starts es p) (p + 1) (code + (unat b - 0x80 + 1)) (\<not> b1) r
      else if b < 0x60 then (case r of
          x # r1 \<Rightarrow> starts_scan (next_starts es p) (p + 2) (code + ((unat b - 0x40) * 256 + unat x + 1)) (\<not> b1) r1
        | [] \<Rightarrow> None)
      else (case r of
          x # y # r1 \<Rightarrow> starts_scan (next_starts es p) (p + 3)
            (code + ((unat b - 0x60) * 65536 + unat x * 256 + unat y + 1)) (\<not> b1) r1
        | _ \<Rightarrow> None))"

lemma scan_append:
  "starts_scan es p code b1 bs = Some (es1, p1, code1, b2) \<Longrightarrow>
    starts_ok fin es p code b1 (bs @ cs) = starts_ok fin es1 p1 code1 b2 cs"
  by (induction es p code b1 bs rule: starts_scan.induct) (auto split: if_split_asm list.split_asm)

lemma scan_end:
  "starts_scan es p code b1 bs = Some (es1, p1, code1, b2) \<Longrightarrow>
    starts_ok fin es p code b1 bs \<longleftrightarrow> es1 = [] \<and> code1 = fin"
  using scan_append [of es p code b1 bs es1 p1 code1 b2 fin "[]"] by simp

text \<open>Decoding from an entry gives the same set as decoding from the beginning.\<close>

definition start_at :: "nat \<Rightarrow> u8 list \<Rightarrow> nat \<Rightarrow> nat \<Rightarrow> bool \<Rightarrow> nat list \<Rightarrow> nat \<times> nat \<Rightarrow> bool" where
  "start_at fin bs p code b1 rs e \<longleftrightarrow> p \<le> snd e \<and> snd e \<le> p + length bs \<and> code \<le> fst e \<and>
     (\<exists>rs2. table_runs (drop (snd e - p) bs) = Some rs2 \<and> fst e + sum_list rs2 = fin \<and>
       (\<forall>c \<ge> fst e. runs_mem b1 rs (c - code) = runs_mem False rs2 (c - fst e)))"

lemma start_at_skip:
  assumes "start_at fin r (p + k) (code + n) (\<not> b1) rs e" and "drop k bs = r" and "k \<le> length bs"
  shows "start_at fin bs p code b1 (n # rs) e"
proof -
  have le: "p + k \<le> snd e" "snd e \<le> p + k + length r" "code + n \<le> fst e"
    using assms(1) by (auto simp: start_at_def)
  have "drop (snd e - (p + k)) r = drop (snd e - p) bs" using le(1) assms(2) by auto
  then show ?thesis using assms le by (auto simp: start_at_def)
qed

lemma starts_ok_sound:
  "starts_ok fin es p code b1 bs \<Longrightarrow>
    \<exists>rs. table_runs bs = Some rs \<and> code + sum_list rs = fin \<and> list_all (start_at fin bs p code b1 rs) es"
proof (induction fin es p code b1 bs rule: starts_ok.induct)
  case (1 fin es p code b1)
  then show ?case by simp
next
  case (2 fin es p code b1 b r)
  define es1 where "es1 = next_starts es p"
  have ok: "start_here es p code b1" using 2(5) by simp
  have first: "list_all (start_at fin (b # r) p code b1 rs) es"
    if "list_all (start_at fin (b # r) p code b1 rs) es1" "table_runs (b # r) = Some rs" "code + sum_list rs = fin" for rs
  proof (cases es)
    case (Cons e es')
    obtain a q where e: "e = (a, q)" by (cases e)
    show ?thesis
    proof (cases "p = q")
      case True
      then have "start_at fin (b # r) p code b1 rs e" using ok that(2,3) Cons e by (simp add: start_at_def)
      then show ?thesis using that(1) Cons e True by (simp add: es1_def)
    qed (use that(1) Cons e in \<open>simp add: es1_def\<close>)
  qed simp
  have one: ?case
    if ih: "\<exists>rs. table_runs t = Some rs \<and> (code + n) + sum_list rs = fin \<and>
          list_all (start_at fin t (p + k) (code + n) (\<not> b1) rs) es1"
      and runs: "\<And>rs. table_runs t = Some rs \<Longrightarrow> table_runs (b # r) = Some (n # rs)"
      and t: "drop k (b # r) = t" "k \<le> length (b # r)" for t n k
  proof -
    obtain rs where rs: "table_runs t = Some rs" "(code + n) + sum_list rs = fin"
        "list_all (start_at fin t (p + k) (code + n) (\<not> b1) rs) es1" using ih by blast
    have "list_all (start_at fin (b # r) p code b1 (n # rs)) es1"
      using rs(3) by (rule list.pred_mono_strong) (rule start_at_skip [OF _ t])
    then show ?thesis using first [OF _ runs [OF rs(1)]] runs [OF rs(1)] rs(2) by (auto simp: add.assoc)
  qed
  consider "b < 64" | "\<not> b < 64" "b \<ge> 0x80" | "\<not> b < 64" "\<not> b \<ge> 0x80" "b < 0x60"
    | "\<not> b < 64" "\<not> b \<ge> 0x80" "\<not> b < 0x60" by blast
  then show ?case
  proof cases
    case 1
    let ?n = "unat b div 8 + 1" and ?m = "unat b mod 8 + 1"
    obtain rs where rs: "table_runs r = Some rs" "code + ?n + ?m + sum_list rs = fin"
        "list_all (start_at fin r (p + 1) (code + ?n + ?m) b1 rs) es1"
      using 2(1) [OF 1] 2(5) 1 by (auto simp: es1_def)
    have "list_all (start_at fin (b # r) p code b1 (?n # ?m # rs)) es1"
    proof (rule list.pred_mono_strong [OF rs(3)])
      fix e assume "start_at fin r (p + 1) (code + ?n + ?m) b1 rs e"
      then have "start_at fin r (p + 1) (code + ?n) (\<not> b1) (?m # rs) e"
        using start_at_skip [of fin r "p + 1" 0 "code + ?n" ?m "\<not> b1" rs e r] by simp
      then show "start_at fin (b # r) p code b1 (?n # ?m # rs) e" by (rule start_at_skip) simp_all
    qed
    then show ?thesis using first rs(1,2) 1 by (auto simp: add.assoc)
  next
    case 2: 2
    show ?thesis
      by (rule one [of r "unat b - 0x80 + 1" 1])
        (use 2 "2.IH"(2) "2.prems" in \<open>auto simp: es1_def\<close>)
  next
    case 3
    then obtain x t where r: "r = x # t" using "2.prems" by (cases r) auto
    show ?thesis
      by (rule one [of t "(unat b - 0x40) * 256 + unat x + 1" 2])
        (use 3 r "2.IH"(3) "2.prems" in \<open>auto simp: es1_def\<close>)
  next
    case 4
    then obtain x y t where r: "r = x # y # t"
      using "2.prems" by (cases r rule: list.exhaust; cases "tl r") auto
    show ?thesis
      by (rule one [of t "(unat b - 0x60) * 65536 + unat x * 256 + unat y + 1" 3])
        (use 4 r "2.IH"(4) "2.prems" in \<open>auto simp: es1_def\<close>)
  qed
qed

section \<open>Lookup is membership\<close>

lemma le24s_length: "length (le24s p) = length p div 3"
  by (induction p rule: le24s.induct) auto

lemma le24s_nth: "i < length p div 3 \<Longrightarrow>
    le24s p ! i = unat (p ! (i * 3)) + unat (p ! (i * 3 + 1)) * 256 + unat (p ! (i * 3 + 2)) * 65536"
  by (induction p arbitrary: i rule: le24s.induct) (auto simp: nth_Cons split: nat.splits)

lemma get_le24_nth:
  assumes "i < length p div 3"
  shows "\<exists>v. get_le24 p (i * 3) = Some v \<and> unat v = le24s p ! i"
  using get_le24_value [of "i * 3" p] assms le24s_nth [OF assms] by force

lemma index_starts_nth:
  "i + 1 < length vs \<Longrightarrow>
    (vs ! i mod 2 ^ 21, (k + i + 1) * UNICODE_INDEX_BLOCK_LEN + vs ! i div 2 ^ 21) \<in> set (index_starts k vs)"
proof (induction k vs arbitrary: i rule: index_starts.induct)
  case (1 k v w vs)
  then show ?case
    by (cases i) (use 1(1) [of "i - 1"] 1(2) in \<open>auto simp: nth_Cons split: nat.splits\<close>)
qed auto

text \<open>What \<^verbatim>\<open>get_index_pos\<close> finds in an index with at least two entries.\<close>

locale code_index =
  fixes index_table :: "u8 list"
  assumes entries: "2 \<le> length index_table div 3"
begin

lemma last_entry: "\<exists>v. get_le24 index_table ((length index_table div 3 - 1) * 3) = Some v \<and>
    unat v = last (le24s index_table)"
proof -
  have "le24s index_table \<noteq> []" using entries le24s_length [of index_table] by auto
  then show ?thesis
    using get_le24_nth [of "length index_table div 3 - 1" index_table] entries
    by (simp add: last_conv_nth le24s_length)
qed

lemma index_search_finds:
  "lo < hi \<Longrightarrow> hi < length index_table div 3 \<Longrightarrow> le24s index_table ! lo mod 2 ^ 21 \<le> unat c \<Longrightarrow>
    \<exists>i. index_search c index_table lo hi = Some i \<and> i < hi \<and> le24s index_table ! i mod 2 ^ 21 \<le> unat c"
proof (induction c index_table lo hi rule: index_search.induct)
  case (1 c tab lo hi)
  show ?case
  proof (cases "hi - lo > 1")
    case True
    define mid where "mid = (hi + lo) div 2"
    have mid: "lo < mid" "mid < hi" using True by (auto simp: mid_def)
    obtain v where v: "get_le24 tab (mid * 3) = Some v" "unat v = le24s tab ! mid"
      using get_le24_nth [of mid tab] mid 1(4) by auto
    have code: "c < index_code v \<longleftrightarrow> unat c < le24s tab ! mid mod 2 ^ 21"
      by (simp only: word_less_nat_alt index_code_value v(2))
    show ?thesis
    proof (cases "c < index_code v")
      case less: True
      then show ?thesis
        using 1(1) [OF True mid_def v(1) less] 1(3-5) mid True v(1)
        by (subst index_search.simps) (auto simp: mid_def [symmetric] Let_def)
    next
      case ge: False
      then show ?thesis
        using 1(2) [OF True mid_def v(1) ge] 1(3-5) mid True v(1) code
        by (subst index_search.simps) (auto simp: mid_def [symmetric] Let_def not_less)
    qed
  next
    case False
    then show ?thesis using 1(3-5) by (subst index_search.simps) auto
  qed
qed

lemma get_index_pos_cases:
  obtains (before) "unat c < le24s index_table ! 0 mod 2 ^ 21"
      "get_index_pos c index_table (length index_table div 3) = Some (Some (0, 0))"
  | (past) "last (le24s index_table) \<le> unat c"
      "get_index_pos c index_table (length index_table div 3) = Some None"
  | (inside) i code where "i + 1 < length index_table div 3" "unat c < last (le24s index_table)"
      "unat code = le24s index_table ! i mod 2 ^ 21" "code \<le> c"
      "get_index_pos c index_table (length index_table div 3) =
        Some (Some (code, (i + 1) * UNICODE_INDEX_BLOCK_LEN + le24s index_table ! i div 2 ^ 21))"
proof -
  obtain v0 where v0: "get_le24 index_table 0 = Some v0" "unat v0 = le24s index_table ! 0"
    using get_le24_nth [of 0 index_table] entries by auto
  obtain vl where vl: "get_le24 index_table ((length index_table div 3 - 1) * 3) = Some vl"
      "unat vl = last (le24s index_table)"
    using last_entry by auto
  show thesis
  proof (cases "c < index_code v0")
    case True
    then show thesis
      using v0 by (intro before) (simp_all add: word_less_nat_alt index_code_value get_index_pos_def)
  next
    case False
    then have c0: "le24s index_table ! 0 mod 2 ^ 21 \<le> unat c"
      using v0(2) by (simp add: word_less_nat_alt index_code_value not_less)
    show thesis
    proof (cases "c \<ge> vl")
      case True
      then show thesis
        using False v0(1) vl by (intro past) (simp_all add: word_le_nat_alt get_index_pos_def Let_def)
    next
      case c: False
      obtain i where i: "index_search c index_table 0 (length index_table div 3 - 1) = Some i"
          "i < length index_table div 3 - 1" "le24s index_table ! i mod 2 ^ 21 \<le> unat c"
        using index_search_finds [of 0 "length index_table div 3 - 1" c] c0 entries by auto
      obtain v where v: "get_le24 index_table (i * 3) = Some v" "unat v = le24s index_table ! i"
        using get_le24_nth [of i index_table] i(2) entries by (meson less_le_trans diff_le_self)
      show thesis
        by (rule inside [of i "index_code v"])
          (use False c i v v0(1) vl in \<open>simp_all add: word_le_nat_alt index_code_value unat_drop get_index_pos_def Let_def\<close>)
    qed
  qed
qed

end

locale prop_table = code_index index_table for index_table :: "u8 list" +
  fixes table :: "u8 list"
  assumes starts: "starts_ok (last (le24s index_table)) (index_starts 0 (le24s index_table)) 0 0 False table"
begin

lemma table_facts:
  "\<exists>rs. table_runs table = Some rs \<and> sum_list rs = last (le24s index_table) \<and>
    (\<forall>i. i + 1 < length index_table div 3 \<longrightarrow> start_at (last (le24s index_table)) table 0 0 False rs
       (le24s index_table ! i mod 2 ^ 21,
        (i + 1) * UNICODE_INDEX_BLOCK_LEN + le24s index_table ! i div 2 ^ 21))"
proof -
  obtain rs where rs: "table_runs table = Some rs" "0 + sum_list rs = last (le24s index_table)"
      "list_all (start_at (last (le24s index_table)) table 0 0 False rs) (index_starts 0 (le24s index_table))"
    using starts_ok_sound [OF starts] by blast
  then show ?thesis using index_starts_nth [of _ "le24s index_table" 0]
    by (auto simp: list_all_iff le24s_length)
qed

lemma is_in_table: "lre_is_in_table c table index_table (length index_table div 3) = Some (table_mem table c)"
proof -
  define fin where "fin = last (le24s index_table)"
  obtain rs where rs: "table_runs table = Some rs" "sum_list rs = fin"
      "\<And>i. i + 1 < length index_table div 3 \<Longrightarrow> start_at fin table 0 0 False rs
       (le24s index_table ! i mod 2 ^ 21, (i + 1) * UNICODE_INDEX_BLOCK_LEN + le24s index_table ! i div 2 ^ 21)"
    using table_facts unfolding fin_def by blast
  obtain vl :: u32 where "unat vl = fin" using last_entry fin_def by auto
  then have small: "fin < 2 ^ 32" using unsigned_less [of vl, where ?'a = nat] by simp
  have runs_out: "runs_mem b rs n = False" if "sum_list rs \<le> n" for b rs n
    using that by (induction b rs n rule: runs_mem.induct) auto
  have loop: "in_table_loop c table p a False = Some (table_mem table c)"
    if ac: "a \<le> c" and cf: "unat c < fin" and at: "start_at fin table 0 0 False rs (unat a, p)" for a p
  proof -
    obtain rs2 where rs2: "table_runs (drop p table) = Some rs2" "unat a + sum_list rs2 = fin"
        "\<And>n. unat a \<le> n \<Longrightarrow> runs_mem False rs n = runs_mem False rs2 (n - unat a)" "p \<le> length table"
      using at by (auto simp: start_at_def)
    have "unat a \<le> unat c" using ac by (simp add: word_le_nat_alt)
    then show ?thesis
      using in_table_loop_runs [OF rs2(1) ac _ _ rs2(4), of False] rs2(2,3) cf small rs(1)
      by (simp add: table_mem_def)
  qed
  show ?thesis
  proof (cases rule: get_index_pos_cases [of c])
    case before
    have "le24s index_table ! 0 mod 2 ^ 21 \<le> fin" using rs(3) [of 0] entries by (auto simp: start_at_def)
    moreover have "start_at fin table 0 0 False rs (unat (0 :: u32), 0)"
      using rs(1,2) by (simp add: start_at_def)
    ultimately show ?thesis using loop [of 0 0] before by (simp add: lre_is_in_table_def)
  next
    case past
    then have "\<not> table_mem table c" using runs_out rs(1,2) by (simp add: table_mem_def fin_def)
    then show ?thesis using past(2) by (simp add: lre_is_in_table_def)
  next
    case (inside i code)
    have "start_at fin table 0 0 False rs
        (unat code, (i + 1) * UNICODE_INDEX_BLOCK_LEN + le24s index_table ! i div 2 ^ 21)"
      using rs(3) [OF inside(1)] inside(3) by simp
    from loop [OF inside(4) _ this] show ?thesis using inside(2,5) by (simp add: lre_is_in_table_def fin_def)
  qed
qed

end

text \<open>The four tables of the repository are consistent with their indices.\<close>

lemma cased_starts:
  "starts_ok (last (le24s unicode_prop_Cased1_index)) (index_starts 0 (le24s unicode_prop_Cased1_index))
    0 0 False unicode_prop_Cased1_table"
  unfolding unicode_prop_Cased1_index_def unicode_prop_Cased1_table_def
  by (simp add: UNICODE_INDEX_BLOCK_LEN_def)

interpretation cased1: prop_table unicode_prop_Cased1_index unicode_prop_Cased1_table
  by unfold_locales (simp add: unicode_prop_Cased1_index_def, rule cased_starts)

definition case_ignorable_marks :: "(nat \<times> nat) list" where
  "case_ignorable_marks = index_starts 0 (le24s unicode_prop_Case_Ignorable_index)"

lemma case_ignorable_scan_1:
  "starts_scan (drop 0 case_ignorable_marks) 0 0 False unicode_prop_Case_Ignorable_table_1 =
    Some (drop 3 case_ignorable_marks, 110, 2810, True)"
  by (simp add: case_ignorable_marks_def unicode_prop_Case_Ignorable_index_def UNICODE_INDEX_BLOCK_LEN_def unicode_prop_Case_Ignorable_table_1_def)

lemma case_ignorable_scan_2:
  "starts_scan (drop 3 case_ignorable_marks) 110 2810 True unicode_prop_Case_Ignorable_table_2 =
    Some (drop 6 case_ignorable_marks, 220, 6089, True)"
  by (simp add: case_ignorable_marks_def unicode_prop_Case_Ignorable_index_def UNICODE_INDEX_BLOCK_LEN_def unicode_prop_Case_Ignorable_table_2_def)

lemma case_ignorable_scan_3:
  "starts_scan (drop 6 case_ignorable_marks) 220 6089 True unicode_prop_Case_Ignorable_table_3 =
    Some (drop 10 case_ignorable_marks, 330, 11744, True)"
  by (simp add: case_ignorable_marks_def unicode_prop_Case_Ignorable_index_def UNICODE_INDEX_BLOCK_LEN_def unicode_prop_Case_Ignorable_table_3_def)

lemma case_ignorable_scan_4:
  "starts_scan (drop 10 case_ignorable_marks) 330 11744 True unicode_prop_Case_Ignorable_table_4 =
    Some (drop 13 case_ignorable_marks, 440, 65056, True)"
  by (simp add: case_ignorable_marks_def unicode_prop_Case_Ignorable_index_def UNICODE_INDEX_BLOCK_LEN_def unicode_prop_Case_Ignorable_table_4_def)

lemma case_ignorable_scan_5:
  "starts_scan (drop 13 case_ignorable_marks) 440 65056 True unicode_prop_Case_Ignorable_table_5 =
    Some (drop 17 case_ignorable_marks, 550, 71100, True)"
  by (simp add: case_ignorable_marks_def unicode_prop_Case_Ignorable_index_def UNICODE_INDEX_BLOCK_LEN_def unicode_prop_Case_Ignorable_table_5_def)

lemma case_ignorable_scan_6:
  "starts_scan (drop 17 case_ignorable_marks) 550 71100 True unicode_prop_Case_Ignorable_table_6 =
    Some (drop 20 case_ignorable_marks, 660, 121499, True)"
  by (simp add: case_ignorable_marks_def unicode_prop_Case_Ignorable_index_def UNICODE_INDEX_BLOCK_LEN_def unicode_prop_Case_Ignorable_table_6_def)

lemma case_ignorable_scan_7:
  "starts_scan (drop 20 case_ignorable_marks) 660 121499 True unicode_prop_Case_Ignorable_table_7 =
    Some (drop 21 case_ignorable_marks, 692, 918000, False)"
  by (simp add: case_ignorable_marks_def unicode_prop_Case_Ignorable_index_def UNICODE_INDEX_BLOCK_LEN_def unicode_prop_Case_Ignorable_table_7_def)

lemma case_ignorable_starts:
  "starts_ok (last (le24s unicode_prop_Case_Ignorable_index)) (index_starts 0 (le24s unicode_prop_Case_Ignorable_index))
    0 0 False unicode_prop_Case_Ignorable_table"
proof -
  note scans = scan_append [OF case_ignorable_scan_1] scan_append [OF case_ignorable_scan_2] scan_append [OF case_ignorable_scan_3] scan_append [OF case_ignorable_scan_4] scan_append [OF case_ignorable_scan_5] scan_append [OF case_ignorable_scan_6]
  have "starts_ok 918000 (drop 0 case_ignorable_marks) 0 0 False unicode_prop_Case_Ignorable_table"
    unfolding unicode_prop_Case_Ignorable_table_def by (simp only: append_assoc scans scan_end [OF case_ignorable_scan_7]) (simp add: case_ignorable_marks_def unicode_prop_Case_Ignorable_index_def)
  then show ?thesis by (simp add: case_ignorable_marks_def unicode_prop_Case_Ignorable_index_def)
qed

interpretation case_ignorable: prop_table unicode_prop_Case_Ignorable_index unicode_prop_Case_Ignorable_table
  by unfold_locales (simp add: unicode_prop_Case_Ignorable_index_def, rule case_ignorable_starts)

definition id_start_marks :: "(nat \<times> nat) list" where
  "id_start_marks = index_starts 0 (le24s unicode_prop_ID_Start_index)"

lemma id_start_scan_1:
  "starts_scan (drop 0 id_start_marks) 0 0 False unicode_prop_ID_Start_table_1 =
    Some (drop 3 id_start_marks, 110, 2575, True)"
  by (simp add: id_start_marks_def unicode_prop_ID_Start_index_def UNICODE_INDEX_BLOCK_LEN_def unicode_prop_ID_Start_table_1_def)

lemma id_start_scan_2:
  "starts_scan (drop 3 id_start_marks) 110 2575 True unicode_prop_ID_Start_table_2 =
    Some (drop 6 id_start_marks, 220, 3773, True)"
  by (simp add: id_start_marks_def unicode_prop_ID_Start_index_def UNICODE_INDEX_BLOCK_LEN_def unicode_prop_ID_Start_table_2_def)

lemma id_start_scan_3:
  "starts_scan (drop 6 id_start_marks) 220 3773 True unicode_prop_ID_Start_table_3 =
    Some (drop 10 id_start_marks, 330, 6981, True)"
  by (simp add: id_start_marks_def unicode_prop_ID_Start_index_def UNICODE_INDEX_BLOCK_LEN_def unicode_prop_ID_Start_table_3_def)

lemma id_start_scan_4:
  "starts_scan (drop 10 id_start_marks) 330 6981 True unicode_prop_ID_Start_table_4 =
    Some (drop 13 id_start_marks, 440, 12448, False)"
  by (simp add: id_start_marks_def unicode_prop_ID_Start_index_def UNICODE_INDEX_BLOCK_LEN_def unicode_prop_ID_Start_table_4_def)

lemma id_start_scan_5:
  "starts_scan (drop 13 id_start_marks) 440 12448 False unicode_prop_ID_Start_table_5 =
    Some (drop 17 id_start_marks, 550, 55239, False)"
  by (simp add: id_start_marks_def unicode_prop_ID_Start_index_def UNICODE_INDEX_BLOCK_LEN_def unicode_prop_ID_Start_table_5_def)

lemma id_start_scan_6:
  "starts_scan (drop 17 id_start_marks) 550 55239 False unicode_prop_ID_Start_table_6 =
    Some (drop 20 id_start_marks, 660, 67743, False)"
  by (simp add: id_start_marks_def unicode_prop_ID_Start_index_def UNICODE_INDEX_BLOCK_LEN_def unicode_prop_ID_Start_table_6_def)

lemma id_start_scan_7:
  "starts_scan (drop 20 id_start_marks) 660 67743 False unicode_prop_ID_Start_table_7 =
    Some (drop 24 id_start_marks, 771, 71040, True)"
  by (simp add: id_start_marks_def unicode_prop_ID_Start_index_def UNICODE_INDEX_BLOCK_LEN_def unicode_prop_ID_Start_table_7_def)

lemma id_start_scan_8:
  "starts_scan (drop 24 id_start_marks) 771 71040 True unicode_prop_ID_Start_table_8 =
    Some (drop 27 id_start_marks, 881, 93952, True)"
  by (simp add: id_start_marks_def unicode_prop_ID_Start_index_def UNICODE_INDEX_BLOCK_LEN_def unicode_prop_ID_Start_table_8_def)

lemma id_start_scan_9:
  "starts_scan (drop 27 id_start_marks) 881 93952 True unicode_prop_ID_Start_table_9 =
    Some (drop 30 id_start_marks, 991, 126520, False)"
  by (simp add: id_start_marks_def unicode_prop_ID_Start_index_def UNICODE_INDEX_BLOCK_LEN_def unicode_prop_ID_Start_table_9_def)

lemma id_start_scan_10:
  "starts_scan (drop 30 id_start_marks) 991 126520 False unicode_prop_ID_Start_table_10 =
    Some (drop 32 id_start_marks, 1045, 201547, False)"
  by (simp add: id_start_marks_def unicode_prop_ID_Start_index_def UNICODE_INDEX_BLOCK_LEN_def unicode_prop_ID_Start_table_10_def)

lemma id_start_starts:
  "starts_ok (last (le24s unicode_prop_ID_Start_index)) (index_starts 0 (le24s unicode_prop_ID_Start_index))
    0 0 False unicode_prop_ID_Start_table"
proof -
  note scans = scan_append [OF id_start_scan_1] scan_append [OF id_start_scan_2] scan_append [OF id_start_scan_3] scan_append [OF id_start_scan_4] scan_append [OF id_start_scan_5] scan_append [OF id_start_scan_6] scan_append [OF id_start_scan_7] scan_append [OF id_start_scan_8] scan_append [OF id_start_scan_9]
  have "starts_ok 201547 (drop 0 id_start_marks) 0 0 False unicode_prop_ID_Start_table"
    unfolding unicode_prop_ID_Start_table_def by (simp only: append_assoc scans scan_end [OF id_start_scan_10]) (simp add: id_start_marks_def unicode_prop_ID_Start_index_def)
  then show ?thesis by (simp add: id_start_marks_def unicode_prop_ID_Start_index_def)
qed

interpretation id_start: prop_table unicode_prop_ID_Start_index unicode_prop_ID_Start_table
  by unfold_locales (simp add: unicode_prop_ID_Start_index_def, rule id_start_starts)

definition id_continue1_marks :: "(nat \<times> nat) list" where
  "id_continue1_marks = index_starts 0 (le24s unicode_prop_ID_Continue1_index)"

lemma id_continue1_scan_1:
  "starts_scan (drop 0 id_continue1_marks) 0 0 False unicode_prop_ID_Continue1_table_1 =
    Some (drop 3 id_continue1_marks, 110, 2947, False)"
  by (simp add: id_continue1_marks_def unicode_prop_ID_Continue1_index_def UNICODE_INDEX_BLOCK_LEN_def unicode_prop_ID_Continue1_table_1_def)

lemma id_continue1_scan_2:
  "starts_scan (drop 3 id_continue1_marks) 110 2947 False unicode_prop_ID_Continue1_table_2 =
    Some (drop 6 id_continue1_marks, 220, 6109, True)"
  by (simp add: id_continue1_marks_def unicode_prop_ID_Continue1_index_def UNICODE_INDEX_BLOCK_LEN_def unicode_prop_ID_Continue1_table_2_def)

lemma id_continue1_scan_3:
  "starts_scan (drop 6 id_continue1_marks) 220 6109 True unicode_prop_ID_Continue1_table_3 =
    Some (drop 10 id_continue1_marks, 330, 43232, True)"
  by (simp add: id_continue1_marks_def unicode_prop_ID_Continue1_index_def UNICODE_INDEX_BLOCK_LEN_def unicode_prop_ID_Continue1_table_3_def)

lemma id_continue1_scan_4:
  "starts_scan (drop 10 id_continue1_marks) 330 43232 True unicode_prop_ID_Continue1_table_4 =
    Some (drop 13 id_continue1_marks, 440, 70004, False)"
  by (simp add: id_continue1_marks_def unicode_prop_ID_Continue1_index_def UNICODE_INDEX_BLOCK_LEN_def unicode_prop_ID_Continue1_table_4_def)

lemma id_continue1_scan_5:
  "starts_scan (drop 13 id_continue1_marks) 440 70004 False unicode_prop_ID_Continue1_table_5 =
    Some (drop 17 id_continue1_marks, 551, 92768, True)"
  by (simp add: id_continue1_marks_def unicode_prop_ID_Continue1_index_def UNICODE_INDEX_BLOCK_LEN_def unicode_prop_ID_Continue1_table_5_def)

lemma id_continue1_scan_6:
  "starts_scan (drop 17 id_continue1_marks) 551 92768 True unicode_prop_ID_Continue1_table_6 =
    Some (drop 19 id_continue1_marks, 626, 918000, False)"
  by (simp add: id_continue1_marks_def unicode_prop_ID_Continue1_index_def UNICODE_INDEX_BLOCK_LEN_def unicode_prop_ID_Continue1_table_6_def)

lemma id_continue1_starts:
  "starts_ok (last (le24s unicode_prop_ID_Continue1_index)) (index_starts 0 (le24s unicode_prop_ID_Continue1_index))
    0 0 False unicode_prop_ID_Continue1_table"
proof -
  note scans = scan_append [OF id_continue1_scan_1] scan_append [OF id_continue1_scan_2] scan_append [OF id_continue1_scan_3] scan_append [OF id_continue1_scan_4] scan_append [OF id_continue1_scan_5]
  have "starts_ok 918000 (drop 0 id_continue1_marks) 0 0 False unicode_prop_ID_Continue1_table"
    unfolding unicode_prop_ID_Continue1_table_def by (simp only: append_assoc scans scan_end [OF id_continue1_scan_6]) (simp add: id_continue1_marks_def unicode_prop_ID_Continue1_index_def)
  then show ?thesis by (simp add: id_continue1_marks_def unicode_prop_ID_Continue1_index_def)
qed

interpretation id_continue1: prop_table unicode_prop_ID_Continue1_index unicode_prop_ID_Continue1_table
  by unfold_locales (simp add: unicode_prop_ID_Continue1_index_def, rule id_continue1_starts)

lemma lookups_are_membership:
  "lre_is_case_ignorable c = Some (table_mem unicode_prop_Case_Ignorable_table c)"
  "lre_is_id_start c = Some (table_mem unicode_prop_ID_Start_table c)"
  "lre_is_id_continue c = Some (table_mem unicode_prop_ID_Start_table c \<or> table_mem unicode_prop_ID_Continue1_table c)"
  by (simp_all add: lre_is_case_ignorable_def lre_is_id_start_def lre_is_id_continue_def
      case_ignorable.is_in_table id_start.is_in_table id_continue1.is_in_table)

lemma lre_is_cased_membership:
  "lre_is_cased c = Some ((\<exists>i. range_covers case_conv_table1 case_code case_len i c) \<or>
     table_mem unicode_prop_Cased1_table c)"
proof (cases "\<exists>i. range_covers case_conv_table1 case_code case_len i c")
  case True
  then obtain i where "range_covers case_conv_table1 case_code case_len i c" by blast
  then show ?thesis using case_ranges.range_search_finds [of c "Some i"] by (auto simp: lre_is_cased_def)
next
  case False
  then show ?thesis using case_ranges.range_search_finds [of c None]
    by (simp add: lre_is_cased_def cased1.is_in_table)
qed

end
