(* ===== verification/Unicode_Prop_Tables.thy ===== *)
theory Unicode_Prop_Tables
  imports Unicode_Tables
begin

text \<open>
  The generated tables and enumerations of \<^verbatim>\<open>libunicode-table.h\<close> for general categories, binary
  properties and scripts, as they stand in the repository. The long byte tables are written in
  pieces that end where an entry ends.
\<close>

section \<open>General categories\<close>

text \<open>A table of names: the entries, each with its terminator, and the terminator of the table.\<close>

definition name_table :: "string list \<Rightarrow> string" where
  "name_table es = concat (map (\<lambda>s. s @ [NUL]) es) @ [NUL]"

definition UNICODE_GC_Cn :: nat where "UNICODE_GC_Cn = 0"
definition UNICODE_GC_Lu :: nat where "UNICODE_GC_Lu = 1"
definition UNICODE_GC_Ll :: nat where "UNICODE_GC_Ll = 2"
definition UNICODE_GC_Lt :: nat where "UNICODE_GC_Lt = 3"
definition UNICODE_GC_Lm :: nat where "UNICODE_GC_Lm = 4"
definition UNICODE_GC_Lo :: nat where "UNICODE_GC_Lo = 5"
definition UNICODE_GC_Mn :: nat where "UNICODE_GC_Mn = 6"
definition UNICODE_GC_Mc :: nat where "UNICODE_GC_Mc = 7"
definition UNICODE_GC_Me :: nat where "UNICODE_GC_Me = 8"
definition UNICODE_GC_Nd :: nat where "UNICODE_GC_Nd = 9"
definition UNICODE_GC_Nl :: nat where "UNICODE_GC_Nl = 10"
definition UNICODE_GC_No :: nat where "UNICODE_GC_No = 11"
definition UNICODE_GC_Sm :: nat where "UNICODE_GC_Sm = 12"
definition UNICODE_GC_Sc :: nat where "UNICODE_GC_Sc = 13"
definition UNICODE_GC_Sk :: nat where "UNICODE_GC_Sk = 14"
definition UNICODE_GC_So :: nat where "UNICODE_GC_So = 15"
definition UNICODE_GC_Pc :: nat where "UNICODE_GC_Pc = 16"
definition UNICODE_GC_Pd :: nat where "UNICODE_GC_Pd = 17"
definition UNICODE_GC_Ps :: nat where "UNICODE_GC_Ps = 18"
definition UNICODE_GC_Pe :: nat where "UNICODE_GC_Pe = 19"
definition UNICODE_GC_Pi :: nat where "UNICODE_GC_Pi = 20"
definition UNICODE_GC_Pf :: nat where "UNICODE_GC_Pf = 21"
definition UNICODE_GC_Po :: nat where "UNICODE_GC_Po = 22"
definition UNICODE_GC_Zs :: nat where "UNICODE_GC_Zs = 23"
definition UNICODE_GC_Zl :: nat where "UNICODE_GC_Zl = 24"
definition UNICODE_GC_Zp :: nat where "UNICODE_GC_Zp = 25"
definition UNICODE_GC_Cc :: nat where "UNICODE_GC_Cc = 26"
definition UNICODE_GC_Cf :: nat where "UNICODE_GC_Cf = 27"
definition UNICODE_GC_Cs :: nat where "UNICODE_GC_Cs = 28"
definition UNICODE_GC_Co :: nat where "UNICODE_GC_Co = 29"
definition UNICODE_GC_LC :: nat where "UNICODE_GC_LC = 30"
definition UNICODE_GC_L :: nat where "UNICODE_GC_L = 31"
definition UNICODE_GC_M :: nat where "UNICODE_GC_M = 32"
definition UNICODE_GC_N :: nat where "UNICODE_GC_N = 33"
definition UNICODE_GC_S :: nat where "UNICODE_GC_S = 34"
definition UNICODE_GC_P :: nat where "UNICODE_GC_P = 35"
definition UNICODE_GC_Z :: nat where "UNICODE_GC_Z = 36"
definition UNICODE_GC_C :: nat where "UNICODE_GC_C = 37"

definition unicode_gc_names :: "string list" where
  "unicode_gc_names =
     [''Cn,Unassigned'', ''Lu,Uppercase_Letter'', ''Ll,Lowercase_Letter'',
      ''Lt,Titlecase_Letter'', ''Lm,Modifier_Letter'', ''Lo,Other_Letter'',
      ''Mn,Nonspacing_Mark'', ''Mc,Spacing_Mark'', ''Me,Enclosing_Mark'',
      ''Nd,Decimal_Number,digit'', ''Nl,Letter_Number'', ''No,Other_Number'', ''Sm,Math_Symbol'',
      ''Sc,Currency_Symbol'', ''Sk,Modifier_Symbol'', ''So,Other_Symbol'',
      ''Pc,Connector_Punctuation'', ''Pd,Dash_Punctuation'', ''Ps,Open_Punctuation'',
      ''Pe,Close_Punctuation'', ''Pi,Initial_Punctuation'', ''Pf,Final_Punctuation'',
      ''Po,Other_Punctuation'', ''Zs,Space_Separator'', ''Zl,Line_Separator'',
      ''Zp,Paragraph_Separator'', ''Cc,Control,cntrl'', ''Cf,Format'', ''Cs,Surrogate'',
      ''Co,Private_Use'', ''LC,Cased_Letter'', ''L,Letter'', ''M,Mark,Combining_Mark'',
      ''N,Number'', ''S,Symbol'', ''P,Punctuation,punct'', ''Z,Separator'', ''C,Other'']"

definition unicode_gc_name_table :: string where
  "unicode_gc_name_table = name_table unicode_gc_names"

definition unicode_gc_table_1 :: "u8 list" where
  "unicode_gc_table_1 =
   [0xfa, 0x18, 0x17, 0x56, 0xd, 0x56, 0x12, 0x13, 0x16, 0xc, 0x16, 0x11, 0x36, 0xe9, 0x2, 0x36,
    0x4c, 0x36, 0xe1, 0x12, 0x12, 0x16, 0x13, 0xe, 0x10, 0xe, 0xe2, 0x12, 0x12, 0xc, 0x13, 0xc,
    0xfa, 0x19, 0x17, 0x16, 0x6d, 0xf, 0x16, 0xe, 0xf, 0x5, 0x14, 0xc, 0x1b, 0xf, 0xe, 0xf, 0xc,
    0x2b, 0xe, 0x2, 0x36, 0xe, 0xb, 0x5, 0x15, 0x4b, 0x16, 0xe1, 0xf, 0xc, 0xc1, 0xe2, 0x10, 0xc,
    0xe2, 0x0, 0xff, 0x30, 0x2, 0xff, 0x8, 0x2, 0xff, 0x27, 0xbf, 0x22, 0x21, 0x2, 0x5f, 0x5f,
    0x21, 0x22, 0x61, 0x2, 0x21, 0x2, 0x41, 0x42, 0x21, 0x2, 0x21, 0x2, 0x9f, 0x7f, 0x2, 0x5f,
    0x5f, 0x21, 0x2, 0x5f, 0x3f, 0x2, 0x5, 0x3f, 0x22, 0x65, 0x1, 0x3]"

definition unicode_gc_table_2 :: "u8 list" where
  "unicode_gc_table_2 =
   [0x2, 0x1, 0x3, 0x2, 0x1, 0x3, 0x2, 0xff, 0x8, 0x2, 0xff, 0xa, 0x2, 0x1, 0x3, 0x2, 0x5f, 0x21,
    0x2, 0xff, 0x32, 0xa2, 0x21, 0x2, 0x21, 0x22, 0x5f, 0x41, 0x2, 0xff, 0x0, 0xe2, 0x3c, 0x5,
    0xe2, 0x13, 0xe4, 0xa, 0x6e, 0xe4, 0x4, 0xee, 0x6, 0x84, 0xce, 0x4, 0xe, 0x4, 0xee, 0x9,
    0xe6, 0x68, 0x7f, 0x4, 0xe, 0x3f, 0x20, 0x4, 0x42, 0x16, 0x1, 0x60, 0x2e, 0x1, 0x16, 0x41,
    0x0, 0x1, 0x0, 0x21, 0x2, 0xe1, 0x9, 0x0, 0xe1, 0x1, 0xe2, 0x1b, 0x3f, 0x2, 0x41, 0x42, 0xff,
    0x10, 0x62, 0x3f, 0xc, 0x5f, 0x3f, 0x2, 0xe1, 0x2b, 0xe2, 0x28, 0xff, 0x1a, 0xf, 0x86, 0x28,
    0xff, 0x2f, 0xff, 0x6, 0x2, 0xff, 0x58, 0x0, 0xe1, 0x1e, 0x20]"

definition unicode_gc_table_3 :: "u8 list" where
  "unicode_gc_table_3 =
   [0x4, 0xb6, 0xe2, 0x21, 0x16, 0x11, 0x20, 0x2f, 0xd, 0x0, 0xe6, 0x25, 0x11, 0x6, 0x16, 0x26,
    0x16, 0x26, 0x16, 0x6, 0xe0, 0x0, 0xe5, 0x13, 0x60, 0x65, 0x36, 0xe0, 0x3, 0xbb, 0x4c, 0x36,
    0xd, 0x36, 0x2f, 0xe6, 0x3, 0x16, 0x1b, 0x0, 0x36, 0xe5, 0x18, 0x4, 0xe5, 0x2, 0xe6, 0xd,
    0xe9, 0x2, 0x76, 0x25, 0x6, 0xe5, 0x5b, 0x16, 0x5, 0xc6, 0x1b, 0xf, 0xa6, 0x24, 0x26, 0xf,
    0x66, 0x25, 0xe9, 0x2, 0x45, 0x2f, 0x5, 0xf6, 0x6, 0x0, 0x1b, 0x5, 0x6, 0xe5, 0x16, 0xe6,
    0x13, 0x20, 0xe5, 0x51, 0xe6, 0x3, 0x5, 0xe0, 0x6, 0xe9, 0x2, 0xe5, 0x19, 0xe6, 0x1, 0x24,
    0xf, 0x56, 0x4, 0x20, 0x6, 0x2d, 0xe5, 0xe, 0x66, 0x4, 0xe6, 0x1, 0x4, 0x46]"

definition unicode_gc_table_4 :: "u8 list" where
  "unicode_gc_table_4 =
   [0x4, 0x86, 0x20, 0xf6, 0x7, 0x0, 0xe5, 0x11, 0x46, 0x20, 0x16, 0x0, 0xe5, 0x3, 0xe0, 0x2d,
    0xe5, 0xd, 0x0, 0xe5, 0xa, 0xe0, 0x3, 0xe6, 0x7, 0x1b, 0xe6, 0x18, 0x7, 0xe5, 0x2e, 0x6, 0x7,
    0x6, 0x5, 0x47, 0xe6, 0x0, 0x67, 0x6, 0x27, 0x5, 0xc6, 0xe5, 0x2, 0x26, 0x36, 0xe9, 0x2,
    0x16, 0x4, 0xe5, 0x7, 0x6, 0x27, 0x0, 0xe5, 0x0, 0x20, 0x25, 0x20, 0xe5, 0xe, 0x0, 0xc5, 0x0,
    0x5, 0x40, 0x65, 0x20, 0x6, 0x5, 0x47, 0x66, 0x20, 0x27, 0x20, 0x27, 0x6, 0x5, 0xe0, 0x0,
    0x7, 0x60, 0x25, 0x0, 0x45, 0x26, 0x20, 0xe9, 0x2, 0x25, 0x2d, 0xab, 0xf, 0xd, 0x5, 0x16,
    0x6, 0x20, 0x26, 0x7, 0x0, 0xa5, 0x60, 0x25, 0x20, 0xe5, 0xe, 0x0]"

definition unicode_gc_table_5 :: "u8 list" where
  "unicode_gc_table_5 =
   [0xc5, 0x0, 0x25, 0x0, 0x25, 0x0, 0x25, 0x20, 0x6, 0x0, 0x47, 0x26, 0x60, 0x26, 0x20, 0x46,
    0x40, 0x6, 0xc0, 0x65, 0x0, 0x5, 0xc0, 0xe9, 0x2, 0x26, 0x45, 0x6, 0x16, 0xe0, 0x2, 0x26,
    0x7, 0x0, 0xe5, 0x1, 0x0, 0x45, 0x0, 0xe5, 0xe, 0x0, 0xc5, 0x0, 0x25, 0x0, 0x85, 0x20, 0x6,
    0x5, 0x47, 0x86, 0x0, 0x26, 0x7, 0x0, 0x27, 0x6, 0x20, 0x5, 0xe0, 0x7, 0x25, 0x26, 0x20,
    0xe9, 0x2, 0x16, 0xd, 0xc0, 0x5, 0xa6, 0x0, 0x6, 0x27, 0x0, 0xe5, 0x0, 0x20, 0x25, 0x20,
    0xe5, 0xe, 0x0, 0xc5, 0x0, 0x25, 0x0, 0x85, 0x20, 0x6, 0x5, 0x7, 0x6, 0x7, 0x66, 0x20, 0x27,
    0x20, 0x27, 0x6, 0xc0, 0x26, 0x7, 0x60, 0x25, 0x0, 0x45, 0x26, 0x20]"

definition unicode_gc_table_6 :: "u8 list" where
  "unicode_gc_table_6 =
   [0xe9, 0x2, 0xf, 0x5, 0xab, 0xe0, 0x2, 0x6, 0x5, 0x0, 0xa5, 0x40, 0x45, 0x0, 0x65, 0x40, 0x25,
    0x0, 0x5, 0x0, 0x25, 0x40, 0x25, 0x40, 0x45, 0x40, 0xe5, 0x4, 0x60, 0x27, 0x6, 0x27, 0x40,
    0x47, 0x0, 0x47, 0x6, 0x20, 0x5, 0xa0, 0x7, 0xe0, 0x6, 0xe9, 0x2, 0x4b, 0xaf, 0xd, 0xf, 0x80,
    0x6, 0x47, 0x6, 0xe5, 0x0, 0x0, 0x45, 0x0, 0xe5, 0xf, 0x0, 0xe5, 0x8, 0x40, 0x5, 0x46, 0x67,
    0x0, 0x46, 0x0, 0x66, 0xc0, 0x26, 0x0, 0x45, 0x80, 0x25, 0x26, 0x20, 0xe9, 0x2, 0xc0, 0x16,
    0xcb, 0xf, 0x5, 0x6, 0x27, 0x16, 0xe5, 0x0, 0x0, 0x45, 0x0, 0xe5, 0xf, 0x0, 0xe5, 0x2, 0x0,
    0x85, 0x20, 0x6, 0x5, 0x7, 0x6, 0x87, 0x0, 0x6, 0x27]"

definition unicode_gc_table_7 :: "u8 list" where
  "unicode_gc_table_7 =
   [0x0, 0x27, 0x26, 0xc0, 0x27, 0xc0, 0x5, 0x0, 0x25, 0x26, 0x20, 0xe9, 0x2, 0x0, 0x25, 0xe0,
    0x5, 0x26, 0x27, 0xe5, 0x1, 0x0, 0x45, 0x0, 0xe5, 0x21, 0x26, 0x5, 0x47, 0x66, 0x0, 0x47,
    0x0, 0x47, 0x6, 0x5, 0xf, 0x60, 0x45, 0x7, 0xcb, 0x45, 0x26, 0x20, 0xe9, 0x2, 0xeb, 0x1, 0xf,
    0xa5, 0x0, 0x6, 0x27, 0x0, 0xe5, 0xa, 0x40, 0xe5, 0x10, 0x0, 0xe5, 0x1, 0x0, 0x5, 0x20, 0xc5,
    0x40, 0x6, 0x60, 0x47, 0x46, 0x0, 0x6, 0x0, 0xe7, 0x0, 0xa0, 0xe9, 0x2, 0x20, 0x27, 0x16,
    0xe0, 0x4, 0xe5, 0x28, 0x6, 0x25, 0xc6, 0x60, 0xd, 0xa5, 0x4, 0xe6, 0x0, 0x16, 0xe9, 0x2,
    0x36, 0xe0, 0x1d, 0x25, 0x0, 0x5, 0x0, 0x85, 0x0, 0xe5, 0x10, 0x0]"

definition unicode_gc_table_8 :: "u8 list" where
  "unicode_gc_table_8 =
   [0x5, 0x0, 0xe5, 0x2, 0x6, 0x25, 0xe6, 0x1, 0x5, 0x20, 0x85, 0x0, 0x4, 0x0, 0xa6, 0x20, 0xe9,
    0x2, 0x20, 0x65, 0xe0, 0x18, 0x5, 0x4f, 0xf6, 0x7, 0xf, 0x16, 0x4f, 0x26, 0xaf, 0xe9, 0x2,
    0xeb, 0x2, 0xf, 0x6, 0xf, 0x6, 0xf, 0x6, 0x12, 0x13, 0x12, 0x13, 0x27, 0xe5, 0x0, 0x0, 0xe5,
    0x1c, 0x60, 0xe6, 0x6, 0x7, 0x86, 0x16, 0x26, 0x85, 0xe6, 0x3, 0x0, 0xe6, 0x1c, 0x0, 0xef,
    0x0, 0x6, 0xaf, 0x0, 0x2f, 0x96, 0x6f, 0x36, 0xe0, 0x1d, 0xe5, 0x23, 0x27, 0x66, 0x7, 0xa6,
    0x7, 0x26, 0x27, 0x26, 0x5, 0xe9, 0x2, 0xb6, 0xa5, 0x27, 0x26, 0x65, 0x46, 0x5, 0x47, 0x25,
    0xc7, 0x45, 0x66, 0xe5, 0x5, 0x6, 0x27, 0x26, 0xa7, 0x6, 0x5, 0x7]"

definition unicode_gc_table_9 :: "u8 list" where
  "unicode_gc_table_9 =
   [0xe9, 0x2, 0x47, 0x6, 0x2f, 0xe1, 0x1e, 0x0, 0x1, 0x80, 0x1, 0x20, 0xe2, 0x23, 0x16, 0x4,
    0x42, 0xe5, 0x80, 0xc1, 0x0, 0x65, 0x20, 0xc5, 0x0, 0x5, 0x0, 0x65, 0x20, 0xe5, 0x21, 0x0,
    0x65, 0x20, 0xe5, 0x19, 0x0, 0x65, 0x20, 0xc5, 0x0, 0x5, 0x0, 0x65, 0x20, 0xe5, 0x7, 0x0,
    0xe5, 0x31, 0x0, 0x65, 0x20, 0xe5, 0x3b, 0x20, 0x46, 0xf6, 0x1, 0xeb, 0xc, 0x40, 0xe5, 0x8,
    0xef, 0x2, 0xa0, 0xe1, 0x4e, 0x20, 0xa2, 0x20, 0x11, 0xe5, 0x81, 0xe4, 0xf, 0x16, 0xe5, 0x9,
    0x17, 0xe5, 0x12, 0x12, 0x13, 0x40, 0xe5, 0x43, 0x56, 0x4a, 0xe5, 0x0, 0xc0, 0xe5, 0x5, 0x0,
    0x65, 0x46, 0xe0, 0x3, 0xe5, 0xa, 0x46, 0x36, 0xe0, 0x1, 0xe5, 0xa, 0x26, 0xe0, 0x4]"

definition unicode_gc_table_10 :: "u8 list" where
  "unicode_gc_table_10 =
   [0xe5, 0x5, 0x0, 0x45, 0x0, 0x26, 0xe0, 0x4, 0xe5, 0x2c, 0x26, 0x7, 0xc6, 0xe7, 0x0, 0x6,
    0x27, 0xe6, 0x3, 0x56, 0x4, 0x56, 0xd, 0x5, 0x6, 0x20, 0xe9, 0x2, 0xa0, 0xeb, 0x2, 0xa0,
    0xb6, 0x11, 0x76, 0x46, 0x1b, 0x0, 0xe9, 0x2, 0xa0, 0xe5, 0x1b, 0x4, 0xe5, 0x2d, 0xc0, 0x85,
    0x26, 0xe5, 0x1a, 0x6, 0x5, 0x80, 0xe5, 0x3e, 0xe0, 0x2, 0xe5, 0x17, 0x0, 0x46, 0x67, 0x26,
    0x47, 0x60, 0x27, 0x6, 0xa7, 0x46, 0x60, 0xf, 0x40, 0x36, 0xe9, 0x2, 0xe5, 0x16, 0x20, 0x85,
    0xe0, 0x3, 0xe5, 0x24, 0x60, 0xe5, 0x12, 0xa0, 0xe9, 0x2, 0xb, 0x40, 0xef, 0x1a, 0xe5, 0xf,
    0x26, 0x27, 0x6, 0x20, 0x36, 0xe5, 0x2d, 0x7, 0x6, 0x7, 0xc6, 0x0, 0x6, 0x7]"

definition unicode_gc_table_11 :: "u8 list" where
  "unicode_gc_table_11 =
   [0x6, 0x27, 0xe6, 0x0, 0xa7, 0xe6, 0x2, 0x20, 0x6, 0xe9, 0x2, 0xa0, 0xe9, 0x2, 0xa0, 0xd6,
    0x4, 0xb6, 0x20, 0xe6, 0x6, 0x8, 0x26, 0xe0, 0x37, 0x66, 0x7, 0xe5, 0x27, 0x6, 0x7, 0x86,
    0x7, 0x6, 0x87, 0x6, 0x27, 0xc5, 0x60, 0xe9, 0x2, 0xd6, 0xef, 0x2, 0xe6, 0x1, 0xef, 0x1,
    0x40, 0x26, 0x7, 0xe5, 0x16, 0x7, 0x66, 0x27, 0x26, 0x7, 0x46, 0x25, 0xe9, 0x2, 0xe5, 0x24,
    0x6, 0x7, 0x26, 0x47, 0x6, 0x7, 0x46, 0x27, 0xe0, 0x0, 0x76, 0xe5, 0x1c, 0xe7, 0x0, 0xe6,
    0x0, 0x27, 0x26, 0x40, 0x96, 0xe9, 0x2, 0x40, 0x45, 0xe9, 0x2, 0xe5, 0x16, 0xa4, 0x36, 0xe2,
    0x1, 0xc0, 0xe1, 0x23, 0x20, 0x41, 0xf6, 0x0, 0xe0, 0x0, 0x46, 0x16, 0xe6, 0x5]"

definition unicode_gc_table_12 :: "u8 list" where
  "unicode_gc_table_12 =
   [0x7, 0xc6, 0x65, 0x6, 0xa5, 0x6, 0x25, 0x7, 0x26, 0x5, 0x80, 0xe2, 0x24, 0xe4, 0x37, 0xe2,
    0x5, 0x4, 0xe2, 0x1a, 0xe4, 0x1d, 0xe6, 0x32, 0x0, 0x86, 0xff, 0x80, 0xe, 0xe2, 0x0, 0xff,
    0x5a, 0xe2, 0x0, 0xe1, 0x0, 0xa2, 0x20, 0xa1, 0x20, 0xe2, 0x0, 0xe1, 0x0, 0xe2, 0x0, 0xe1,
    0x0, 0xa2, 0x20, 0xa1, 0x20, 0xe2, 0x0, 0x0, 0x1, 0x0, 0x1, 0x0, 0x1, 0x0, 0x3f, 0xc2, 0xe1,
    0x0, 0xe2, 0x6, 0x20, 0xe2, 0x0, 0xe3, 0x0, 0xe2, 0x0, 0xe3, 0x0, 0xe2, 0x0, 0xe3, 0x0, 0x82,
    0x0, 0x22, 0x61, 0x3, 0xe, 0x2, 0x4e, 0x42, 0x0, 0x22, 0x61, 0x3, 0x4e, 0x62, 0x20, 0x22,
    0x61, 0x0, 0x4e, 0xe2, 0x0, 0x81, 0x4e, 0x20, 0x42, 0x0, 0x22, 0x61]"

definition unicode_gc_table_13 :: "u8 list" where
  "unicode_gc_table_13 =
   [0x3, 0x2e, 0x0, 0xf7, 0x3, 0x9b, 0xb1, 0x36, 0x14, 0x15, 0x12, 0x34, 0x15, 0x12, 0x14, 0xf6,
    0x0, 0x18, 0x19, 0x9b, 0x17, 0xf6, 0x1, 0x14, 0x15, 0x76, 0x30, 0x56, 0xc, 0x12, 0x13, 0xf6,
    0x3, 0xc, 0x16, 0x10, 0xf6, 0x2, 0x17, 0x9b, 0x0, 0xfb, 0x2, 0xb, 0x4, 0x20, 0xab, 0x4c,
    0x12, 0x13, 0x4, 0xeb, 0x2, 0x4c, 0x12, 0x13, 0x0, 0xe4, 0x5, 0x40, 0xed, 0x18, 0xe0, 0x8,
    0xe6, 0x5, 0x68, 0x6, 0x48, 0xe6, 0x4, 0xe0, 0x7, 0x2f, 0x1, 0x6f, 0x1, 0x2f, 0x2, 0x41,
    0x22, 0x41, 0x2, 0xf, 0x1, 0x2f, 0xc, 0x81, 0xaf, 0x1, 0xf, 0x1, 0xf, 0x1, 0xf, 0x61, 0xf,
    0x2, 0x61, 0x2, 0x65, 0x2, 0x2f, 0x22, 0x21, 0x8c, 0x3f, 0x42, 0xf, 0xc]"

definition unicode_gc_table_14 :: "u8 list" where
  "unicode_gc_table_14 =
   [0x2f, 0x2, 0xf, 0xeb, 0x8, 0xea, 0x1b, 0x3f, 0x6a, 0xb, 0x2f, 0x60, 0x8c, 0x8f, 0x2c, 0x6f,
    0xc, 0x2f, 0xc, 0x2f, 0xc, 0xcf, 0xc, 0xef, 0x17, 0x2c, 0x2f, 0xc, 0xf, 0xc, 0xef, 0x17,
    0xec, 0x80, 0x84, 0xef, 0x0, 0x12, 0x13, 0x12, 0x13, 0xef, 0xc, 0x2c, 0xcf, 0x12, 0x13, 0xef,
    0x49, 0xc, 0xef, 0x16, 0xec, 0x11, 0xef, 0x20, 0xac, 0xef, 0x3d, 0xe0, 0x11, 0xef, 0x3, 0xe0,
    0xd, 0xeb, 0x34, 0xef, 0x46, 0xeb, 0xe, 0xef, 0x80, 0x2f, 0xc, 0xef, 0x1, 0xc, 0xef, 0x2e,
    0xec, 0x0, 0xef, 0x67, 0xc, 0xef, 0x80, 0x70, 0x12, 0x13, 0x12, 0x13, 0x12, 0x13, 0x12, 0x13,
    0x12, 0x13, 0x12, 0x13, 0x12, 0x13, 0xeb, 0x16, 0xef, 0x24, 0x8c, 0x12, 0x13, 0xec, 0x17]"

definition unicode_gc_table_15 :: "u8 list" where
  "unicode_gc_table_15 =
   [0x12, 0x13, 0x12, 0x13, 0x12, 0x13, 0x12, 0x13, 0x12, 0x13, 0xec, 0x8, 0xef, 0x80, 0x78,
    0xec, 0x7b, 0x12, 0x13, 0x12, 0x13, 0x12, 0x13, 0x12, 0x13, 0x12, 0x13, 0x12, 0x13, 0x12,
    0x13, 0x12, 0x13, 0x12, 0x13, 0x12, 0x13, 0x12, 0x13, 0xec, 0x37, 0x12, 0x13, 0x12, 0x13,
    0xec, 0x18, 0x12, 0x13, 0xec, 0x80, 0x7a, 0xef, 0x28, 0xec, 0xd, 0x2f, 0xac, 0xef, 0x1f,
    0x20, 0xef, 0x18, 0x0, 0xef, 0x61, 0xe1, 0x27, 0x0, 0xe2, 0x27, 0x0, 0x5f, 0x21, 0x22, 0xdf,
    0x41, 0x2, 0x3f, 0x2, 0x3f, 0x82, 0x24, 0x41, 0x2, 0xff, 0x5a, 0x2, 0xaf, 0x7f, 0x46, 0x3f,
    0x80, 0x76, 0xb, 0x36, 0xe2, 0x1e, 0x0, 0x2, 0x80, 0x2, 0x20, 0xe5, 0x30, 0xc0, 0x4, 0x16,
    0xe0, 0x6]"

definition unicode_gc_table_16 :: "u8 list" where
  "unicode_gc_table_16 =
   [0x6, 0xe5, 0xf, 0xe0, 0x1, 0xc5, 0x0, 0xc5, 0x0, 0xc5, 0x0, 0xc5, 0x0, 0xc5, 0x0, 0xc5, 0x0,
    0xc5, 0x0, 0xc5, 0x0, 0xe6, 0x18, 0x36, 0x14, 0x15, 0x14, 0x15, 0x56, 0x14, 0x15, 0x16, 0x14,
    0x15, 0xf6, 0x1, 0x11, 0x36, 0x11, 0x16, 0x14, 0x15, 0x36, 0x14, 0x15, 0x12, 0x13, 0x12,
    0x13, 0x12, 0x13, 0x12, 0x13, 0x96, 0x4, 0xf6, 0x2, 0x31, 0x76, 0x11, 0x16, 0x12, 0xf6, 0x5,
    0x2f, 0x16, 0xe0, 0x25, 0xef, 0x12, 0x0, 0xef, 0x51, 0xe0, 0x4, 0xef, 0x80, 0x4e, 0xe0, 0x12,
    0xef, 0x4, 0x60, 0x17, 0x56, 0xf, 0x4, 0x5, 0xa, 0x12, 0x13, 0x12, 0x13, 0x12, 0x13, 0x12,
    0x13, 0x12, 0x13, 0x2f, 0x12, 0x13, 0x12, 0x13, 0x12, 0x13, 0x12, 0x13, 0x11, 0x12]"

definition unicode_gc_table_17 :: "u8 list" where
  "unicode_gc_table_17 =
   [0x33, 0xf, 0xea, 0x1, 0x66, 0x27, 0x11, 0x84, 0x2f, 0x4a, 0x4, 0x5, 0x16, 0x2f, 0x0, 0xe5,
    0x4e, 0x20, 0x26, 0x2e, 0x24, 0x5, 0x11, 0xe5, 0x52, 0x16, 0x44, 0x5, 0x80, 0xe5, 0x23, 0x0,
    0xe5, 0x56, 0x0, 0x2f, 0x6b, 0xef, 0x2, 0xe5, 0x18, 0xef, 0x1c, 0xe0, 0x4, 0xe5, 0x8, 0xef,
    0x17, 0x0, 0xeb, 0x2, 0xef, 0x16, 0xeb, 0x0, 0xf, 0xeb, 0x7, 0xef, 0x18, 0xeb, 0x2, 0xef,
    0x1f, 0xeb, 0x7, 0xef, 0x80, 0xb8, 0xe5, 0x99, 0x38, 0xef, 0x38, 0xe5, 0xc0, 0x11, 0x75,
    0x40, 0xe5, 0xd, 0x4, 0xe5, 0x83, 0xef, 0x40, 0xef, 0x2f, 0xe0, 0x1, 0xe5, 0x20, 0xa4, 0x36,
    0xe5, 0x80, 0x84, 0x4, 0x56, 0xe5, 0x8, 0xe9, 0x2, 0x25, 0xe0, 0xc, 0xff, 0x26, 0x5]"

definition unicode_gc_table_18 :: "u8 list" where
  "unicode_gc_table_18 =
   [0x6, 0x48, 0x16, 0xe6, 0x2, 0x16, 0x4, 0xff, 0x14, 0x24, 0x26, 0xe5, 0x3e, 0xea, 0x2, 0x26,
    0xb6, 0xe0, 0x0, 0xee, 0xf, 0xe4, 0x1, 0x2e, 0xff, 0x6, 0x22, 0xff, 0x36, 0x4, 0xe2, 0x0,
    0x9f, 0xff, 0x2, 0x4, 0x2e, 0x7f, 0x5, 0x7f, 0x22, 0xff, 0xd, 0x61, 0x2, 0x81, 0x2, 0xff,
    0x2, 0x20, 0x5f, 0x41, 0x2, 0x3f, 0xe0, 0x22, 0x3f, 0x5, 0x24, 0x2, 0xc5, 0x6, 0x45, 0x6,
    0x65, 0x6, 0xe5, 0xf, 0x27, 0x26, 0x7, 0x6f, 0x6, 0x40, 0xab, 0x2f, 0xd, 0xf, 0xa0, 0xe5,
    0x2c, 0x76, 0xe0, 0x0, 0x27, 0xe5, 0x2a, 0xe7, 0x8, 0x26, 0xe0, 0x0, 0x36, 0xe9, 0x2, 0xa0,
    0xe6, 0xa, 0xa5, 0x56, 0x5, 0x16, 0x25, 0x6, 0xe9, 0x2, 0xe5, 0x14, 0xe6, 0x0]"

definition unicode_gc_table_19 :: "u8 list" where
  "unicode_gc_table_19 =
   [0x36, 0xe5, 0xf, 0xe6, 0x3, 0x27, 0xe0, 0x3, 0x16, 0xe5, 0x15, 0x40, 0x46, 0x7, 0xe5, 0x27,
    0x6, 0x27, 0x66, 0x27, 0x26, 0x47, 0xf6, 0x5, 0x0, 0x4, 0xe9, 0x2, 0x60, 0x36, 0x85, 0x6,
    0x4, 0xe5, 0x1, 0xe9, 0x2, 0x85, 0x0, 0xe5, 0x21, 0xa6, 0x27, 0x26, 0x27, 0x26, 0xe0, 0x1,
    0x45, 0x6, 0xe5, 0x0, 0x6, 0x7, 0x20, 0xe9, 0x2, 0x20, 0x76, 0xe5, 0x8, 0x4, 0xa5, 0x4f, 0x5,
    0x7, 0x6, 0x7, 0xe5, 0x2a, 0x6, 0x5, 0x46, 0x25, 0x26, 0x85, 0x26, 0x5, 0x6, 0x5, 0xe0, 0x10,
    0x25, 0x4, 0x36, 0xe5, 0x3, 0x7, 0x26, 0x27, 0x36, 0x5, 0x24, 0x7, 0x6, 0xe0, 0x2, 0xa5,
    0x20, 0xa5, 0x20, 0xa5, 0xe0, 0x1, 0xc5, 0x0, 0xc5, 0x0, 0xe2, 0x23]"

definition unicode_gc_table_20 :: "u8 list" where
  "unicode_gc_table_20 =
   [0xe, 0x64, 0xe2, 0x1, 0x4, 0x2e, 0x60, 0xe2, 0x48, 0xe5, 0x1b, 0x27, 0x6, 0x27, 0x6, 0x27,
    0x16, 0x7, 0x6, 0x20, 0xe9, 0x2, 0xa0, 0xe5, 0xab, 0x1c, 0xe0, 0x4, 0xe5, 0xf, 0x60, 0xe5,
    0x29, 0x60, 0xfc, 0x87, 0x78, 0xfd, 0x98, 0x78, 0xe5, 0x80, 0xe6, 0x20, 0xe5, 0x62, 0xe0,
    0x1e, 0xc2, 0xe0, 0x4, 0x82, 0x80, 0x5, 0x6, 0xe5, 0x2, 0xc, 0xe5, 0x5, 0x0, 0x85, 0x0, 0x5,
    0x0, 0x25, 0x0, 0x25, 0x0, 0xe5, 0x64, 0xee, 0x8, 0xe0, 0x9, 0xe5, 0x80, 0xe3, 0x13, 0x12,
    0xe0, 0x8, 0xe5, 0x38, 0x20, 0xe5, 0x2e, 0xe0, 0x20, 0xe5, 0x4, 0xd, 0xf, 0x20, 0xe6, 0x8,
    0xd6, 0x12, 0x13, 0x16, 0xa0, 0xe6, 0x8, 0x16, 0x31, 0x30, 0x12, 0x13, 0x12, 0x13]"

definition unicode_gc_table_21 :: "u8 list" where
  "unicode_gc_table_21 =
   [0x12, 0x13, 0x12, 0x13, 0x12, 0x13, 0x12, 0x13, 0x12, 0x13, 0x12, 0x13, 0x36, 0x12, 0x13,
    0x76, 0x50, 0x56, 0x0, 0x76, 0x11, 0x12, 0x13, 0x12, 0x13, 0x12, 0x13, 0x56, 0xc, 0x11, 0x4c,
    0x0, 0x16, 0xd, 0x36, 0x60, 0x85, 0x0, 0xe5, 0x7f, 0x20, 0x1b, 0x0, 0x56, 0xd, 0x56, 0x12,
    0x13, 0x16, 0xc, 0x16, 0x11, 0x36, 0xe9, 0x2, 0x36, 0x4c, 0x36, 0xe1, 0x12, 0x12, 0x16, 0x13,
    0xe, 0x10, 0xe, 0xe2, 0x12, 0x12, 0xc, 0x13, 0xc, 0x12, 0x13, 0x16, 0x12, 0x13, 0x36, 0xe5,
    0x2, 0x4, 0xe5, 0x25, 0x24, 0xe5, 0x17, 0x40, 0xa5, 0x20, 0xa5, 0x20, 0xa5, 0x20, 0x45, 0x40,
    0x2d, 0xc, 0xe, 0xf, 0x2d, 0x0, 0xf, 0x6c, 0x2f, 0xe0, 0x2, 0x5b, 0x2f, 0x20, 0xe5, 0x4]"

definition unicode_gc_table_22 :: "u8 list" where
  "unicode_gc_table_22 =
   [0x0, 0xe5, 0x12, 0x0, 0xe5, 0xb, 0x0, 0x25, 0x0, 0xe5, 0x7, 0x20, 0xe5, 0x6, 0xe0, 0x1a,
    0xe5, 0x73, 0x80, 0x56, 0x60, 0xeb, 0x25, 0x40, 0xef, 0x1, 0xea, 0x2d, 0x6b, 0xef, 0x9, 0x2b,
    0x4f, 0x0, 0xef, 0x5, 0x40, 0xf, 0xe0, 0x27, 0xef, 0x25, 0x6, 0xe0, 0x7a, 0xe5, 0x15, 0x40,
    0xe5, 0x29, 0xe0, 0x7, 0x6, 0xeb, 0x13, 0x60, 0xe5, 0x18, 0x6b, 0xe0, 0x1, 0xe5, 0xc, 0xa,
    0xe5, 0x0, 0xa, 0x80, 0xe5, 0x1e, 0x86, 0x80, 0xe5, 0x16, 0x0, 0x16, 0xe5, 0x1c, 0x60, 0xe5,
    0x0, 0x16, 0x8a, 0xe0, 0x22, 0xe1, 0x20, 0xe2, 0x20, 0xe5, 0x46, 0x20, 0xe9, 0x2, 0xa0, 0xe1,
    0x1c, 0x60, 0xe2, 0x1c, 0x60, 0xe5, 0x20, 0xe0, 0x0, 0xe5, 0x2c, 0xe0, 0x3, 0x16]"

definition unicode_gc_table_23 :: "u8 list" where
  "unicode_gc_table_23 =
   [0xe0, 0x80, 0x8, 0xe5, 0x80, 0xaf, 0xe0, 0x1, 0xe5, 0xe, 0xe0, 0x2, 0xe5, 0x0, 0xe0, 0x80,
    0x10, 0xa5, 0x20, 0x5, 0x0, 0xe5, 0x24, 0x0, 0x25, 0x40, 0x5, 0x20, 0xe5, 0xf, 0x0, 0x16,
    0xeb, 0x0, 0xe5, 0xf, 0x2f, 0xcb, 0xe5, 0x17, 0xe0, 0x0, 0xeb, 0x1, 0xe0, 0x28, 0xe5, 0xb,
    0x0, 0x25, 0x80, 0x8b, 0xe5, 0xe, 0xab, 0x40, 0x16, 0xe5, 0x12, 0x80, 0x16, 0xe0, 0x38, 0xe5,
    0x30, 0x60, 0x2b, 0x25, 0xeb, 0x8, 0x20, 0xeb, 0x26, 0x5, 0x46, 0x0, 0x26, 0x80, 0x66, 0x65,
    0x0, 0x45, 0x0, 0xe5, 0x15, 0x20, 0x46, 0x60, 0x6, 0xeb, 0x1, 0xc0, 0xf6, 0x1, 0xc0, 0xe5,
    0x15, 0x2b, 0x16, 0xe5, 0x15, 0x4b, 0xe0, 0x18, 0xe5, 0x0, 0xf, 0xe5, 0x14, 0x26]"

definition unicode_gc_table_24 :: "u8 list" where
  "unicode_gc_table_24 =
   [0x60, 0x8b, 0xd6, 0xe0, 0x1, 0xe5, 0x2e, 0x40, 0xd6, 0xe5, 0xe, 0x20, 0xeb, 0x0, 0xe5, 0xb,
    0x80, 0xeb, 0x0, 0xe5, 0xa, 0xc0, 0x76, 0xe0, 0x4, 0xcb, 0xe0, 0x48, 0xe5, 0x41, 0xe0, 0x2f,
    0xe1, 0x2b, 0xe0, 0x5, 0xe2, 0x2b, 0xc0, 0xab, 0xe5, 0x1c, 0x66, 0xe0, 0x0, 0xe9, 0x2, 0xe0,
    0x80, 0x9e, 0xeb, 0x17, 0x0, 0xe5, 0x22, 0x0, 0x26, 0x11, 0x20, 0x25, 0xe0, 0x46, 0xe5, 0x15,
    0xeb, 0x2, 0x5, 0xe0, 0x0, 0xe5, 0xe, 0xe6, 0x3, 0x6b, 0x96, 0xe0, 0x4e, 0xe5, 0xd, 0xcb,
    0xe0, 0xc, 0xe5, 0xf, 0xe0, 0x1, 0x7, 0x6, 0x7, 0xe5, 0x2d, 0xe6, 0x7, 0xd6, 0x60, 0xeb, 0xc,
    0xe9, 0x2, 0xe0, 0x7, 0x46, 0x7, 0xe5, 0x25, 0x47, 0x66, 0x27, 0x26, 0x36]"

definition unicode_gc_table_25 :: "u8 list" where
  "unicode_gc_table_25 =
   [0x1b, 0x76, 0xe0, 0x3, 0x1b, 0x20, 0xe5, 0x11, 0xc0, 0xe9, 0x2, 0xa0, 0x46, 0xe5, 0x1c, 0x86,
    0x7, 0xe6, 0x0, 0x0, 0xe9, 0x2, 0x76, 0x5, 0x27, 0x5, 0xe0, 0x0, 0xe5, 0x1b, 0x6, 0x36, 0x5,
    0xe0, 0x1, 0x26, 0x7, 0xe5, 0x28, 0x47, 0xe6, 0x1, 0x27, 0x65, 0x76, 0x66, 0x16, 0x7, 0x6,
    0xe9, 0x2, 0x5, 0x16, 0x5, 0x56, 0x0, 0xeb, 0xc, 0xe0, 0x3, 0xe5, 0xa, 0x0, 0xe5, 0x11, 0x47,
    0x46, 0x27, 0x6, 0x7, 0x26, 0xb6, 0x6, 0xe0, 0x39, 0xc5, 0x0, 0x5, 0x0, 0x65, 0x0, 0xe5, 0x7,
    0x0, 0xe5, 0x2, 0x16, 0xa0, 0xe5, 0x27, 0x6, 0x47, 0xe6, 0x0, 0x80, 0xe9, 0x2, 0xa0, 0x26,
    0x27, 0x0, 0xe5, 0x0, 0x20, 0x25, 0x20, 0xe5, 0xe, 0x0, 0xc5]"

definition unicode_gc_table_26 :: "u8 list" where
  "unicode_gc_table_26 =
   [0x0, 0x25, 0x0, 0x85, 0x0, 0x26, 0x5, 0x27, 0x6, 0x67, 0x20, 0x27, 0x20, 0x47, 0x20, 0x5,
    0xa0, 0x7, 0x80, 0x85, 0x27, 0x20, 0xc6, 0x40, 0x86, 0xe0, 0x80, 0x3, 0xe5, 0x2d, 0x47, 0xe6,
    0x0, 0x27, 0x46, 0x7, 0x6, 0x65, 0x96, 0xe9, 0x2, 0x36, 0x0, 0x16, 0x6, 0x45, 0xe0, 0x16,
    0xe5, 0x28, 0x47, 0xa6, 0x7, 0x6, 0x67, 0x26, 0x7, 0x26, 0x25, 0x16, 0x5, 0xe0, 0x0, 0xe9,
    0x2, 0xe0, 0x80, 0x1e, 0xe5, 0x27, 0x47, 0x66, 0x20, 0x67, 0x26, 0x7, 0x26, 0xf6, 0xf, 0x65,
    0x26, 0xe0, 0x1a, 0xe5, 0x28, 0x47, 0xe6, 0x0, 0x27, 0x6, 0x7, 0x26, 0x56, 0x5, 0xe0, 0x3,
    0xe9, 0x2, 0xa0, 0xf6, 0x5, 0xe0, 0xb, 0xe5, 0x23, 0x6, 0x7, 0x6, 0x27, 0xa6]"

definition unicode_gc_table_27 :: "u8 list" where
  "unicode_gc_table_27 =
   [0x7, 0x6, 0x5, 0xc0, 0xe9, 0x2, 0xe0, 0x2e, 0xe5, 0x13, 0x20, 0x46, 0x27, 0x66, 0x7, 0x86,
    0x60, 0xe9, 0x2, 0x2b, 0x56, 0xf, 0xe0, 0x80, 0x38, 0xe5, 0x24, 0x47, 0xe6, 0x1, 0x7, 0x26,
    0x16, 0xe0, 0x5c, 0xe1, 0x18, 0xe2, 0x18, 0xe9, 0x2, 0xeb, 0x1, 0xe0, 0x4, 0xe5, 0x0, 0x20,
    0x5, 0x20, 0xe5, 0x0, 0x0, 0x25, 0x0, 0xe5, 0x10, 0xa7, 0x0, 0x27, 0x20, 0x26, 0x7, 0x6, 0x5,
    0x7, 0x5, 0x7, 0x6, 0x56, 0xe0, 0x1, 0xe9, 0x2, 0xe0, 0x3e, 0xe5, 0x0, 0x20, 0xe5, 0x1f,
    0x47, 0x66, 0x20, 0x26, 0x67, 0x6, 0x5, 0x16, 0x5, 0x7, 0xe0, 0x13, 0x5, 0xe6, 0x2, 0xe5,
    0x20, 0xa6, 0x7, 0x5, 0x66, 0xf6, 0x0, 0x6, 0xe0, 0x0, 0x5, 0xa6, 0x27]"

definition unicode_gc_table_28 :: "u8 list" where
  "unicode_gc_table_28 =
   [0x46, 0xe5, 0x26, 0xe6, 0x5, 0x7, 0x26, 0x56, 0x5, 0x96, 0xe0, 0x15, 0xe5, 0x31, 0xe0, 0x80,
    0x7f, 0xe5, 0x1, 0x0, 0xe5, 0x1d, 0x7, 0xc6, 0x0, 0xa6, 0x7, 0x6, 0x5, 0x96, 0xe0, 0x2, 0xe9,
    0x2, 0xeb, 0xb, 0x40, 0x36, 0xe5, 0x16, 0x20, 0xe6, 0xe, 0x0, 0x7, 0xc6, 0x7, 0x26, 0x7,
    0x26, 0xe0, 0x41, 0xc5, 0x0, 0x25, 0x0, 0xe5, 0x1e, 0xa6, 0x40, 0x6, 0x0, 0x26, 0x0, 0xc6,
    0x5, 0x6, 0xe0, 0x0, 0xe9, 0x2, 0xa0, 0xa5, 0x0, 0x25, 0x0, 0xe5, 0x18, 0x87, 0x0, 0x26, 0x0,
    0x27, 0x6, 0x7, 0x6, 0x5, 0xc0, 0xe9, 0x2, 0xe0, 0x80, 0xae, 0xe5, 0xb, 0x26, 0x27, 0x36,
    0xe0, 0x80, 0x2f, 0x5, 0xe0, 0x7, 0xeb, 0xd, 0xef, 0x0, 0x6d, 0xef, 0x9]"

definition unicode_gc_table_29 :: "u8 list" where
  "unicode_gc_table_29 =
   [0xe0, 0x5, 0x16, 0xe5, 0x83, 0x12, 0xe0, 0x5e, 0xea, 0x67, 0x0, 0x96, 0xe0, 0x3, 0xe5, 0x80,
    0x3c, 0xe0, 0x8a, 0x34, 0xe5, 0x83, 0xa7, 0x0, 0xfb, 0x1, 0xe0, 0x8f, 0x3f, 0xe5, 0x81, 0xbf,
    0xe0, 0xa1, 0x31, 0xe5, 0x81, 0xb1, 0xc0, 0xe5, 0x17, 0x0, 0xe9, 0x2, 0x60, 0x36, 0xe0, 0x58,
    0xe5, 0x16, 0x20, 0x86, 0x16, 0xe0, 0x2, 0xe5, 0x28, 0xc6, 0x96, 0x6f, 0x64, 0x16, 0xf, 0xe0,
    0x2, 0xe9, 0x2, 0x0, 0xcb, 0x0, 0xe5, 0xd, 0x80, 0xe5, 0xb, 0xe0, 0x82, 0x28, 0xe1, 0x18,
    0xe2, 0x18, 0xeb, 0xf, 0x76, 0xe0, 0x5d, 0xe5, 0x43, 0x60, 0x6, 0x5, 0xe7, 0x2f, 0xc0, 0x66,
    0xe4, 0x5, 0xe0, 0x38, 0x24, 0x16, 0x4, 0x6, 0xe0, 0x3, 0x27, 0xe0, 0x6, 0xe5, 0x97, 0x70]"

definition unicode_gc_table_30 :: "u8 list" where
  "unicode_gc_table_30 =
   [0xe0, 0x0, 0xe5, 0x84, 0x4e, 0xe0, 0x22, 0xe5, 0x1, 0xe0, 0xa2, 0x6f, 0xe5, 0x80, 0x97, 0xe0,
    0x29, 0x45, 0xe0, 0x9, 0x65, 0xe0, 0x0, 0xe5, 0x81, 0x4, 0xe0, 0x88, 0x7c, 0xe5, 0x63, 0x80,
    0xe5, 0x5, 0x40, 0xe5, 0x1, 0xc0, 0xe5, 0x2, 0x20, 0xf, 0x26, 0x16, 0x7b, 0xe0, 0x92, 0xd4,
    0xef, 0x80, 0x6e, 0xe0, 0x2, 0xef, 0x1f, 0x20, 0xef, 0x34, 0x27, 0x46, 0x4f, 0xa7, 0xfb, 0x0,
    0xe6, 0x0, 0x2f, 0xc6, 0xef, 0x16, 0x66, 0xef, 0x33, 0xe0, 0xf, 0xef, 0x3a, 0x46, 0xf, 0xe0,
    0x80, 0x12, 0xeb, 0xc, 0xe0, 0x4, 0xef, 0x4f, 0xe0, 0x1, 0xeb, 0x11, 0xe0, 0x7f, 0xe1, 0x12,
    0xe2, 0x12, 0xe1, 0x12, 0xc2, 0x0, 0xe2, 0xa, 0xe1, 0x12, 0xe2, 0x12, 0x1, 0x0]"

definition unicode_gc_table_31 :: "u8 list" where
  "unicode_gc_table_31 =
   [0x21, 0x20, 0x1, 0x20, 0x21, 0x20, 0x61, 0x0, 0xe1, 0x0, 0x62, 0x0, 0x2, 0x0, 0xc2, 0x0,
    0xe2, 0x3, 0xe1, 0x12, 0xe2, 0x12, 0x21, 0x0, 0x61, 0x20, 0xe1, 0x0, 0x0, 0xc1, 0x0, 0xe2,
    0x12, 0x21, 0x0, 0x61, 0x0, 0x81, 0x0, 0x1, 0x40, 0xc1, 0x0, 0xe2, 0x12, 0xe1, 0x12, 0xe2,
    0x12, 0xe1, 0x12, 0xe2, 0x12, 0xe1, 0x12, 0xe2, 0x12, 0xe1, 0x12, 0xe2, 0x12, 0xe1, 0x12,
    0xe2, 0x12, 0xe1, 0x12, 0xe2, 0x14, 0x20, 0xe1, 0x11, 0xc, 0xe2, 0x11, 0xc, 0xa2, 0xe1, 0x11,
    0xc, 0xe2, 0x11, 0xc, 0xa2, 0xe1, 0x11, 0xc, 0xe2, 0x11, 0xc, 0xa2, 0xe1, 0x11, 0xc, 0xe2,
    0x11, 0xc, 0xa2, 0xe1, 0x11, 0xc, 0xe2, 0x11, 0xc, 0xa2, 0x3f, 0x20, 0xe9, 0x2a, 0xef, 0x81,
    0x78]"

definition unicode_gc_table_32 :: "u8 list" where
  "unicode_gc_table_32 =
   [0xe6, 0x2f, 0x6f, 0xe6, 0x2a, 0xef, 0x0, 0x6, 0xef, 0x6, 0x6, 0x2f, 0x96, 0xe0, 0x7, 0x86,
    0x0, 0xe6, 0x7, 0xe0, 0x84, 0xc8, 0xc6, 0x0, 0xe6, 0x9, 0x20, 0xc6, 0x0, 0x26, 0x0, 0x86,
    0xe0, 0x80, 0x4d, 0xe5, 0x25, 0x40, 0xc6, 0xc4, 0x20, 0xe9, 0x2, 0x60, 0x5, 0xf, 0xe0, 0x80,
    0xe8, 0xe5, 0x24, 0x66, 0xe9, 0x2, 0x80, 0xd, 0xe0, 0x84, 0x78, 0xe5, 0x80, 0x3d, 0x20, 0xeb,
    0x1, 0xc6, 0xe0, 0x21, 0xe1, 0x1a, 0xe2, 0x1a, 0xc6, 0x4, 0x60, 0xe9, 0x2, 0x60, 0x36, 0xe0,
    0x82, 0x89, 0xeb, 0x33, 0xf, 0x4b, 0xd, 0x6b, 0xe0, 0x44, 0xeb, 0x25, 0xf, 0xeb, 0x7, 0xe0,
    0x80, 0x3a, 0x65, 0x0, 0xe5, 0x13, 0x0, 0x25, 0x0, 0x5, 0x20, 0x5, 0x0, 0xe5, 0x2]"

definition unicode_gc_table_33 :: "u8 list" where
  "unicode_gc_table_33 =
   [0x0, 0x65, 0x0, 0x5, 0x0, 0x5, 0xa0, 0x5, 0x60, 0x5, 0x0, 0x5, 0x0, 0x5, 0x0, 0x45, 0x0,
    0x25, 0x0, 0x5, 0x20, 0x5, 0x0, 0x5, 0x0, 0x5, 0x0, 0x5, 0x0, 0x5, 0x0, 0x25, 0x0, 0x5, 0x20,
    0x65, 0x0, 0xc5, 0x0, 0x65, 0x0, 0x65, 0x0, 0x5, 0x0, 0xe5, 0x2, 0x0, 0xe5, 0x9, 0x80, 0x45,
    0x0, 0x85, 0x0, 0xe5, 0x9, 0xe0, 0x2c, 0x2c, 0xe0, 0x80, 0x86, 0xef, 0x24, 0x60, 0xef, 0x5c,
    0xe0, 0x4, 0xef, 0x7, 0x20, 0xef, 0x7, 0x0, 0xef, 0x7, 0x0, 0xef, 0x1d, 0xe0, 0x2, 0xeb, 0x5,
    0xef, 0x80, 0x19, 0xe0, 0x30, 0xef, 0x15, 0xe0, 0x5, 0xef, 0x24, 0x60, 0xef, 0x1, 0xc0, 0x2f,
    0xe0, 0x6, 0xaf, 0xe0, 0x80, 0x12, 0xef, 0x80, 0x73]"

definition unicode_gc_table_34 :: "u8 list" where
  "unicode_gc_table_34 =
   [0x8e, 0xef, 0x82, 0x50, 0xe0, 0x0, 0xef, 0x5, 0x40, 0xef, 0x5, 0x40, 0xef, 0x6c, 0xe0, 0x4,
    0xef, 0x51, 0xc0, 0xef, 0x4, 0xe0, 0xc, 0xef, 0x4, 0x60, 0xef, 0x30, 0xe0, 0x0, 0xef, 0x2,
    0xa0, 0xef, 0x20, 0xe0, 0x0, 0xef, 0x16, 0x20, 0x2f, 0xe0, 0x46, 0xef, 0x71, 0x0, 0xef, 0x4a,
    0x0, 0xef, 0x7f, 0xe0, 0x4, 0xef, 0x6, 0x20, 0x8f, 0x40, 0x4f, 0x80, 0xcf, 0xe0, 0x1, 0xef,
    0x11, 0xc0, 0xcf, 0xe0, 0x1, 0x4f, 0xe0, 0x5, 0xcf, 0xe0, 0x21, 0xef, 0x80, 0xb, 0x0, 0xef,
    0x2f, 0xe0, 0x1d, 0xe9, 0x2, 0xe0, 0x83, 0x7e, 0xe5, 0xc0, 0x66, 0x56, 0xe0, 0x1a, 0xe5,
    0x8f, 0xad, 0xe0, 0x3, 0xe5, 0x80, 0x56, 0x20, 0xe5, 0x95, 0xfa, 0xe0, 0x6, 0xe5, 0x9c, 0xa9]"

definition unicode_gc_table_35 :: "u8 list" where
  "unicode_gc_table_35 =
   [0xe0, 0x8b, 0x97, 0xe5, 0x81, 0x96, 0xe0, 0x85, 0x5a, 0xe5, 0x92, 0xc3, 0xe0, 0xca, 0xac,
    0x2e, 0x1b, 0xe0, 0x16, 0xfb, 0x58, 0xe0, 0x78, 0xe6, 0x80, 0x68, 0xe0, 0xc0, 0xbd, 0x88,
    0xfd, 0xc0, 0xbf, 0x76, 0x20, 0xfd, 0xc0, 0xbf, 0x76, 0x20]"

definition unicode_gc_table :: "u8 list" where
  "unicode_gc_table =
     unicode_gc_table_1 @ unicode_gc_table_2 @ unicode_gc_table_3 @
     unicode_gc_table_4 @ unicode_gc_table_5 @ unicode_gc_table_6 @
     unicode_gc_table_7 @ unicode_gc_table_8 @ unicode_gc_table_9 @
     unicode_gc_table_10 @ unicode_gc_table_11 @ unicode_gc_table_12 @
     unicode_gc_table_13 @ unicode_gc_table_14 @ unicode_gc_table_15 @
     unicode_gc_table_16 @ unicode_gc_table_17 @ unicode_gc_table_18 @
     unicode_gc_table_19 @ unicode_gc_table_20 @ unicode_gc_table_21 @
     unicode_gc_table_22 @ unicode_gc_table_23 @ unicode_gc_table_24 @
     unicode_gc_table_25 @ unicode_gc_table_26 @ unicode_gc_table_27 @
     unicode_gc_table_28 @ unicode_gc_table_29 @ unicode_gc_table_30 @
     unicode_gc_table_31 @ unicode_gc_table_32 @ unicode_gc_table_33 @
     unicode_gc_table_34 @ unicode_gc_table_35"

section \<open>Scripts\<close>

definition UNICODE_SCRIPT_Unknown :: nat where "UNICODE_SCRIPT_Unknown = 0"
definition UNICODE_SCRIPT_Common :: nat where "UNICODE_SCRIPT_Common = 25"
definition UNICODE_SCRIPT_Inherited :: nat where "UNICODE_SCRIPT_Inherited = 55"

definition unicode_script_names :: "string list" where
  "unicode_script_names =
     [''Adlam,Adlm'', ''Ahom,Ahom'', ''Anatolian_Hieroglyphs,Hluw'', ''Arabic,Arab'',
      ''Armenian,Armn'', ''Avestan,Avst'', ''Balinese,Bali'', ''Bamum,Bamu'', ''Bassa_Vah,Bass'',
      ''Batak,Batk'', ''Bengali,Beng'', ''Bhaiksuki,Bhks'', ''Bopomofo,Bopo'', ''Brahmi,Brah'',
      ''Braille,Brai'', ''Buginese,Bugi'', ''Buhid,Buhd'', ''Canadian_Aboriginal,Cans'',
      ''Carian,Cari'', ''Caucasian_Albanian,Aghb'', ''Chakma,Cakm'', ''Cham,Cham'',
      ''Cherokee,Cher'', ''Chorasmian,Chrs'', ''Common,Zyyy'', ''Coptic,Copt,Qaac'',
      ''Cuneiform,Xsux'', ''Cypriot,Cprt'', ''Cyrillic,Cyrl'', ''Deseret,Dsrt'',
      ''Devanagari,Deva'', ''Dives_Akuru,Diak'', ''Dogra,Dogr'', ''Duployan,Dupl'',
      ''Egyptian_Hieroglyphs,Egyp'', ''Elbasan,Elba'', ''Elymaic,Elym'', ''Ethiopic,Ethi'',
      ''Georgian,Geor'', ''Glagolitic,Glag'', ''Gothic,Goth'', ''Grantha,Gran'', ''Greek,Grek'',
      ''Gujarati,Gujr'', ''Gunjala_Gondi,Gong'', ''Gurmukhi,Guru'', ''Han,Hani'',
      ''Hangul,Hang'', ''Hanifi_Rohingya,Rohg'', ''Hanunoo,Hano'', ''Hatran,Hatr'',
      ''Hebrew,Hebr'', ''Hiragana,Hira'', ''Imperial_Aramaic,Armi'', ''Inherited,Zinh,Qaai'',
      ''Inscriptional_Pahlavi,Phli'', ''Inscriptional_Parthian,Prti'', ''Javanese,Java'',
      ''Kaithi,Kthi'', ''Kannada,Knda'', ''Katakana,Kana'', ''Kayah_Li,Kali'',
      ''Kharoshthi,Khar'', ''Khmer,Khmr'', ''Khojki,Khoj'', ''Khitan_Small_Script,Kits'',
      ''Khudawadi,Sind'', ''Lao,Laoo'', ''Latin,Latn'', ''Lepcha,Lepc'', ''Limbu,Limb'',
      ''Linear_A,Lina'', ''Linear_B,Linb'', ''Lisu,Lisu'', ''Lycian,Lyci'', ''Lydian,Lydi'',
      ''Makasar,Maka'', ''Mahajani,Mahj'', ''Malayalam,Mlym'', ''Mandaic,Mand'',
      ''Manichaean,Mani'', ''Marchen,Marc'', ''Masaram_Gondi,Gonm'', ''Medefaidrin,Medf'',
      ''Meetei_Mayek,Mtei'', ''Mende_Kikakui,Mend'', ''Meroitic_Cursive,Merc'',
      ''Meroitic_Hieroglyphs,Mero'', ''Miao,Plrd'', ''Modi,Modi'', ''Mongolian,Mong'',
      ''Mro,Mroo'', ''Multani,Mult'', ''Myanmar,Mymr'', ''Nabataean,Nbat'', ''Nandinagari,Nand'',
      ''New_Tai_Lue,Talu'', ''Newa,Newa'', ''Nko,Nkoo'', ''Nushu,Nshu'',
      ''Nyiakeng_Puachue_Hmong,Hmnp'', ''Ogham,Ogam'', ''Ol_Chiki,Olck'', ''Old_Hungarian,Hung'',
      ''Old_Italic,Ital'', ''Old_North_Arabian,Narb'', ''Old_Permic,Perm'', ''Old_Persian,Xpeo'',
      ''Old_Sogdian,Sogo'', ''Old_South_Arabian,Sarb'', ''Old_Turkic,Orkh'', ''Oriya,Orya'',
      ''Osage,Osge'', ''Osmanya,Osma'', ''Pahawh_Hmong,Hmng'', ''Palmyrene,Palm'',
      ''Pau_Cin_Hau,Pauc'', ''Phags_Pa,Phag'', ''Phoenician,Phnx'', ''Psalter_Pahlavi,Phlp'',
      ''Rejang,Rjng'', ''Runic,Runr'', ''Samaritan,Samr'', ''Saurashtra,Saur'', ''Sharada,Shrd'',
      ''Shavian,Shaw'', ''Siddham,Sidd'', ''SignWriting,Sgnw'', ''Sinhala,Sinh'',
      ''Sogdian,Sogd'', ''Sora_Sompeng,Sora'', ''Soyombo,Soyo'', ''Sundanese,Sund'',
      ''Syloti_Nagri,Sylo'', ''Syriac,Syrc'', ''Tagalog,Tglg'', ''Tagbanwa,Tagb'',
      ''Tai_Le,Tale'', ''Tai_Tham,Lana'', ''Tai_Viet,Tavt'', ''Takri,Takr'', ''Tamil,Taml'',
      ''Tangut,Tang'', ''Telugu,Telu'', ''Thaana,Thaa'', ''Thai,Thai'', ''Tibetan,Tibt'',
      ''Tifinagh,Tfng'', ''Tirhuta,Tirh'', ''Ugaritic,Ugar'', ''Vai,Vaii'', ''Wancho,Wcho'',
      ''Warang_Citi,Wara'', ''Yezidi,Yezi'', ''Yi,Yiii'', ''Zanabazar_Square,Zanb'']"

definition unicode_script_name_table :: string where
  "unicode_script_name_table = name_table unicode_script_names"

definition unicode_script_table_1 :: "u8 list" where
  "unicode_script_table_1 =
   [0xc0, 0x19, 0x99, 0x45, 0x85, 0x19, 0x99, 0x45, 0xae, 0x19, 0x80, 0x45, 0x8e, 0x19, 0x80,
    0x45, 0x84, 0x19, 0x96, 0x45, 0x80, 0x19, 0x9e, 0x45, 0x80, 0x19, 0xe1, 0x60, 0x45, 0xa6,
    0x19, 0x84, 0x45, 0x84, 0x19, 0x81, 0xd, 0x93, 0x19, 0xe0, 0xf, 0x37, 0x83, 0x2b, 0x80, 0x19,
    0x82, 0x2b, 0x1, 0x83, 0x2b, 0x80, 0x19, 0x80, 0x2b, 0x3, 0x80, 0x2b, 0x80, 0x19, 0x80, 0x2b,
    0x80, 0x19, 0x82, 0x2b, 0x0, 0x80, 0x2b, 0x0, 0x93, 0x2b, 0x0, 0xbe, 0x2b, 0x8d, 0x1a, 0x8f,
    0x2b, 0xe0, 0x24, 0x1d, 0x81, 0x37, 0xe0, 0x48, 0x1d, 0x0, 0xa5, 0x5, 0x1, 0xb1, 0x5, 0x1,
    0x82, 0x5, 0x0, 0xb6, 0x34, 0x7, 0x9a, 0x34, 0x3, 0x85, 0x34, 0xa, 0x84, 0x4, 0x80, 0x19]"

definition unicode_script_table_2 :: "u8 list" where
  "unicode_script_table_2 =
   [0x85, 0x4, 0x80, 0x19, 0x8d, 0x4, 0x80, 0x19, 0x80, 0x4, 0x0, 0x80, 0x4, 0x80, 0x19, 0x9f,
    0x4, 0x80, 0x19, 0x89, 0x4, 0x8a, 0x37, 0x99, 0x4, 0x80, 0x37, 0xe0, 0xb, 0x4, 0x80, 0x19,
    0xa1, 0x4, 0x8d, 0x87, 0x0, 0xbb, 0x87, 0x1, 0x82, 0x87, 0xaf, 0x4, 0xb1, 0x91, 0xd, 0xba,
    0x63, 0x1, 0x82, 0x63, 0xad, 0x7b, 0x1, 0x8e, 0x7b, 0x0, 0x9b, 0x50, 0x1, 0x80, 0x50, 0x0,
    0x8a, 0x87, 0x34, 0x94, 0x4, 0x0, 0x91, 0x4, 0xa, 0x8e, 0x4, 0x80, 0x19, 0x9c, 0x4, 0xd0,
    0x1f, 0x83, 0x37, 0x8e, 0x1f, 0x81, 0x19, 0x99, 0x1f, 0x83, 0xb, 0x0, 0x87, 0xb, 0x1, 0x81,
    0xb, 0x1, 0x95, 0xb, 0x0, 0x86, 0xb, 0x0, 0x80, 0xb, 0x2, 0x83, 0xb, 0x1]"

definition unicode_script_table_3 :: "u8 list" where
  "unicode_script_table_3 =
   [0x88, 0xb, 0x1, 0x81, 0xb, 0x1, 0x83, 0xb, 0x7, 0x80, 0xb, 0x3, 0x81, 0xb, 0x0, 0x84, 0xb,
    0x1, 0x98, 0xb, 0x1, 0x82, 0x2e, 0x0, 0x85, 0x2e, 0x3, 0x81, 0x2e, 0x1, 0x95, 0x2e, 0x0,
    0x86, 0x2e, 0x0, 0x81, 0x2e, 0x0, 0x81, 0x2e, 0x0, 0x81, 0x2e, 0x1, 0x80, 0x2e, 0x0, 0x84,
    0x2e, 0x3, 0x81, 0x2e, 0x1, 0x82, 0x2e, 0x2, 0x80, 0x2e, 0x6, 0x83, 0x2e, 0x0, 0x80, 0x2e,
    0x6, 0x90, 0x2e, 0x9, 0x82, 0x2c, 0x0, 0x88, 0x2c, 0x0, 0x82, 0x2c, 0x0, 0x95, 0x2c, 0x0,
    0x86, 0x2c, 0x0, 0x81, 0x2c, 0x0, 0x84, 0x2c, 0x1, 0x89, 0x2c, 0x0, 0x82, 0x2c, 0x0, 0x82,
    0x2c, 0x1, 0x80, 0x2c, 0xe, 0x83, 0x2c, 0x1, 0x8b, 0x2c, 0x6, 0x86, 0x2c]"

definition unicode_script_table_4 :: "u8 list" where
  "unicode_script_table_4 =
   [0x0, 0x82, 0x70, 0x0, 0x87, 0x70, 0x1, 0x81, 0x70, 0x1, 0x95, 0x70, 0x0, 0x86, 0x70, 0x0,
    0x81, 0x70, 0x0, 0x84, 0x70, 0x1, 0x88, 0x70, 0x1, 0x81, 0x70, 0x1, 0x82, 0x70, 0x6, 0x82,
    0x70, 0x3, 0x81, 0x70, 0x0, 0x84, 0x70, 0x1, 0x91, 0x70, 0x9, 0x81, 0x8e, 0x0, 0x85, 0x8e,
    0x2, 0x82, 0x8e, 0x0, 0x83, 0x8e, 0x2, 0x81, 0x8e, 0x0, 0x80, 0x8e, 0x0, 0x81, 0x8e, 0x2,
    0x81, 0x8e, 0x2, 0x82, 0x8e, 0x2, 0x8b, 0x8e, 0x3, 0x84, 0x8e, 0x2, 0x82, 0x8e, 0x0, 0x83,
    0x8e, 0x1, 0x80, 0x8e, 0x5, 0x80, 0x8e, 0xd, 0x94, 0x8e, 0x4, 0x8c, 0x90, 0x0, 0x82, 0x90,
    0x0, 0x96, 0x90, 0x0, 0x8f, 0x90, 0x2, 0x87, 0x90, 0x0, 0x82, 0x90, 0x0, 0x83, 0x90]"

definition unicode_script_table_5 :: "u8 list" where
  "unicode_script_table_5 =
   [0x6, 0x81, 0x90, 0x0, 0x82, 0x90, 0x4, 0x83, 0x90, 0x1, 0x89, 0x90, 0x6, 0x88, 0x90, 0x8c,
    0x3c, 0x0, 0x82, 0x3c, 0x0, 0x96, 0x3c, 0x0, 0x89, 0x3c, 0x0, 0x84, 0x3c, 0x1, 0x88, 0x3c,
    0x0, 0x82, 0x3c, 0x0, 0x83, 0x3c, 0x6, 0x81, 0x3c, 0x6, 0x80, 0x3c, 0x0, 0x83, 0x3c, 0x1,
    0x89, 0x3c, 0x0, 0x81, 0x3c, 0xc, 0x8c, 0x4f, 0x0, 0x82, 0x4f, 0x0, 0xb2, 0x4f, 0x0, 0x82,
    0x4f, 0x0, 0x85, 0x4f, 0x3, 0x8f, 0x4f, 0x1, 0x99, 0x4f, 0x0, 0x82, 0x81, 0x0, 0x91, 0x81,
    0x2, 0x97, 0x81, 0x0, 0x88, 0x81, 0x0, 0x80, 0x81, 0x1, 0x86, 0x81, 0x2, 0x80, 0x81, 0x3,
    0x85, 0x81, 0x0, 0x80, 0x81, 0x0, 0x87, 0x81, 0x5, 0x89, 0x81, 0x1, 0x82, 0x81]"

definition unicode_script_table_6 :: "u8 list" where
  "unicode_script_table_6 =
   [0xb, 0xb9, 0x92, 0x3, 0x80, 0x19, 0x9b, 0x92, 0x24, 0x81, 0x44, 0x0, 0x80, 0x44, 0x0, 0x84,
    0x44, 0x0, 0x97, 0x44, 0x0, 0x80, 0x44, 0x0, 0x96, 0x44, 0x1, 0x84, 0x44, 0x0, 0x80, 0x44,
    0x0, 0x85, 0x44, 0x1, 0x89, 0x44, 0x1, 0x83, 0x44, 0x1f, 0xc7, 0x93, 0x0, 0xa3, 0x93, 0x3,
    0xa6, 0x93, 0x0, 0xa3, 0x93, 0x0, 0x8e, 0x93, 0x0, 0x86, 0x93, 0x83, 0x19, 0x81, 0x93, 0x24,
    0xe0, 0x3f, 0x5e, 0xa5, 0x27, 0x0, 0x80, 0x27, 0x4, 0x80, 0x27, 0x1, 0xaa, 0x27, 0x80, 0x19,
    0x83, 0x27, 0xe0, 0x9f, 0x30, 0xc8, 0x26, 0x0, 0x83, 0x26, 0x1, 0x86, 0x26, 0x0, 0x80, 0x26,
    0x0, 0x83, 0x26, 0x1, 0xa8, 0x26, 0x0, 0x83, 0x26, 0x1, 0xa0, 0x26, 0x0, 0x83, 0x26]"

definition unicode_script_table_7 :: "u8 list" where
  "unicode_script_table_7 =
   [0x1, 0x86, 0x26, 0x0, 0x80, 0x26, 0x0, 0x83, 0x26, 0x1, 0x8e, 0x26, 0x0, 0xb8, 0x26, 0x0,
    0x83, 0x26, 0x1, 0xc2, 0x26, 0x1, 0x9f, 0x26, 0x2, 0x99, 0x26, 0x5, 0xd5, 0x17, 0x1, 0x85,
    0x17, 0x1, 0xe2, 0x1f, 0x12, 0x9c, 0x66, 0x2, 0xca, 0x7a, 0x82, 0x19, 0x8a, 0x7a, 0x6, 0x8c,
    0x88, 0x0, 0x86, 0x88, 0xa, 0x94, 0x32, 0x81, 0x19, 0x8, 0x93, 0x11, 0xb, 0x8c, 0x89, 0x0,
    0x82, 0x89, 0x0, 0x81, 0x89, 0xb, 0xdd, 0x40, 0x1, 0x89, 0x40, 0x5, 0x89, 0x40, 0x5, 0x81,
    0x5b, 0x81, 0x19, 0x80, 0x5b, 0x80, 0x19, 0x88, 0x5b, 0x0, 0x89, 0x5b, 0x5, 0xd8, 0x5b, 0x6,
    0xaa, 0x5b, 0x4, 0xc5, 0x12, 0x9, 0x9e, 0x47, 0x0, 0x8b, 0x47, 0x3, 0x8b, 0x47]"

definition unicode_script_table_8 :: "u8 list" where
  "unicode_script_table_8 =
   [0x3, 0x80, 0x47, 0x2, 0x8b, 0x47, 0x9d, 0x8a, 0x1, 0x84, 0x8a, 0xa, 0xab, 0x61, 0x3, 0x99,
    0x61, 0x5, 0x8a, 0x61, 0x2, 0x81, 0x61, 0x9f, 0x40, 0x9b, 0x10, 0x1, 0x81, 0x10, 0xbe, 0x8b,
    0x0, 0x9c, 0x8b, 0x1, 0x8a, 0x8b, 0x5, 0x89, 0x8b, 0x5, 0x8d, 0x8b, 0x1, 0x90, 0x37, 0x3e,
    0xcb, 0x7, 0x3, 0xac, 0x7, 0x2, 0xbf, 0x85, 0xb3, 0xa, 0x7, 0x83, 0xa, 0xb7, 0x46, 0x2, 0x8e,
    0x46, 0x2, 0x82, 0x46, 0xaf, 0x67, 0x88, 0x1d, 0x6, 0xaa, 0x27, 0x1, 0x82, 0x27, 0x87, 0x85,
    0x7, 0x82, 0x37, 0x80, 0x19, 0x8c, 0x37, 0x80, 0x19, 0x86, 0x37, 0x83, 0x19, 0x80, 0x37,
    0x85, 0x19, 0x80, 0x37, 0x82, 0x19, 0x81, 0x37, 0x80, 0x19, 0x4, 0xa5, 0x45, 0x84, 0x2b]"

definition unicode_script_table_9 :: "u8 list" where
  "unicode_script_table_9 =
   [0x80, 0x1d, 0xb0, 0x45, 0x84, 0x2b, 0x83, 0x45, 0x84, 0x2b, 0x8c, 0x45, 0x80, 0x1d, 0xc5,
    0x45, 0x80, 0x2b, 0xb9, 0x37, 0x0, 0x84, 0x37, 0xe0, 0x9f, 0x45, 0x95, 0x2b, 0x1, 0x85, 0x2b,
    0x1, 0xa5, 0x2b, 0x1, 0x85, 0x2b, 0x1, 0x87, 0x2b, 0x0, 0x80, 0x2b, 0x0, 0x80, 0x2b, 0x0,
    0x80, 0x2b, 0x0, 0x9e, 0x2b, 0x1, 0xb4, 0x2b, 0x0, 0x8e, 0x2b, 0x0, 0x8d, 0x2b, 0x1, 0x85,
    0x2b, 0x0, 0x92, 0x2b, 0x1, 0x82, 0x2b, 0x0, 0x88, 0x2b, 0x0, 0x8b, 0x19, 0x81, 0x37, 0xd6,
    0x19, 0x0, 0x8a, 0x19, 0x80, 0x45, 0x1, 0x8a, 0x19, 0x80, 0x45, 0x8e, 0x19, 0x0, 0x8c, 0x45,
    0x2, 0x9f, 0x19, 0xf, 0xa0, 0x37, 0xe, 0xa5, 0x19, 0x80, 0x2b, 0x82, 0x19, 0x81, 0x45]"

definition unicode_script_table_10 :: "u8 list" where
  "unicode_script_table_10 =
   [0x85, 0x19, 0x80, 0x45, 0x9a, 0x19, 0x80, 0x45, 0x90, 0x19, 0xa8, 0x45, 0x82, 0x19, 0x3,
    0xe2, 0x36, 0x19, 0x18, 0x8a, 0x19, 0x14, 0xe3, 0x3f, 0x19, 0xe0, 0x9f, 0xf, 0xe2, 0x13,
    0x19, 0x1, 0x9f, 0x19, 0x0, 0xe0, 0x8, 0x19, 0xae, 0x28, 0x0, 0xae, 0x28, 0x0, 0x9f, 0x45,
    0xe0, 0x13, 0x1a, 0x4, 0x86, 0x1a, 0xa5, 0x27, 0x0, 0x80, 0x27, 0x4, 0x80, 0x27, 0x1, 0xb7,
    0x94, 0x6, 0x81, 0x94, 0xd, 0x80, 0x94, 0x96, 0x26, 0x8, 0x86, 0x26, 0x0, 0x86, 0x26, 0x0,
    0x86, 0x26, 0x0, 0x86, 0x26, 0x0, 0x86, 0x26, 0x0, 0x86, 0x26, 0x0, 0x86, 0x26, 0x0, 0x86,
    0x26, 0x0, 0x9f, 0x1d, 0xd2, 0x19, 0x2c, 0x99, 0x2f, 0x0, 0xd8, 0x2f, 0xb, 0xe0, 0x75, 0x2f]"

definition unicode_script_table_11 :: "u8 list" where
  "unicode_script_table_11 =
   [0x19, 0x8b, 0x19, 0x3, 0x84, 0x19, 0x80, 0x2f, 0x80, 0x19, 0x80, 0x2f, 0x98, 0x19, 0x88,
    0x2f, 0x83, 0x37, 0x81, 0x30, 0x87, 0x19, 0x83, 0x2f, 0x83, 0x19, 0x0, 0xd5, 0x35, 0x1, 0x81,
    0x37, 0x81, 0x19, 0x82, 0x35, 0x80, 0x19, 0xd9, 0x3d, 0x81, 0x19, 0x82, 0x3d, 0x4, 0xaa, 0xd,
    0x0, 0xdd, 0x30, 0x0, 0x8f, 0x19, 0x9f, 0xd, 0xa3, 0x19, 0xb, 0x8f, 0x3d, 0x9e, 0x30, 0x0,
    0xbf, 0x19, 0x9e, 0x30, 0xd0, 0x19, 0xae, 0x3d, 0x80, 0x19, 0xd7, 0x3d, 0xe0, 0x47, 0x19,
    0xf0, 0x9, 0x5f, 0x2f, 0xbf, 0x19, 0xf0, 0x41, 0x9c, 0x2f, 0x2, 0xe4, 0x2c, 0x9b, 0x2, 0xb6,
    0x9b, 0x8, 0xaf, 0x4a, 0xe0, 0xcb, 0x97, 0x13, 0xdf, 0x1d, 0xd7, 0x8, 0x7, 0xa1, 0x19, 0xe0,
    0x5, 0x45]"

definition unicode_script_table_12 :: "u8 list" where
  "unicode_script_table_12 =
   [0x82, 0x19, 0xb4, 0x45, 0x1, 0x88, 0x45, 0x29, 0x8a, 0x45, 0xac, 0x86, 0x2, 0x89, 0x19, 0x5,
    0xb7, 0x76, 0x7, 0xc5, 0x7c, 0x7, 0x8b, 0x7c, 0x5, 0x9f, 0x1f, 0xad, 0x3e, 0x80, 0x19, 0x80,
    0x3e, 0xa3, 0x79, 0xa, 0x80, 0x79, 0x9c, 0x30, 0x2, 0xcd, 0x3a, 0x0, 0x80, 0x19, 0x89, 0x3a,
    0x3, 0x81, 0x3a, 0x9e, 0x5e, 0x0, 0xb6, 0x16, 0x8, 0x8d, 0x16, 0x1, 0x89, 0x16, 0x1, 0x83,
    0x16, 0x9f, 0x5e, 0xc2, 0x8c, 0x17, 0x84, 0x8c, 0x96, 0x55, 0x9, 0x85, 0x26, 0x1, 0x85, 0x26,
    0x1, 0x85, 0x26, 0x8, 0x86, 0x26, 0x0, 0x86, 0x26, 0x0, 0xaa, 0x45, 0x80, 0x19, 0x88, 0x45,
    0x80, 0x2b, 0x83, 0x45, 0x81, 0x19, 0x3, 0xcf, 0x17, 0xad, 0x55, 0x1, 0x89, 0x55]"

definition unicode_script_table_13 :: "u8 list" where
  "unicode_script_table_13 =
   [0x5, 0xf0, 0x1b, 0x43, 0x30, 0xb, 0x96, 0x30, 0x3, 0xb0, 0x30, 0x70, 0x10, 0xa3, 0xe1, 0xd,
    0x2f, 0x1, 0xe0, 0x9, 0x2f, 0x25, 0x86, 0x45, 0xb, 0x84, 0x5, 0x4, 0x99, 0x34, 0x0, 0x84,
    0x34, 0x0, 0x80, 0x34, 0x0, 0x81, 0x34, 0x0, 0x81, 0x34, 0x0, 0x89, 0x34, 0xe0, 0x11, 0x4,
    0x10, 0xe1, 0xa, 0x4, 0x81, 0x19, 0xf, 0xbf, 0x4, 0x1, 0xb5, 0x4, 0x27, 0x8d, 0x4, 0x1, 0x8f,
    0x37, 0x89, 0x19, 0x5, 0x8d, 0x37, 0x81, 0x1d, 0xa2, 0x19, 0x0, 0x92, 0x19, 0x0, 0x83, 0x19,
    0x3, 0x84, 0x4, 0x0, 0xe0, 0x26, 0x4, 0x1, 0x80, 0x19, 0x0, 0x9f, 0x19, 0x99, 0x45, 0x85,
    0x19, 0x99, 0x45, 0x8a, 0x19, 0x89, 0x3d, 0x80, 0x19, 0xac, 0x3d, 0x81, 0x19]"

definition unicode_script_table_14 :: "u8 list" where
  "unicode_script_table_14 =
   [0x9e, 0x30, 0x2, 0x85, 0x30, 0x1, 0x85, 0x30, 0x1, 0x85, 0x30, 0x1, 0x82, 0x30, 0x2, 0x86,
    0x19, 0x0, 0x86, 0x19, 0x9, 0x84, 0x19, 0x1, 0x8b, 0x49, 0x0, 0x99, 0x49, 0x0, 0x92, 0x49,
    0x0, 0x81, 0x49, 0x0, 0x8e, 0x49, 0x1, 0x8d, 0x49, 0x21, 0xe0, 0x1a, 0x49, 0x4, 0x82, 0x19,
    0x3, 0xac, 0x19, 0x2, 0x88, 0x19, 0xce, 0x2b, 0x0, 0x8c, 0x19, 0x2, 0x80, 0x2b, 0x2e, 0xac,
    0x19, 0x80, 0x37, 0x60, 0x21, 0x9c, 0x4b, 0x2, 0xb0, 0x13, 0xe, 0x80, 0x37, 0x9a, 0x19, 0x3,
    0xa3, 0x69, 0x8, 0x82, 0x69, 0x9a, 0x29, 0x4, 0xaa, 0x6b, 0x4, 0x9d, 0x96, 0x0, 0x80, 0x96,
    0xa3, 0x6c, 0x3, 0x8d, 0x6c, 0x29, 0xcf, 0x1e, 0xaf, 0x7e, 0x9d, 0x72, 0x1, 0x89, 0x72]"

definition unicode_script_table_15 :: "u8 list" where
  "unicode_script_table_15 =
   [0x5, 0xa3, 0x71, 0x3, 0xa3, 0x71, 0x3, 0xa7, 0x24, 0x7, 0xb3, 0x14, 0xa, 0x80, 0x14, 0x60,
    0x2f, 0xe0, 0xd6, 0x48, 0x8, 0x95, 0x48, 0x9, 0x87, 0x48, 0x60, 0x37, 0x85, 0x1c, 0x1, 0x80,
    0x1c, 0x0, 0xab, 0x1c, 0x0, 0x81, 0x1c, 0x2, 0x80, 0x1c, 0x1, 0x80, 0x1c, 0x95, 0x36, 0x0,
    0x88, 0x36, 0x9f, 0x74, 0x9e, 0x5f, 0x7, 0x88, 0x5f, 0x2f, 0x92, 0x33, 0x0, 0x81, 0x33, 0x4,
    0x84, 0x33, 0x9b, 0x77, 0x2, 0x80, 0x77, 0x99, 0x4c, 0x4, 0x80, 0x4c, 0x3f, 0x9f, 0x58, 0x97,
    0x57, 0x3, 0x93, 0x57, 0x1, 0xad, 0x57, 0x83, 0x3f, 0x0, 0x81, 0x3f, 0x4, 0x87, 0x3f, 0x0,
    0x82, 0x3f, 0x0, 0x9c, 0x3f, 0x1, 0x82, 0x3f, 0x3, 0x89, 0x3f, 0x6, 0x88, 0x3f]"

definition unicode_script_table_16 :: "u8 list" where
  "unicode_script_table_16 =
   [0x6, 0x9f, 0x6e, 0x9f, 0x6a, 0x1f, 0xa6, 0x51, 0x3, 0x8b, 0x51, 0x8, 0xb5, 0x6, 0x2, 0x86,
    0x6, 0x95, 0x39, 0x1, 0x87, 0x39, 0x92, 0x38, 0x4, 0x87, 0x38, 0x91, 0x78, 0x6, 0x83, 0x78,
    0xb, 0x86, 0x78, 0x4f, 0xc8, 0x6f, 0x36, 0xb2, 0x68, 0xc, 0xb2, 0x68, 0x6, 0x85, 0x68, 0xa7,
    0x31, 0x7, 0x89, 0x31, 0x60, 0xc5, 0x9e, 0x4, 0x0, 0xa9, 0x9a, 0x0, 0x82, 0x9a, 0x1, 0x81,
    0x9a, 0x4d, 0xa7, 0x6d, 0x7, 0xa9, 0x82, 0x55, 0x9b, 0x18, 0x13, 0x96, 0x25, 0x8, 0xcd, 0xe,
    0x3, 0x9d, 0xe, 0xe, 0x80, 0xe, 0xc1, 0x3b, 0xa, 0x80, 0x3b, 0x1, 0x98, 0x83, 0x6, 0x89,
    0x83, 0x5, 0xb4, 0x15, 0x0, 0x91, 0x15, 0x7, 0xa6, 0x4e, 0x8, 0xdf, 0x7d, 0x0]"

definition unicode_script_table_17 :: "u8 list" where
  "unicode_script_table_17 =
   [0x93, 0x81, 0xa, 0x91, 0x41, 0x0, 0xab, 0x41, 0x40, 0x86, 0x5d, 0x0, 0x80, 0x5d, 0x0, 0x83,
    0x5d, 0x0, 0x8e, 0x5d, 0x0, 0x8a, 0x5d, 0x5, 0xba, 0x43, 0x4, 0x89, 0x43, 0x5, 0x83, 0x2a,
    0x0, 0x87, 0x2a, 0x1, 0x81, 0x2a, 0x1, 0x95, 0x2a, 0x0, 0x86, 0x2a, 0x0, 0x81, 0x2a, 0x0,
    0x84, 0x2a, 0x0, 0x80, 0x37, 0x88, 0x2a, 0x1, 0x81, 0x2a, 0x1, 0x82, 0x2a, 0x1, 0x80, 0x2a,
    0x5, 0x80, 0x2a, 0x4, 0x86, 0x2a, 0x1, 0x86, 0x2a, 0x2, 0x84, 0x2a, 0x60, 0x2a, 0xdb, 0x62,
    0x0, 0x84, 0x62, 0x1d, 0xc7, 0x95, 0x7, 0x89, 0x95, 0x60, 0x45, 0xb5, 0x7f, 0x1, 0xa5, 0x7f,
    0x21, 0xc4, 0x5a, 0xa, 0x89, 0x5a, 0x5, 0x8c, 0x5b, 0x12, 0xb8, 0x8d, 0x6, 0x89, 0x8d]"

definition unicode_script_table_18 :: "u8 list" where
  "unicode_script_table_18 =
   [0x35, 0x9a, 0x2, 0x1, 0x8e, 0x2, 0x3, 0x8f, 0x2, 0x60, 0x5f, 0xbb, 0x21, 0x60, 0x3, 0xd2,
    0x99, 0xb, 0x80, 0x99, 0x86, 0x20, 0x1, 0x80, 0x20, 0x1, 0x87, 0x20, 0x0, 0x81, 0x20, 0x0,
    0x9d, 0x20, 0x0, 0x81, 0x20, 0x1, 0x8b, 0x20, 0x8, 0x89, 0x20, 0x45, 0x87, 0x60, 0x1, 0xad,
    0x60, 0x1, 0x8a, 0x60, 0x1a, 0xc7, 0x9c, 0x7, 0xd2, 0x84, 0x1c, 0xb8, 0x75, 0x60, 0xa6, 0x88,
    0xc, 0x0, 0xac, 0xc, 0x0, 0x8d, 0xc, 0x9, 0x9c, 0xc, 0x2, 0x9f, 0x52, 0x1, 0x95, 0x52, 0x0,
    0x8d, 0x52, 0x48, 0x86, 0x53, 0x0, 0x81, 0x53, 0x0, 0xab, 0x53, 0x2, 0x80, 0x53, 0x0, 0x81,
    0x53, 0x0, 0x88, 0x53, 0x7, 0x89, 0x53, 0x5, 0x85, 0x2d, 0x0, 0x81, 0x2d]"

definition unicode_script_table_19 :: "u8 list" where
  "unicode_script_table_19 =
   [0x0, 0xa4, 0x2d, 0x0, 0x81, 0x2d, 0x0, 0x85, 0x2d, 0x6, 0x89, 0x2d, 0x60, 0xd5, 0x98, 0x4d,
    0x60, 0x56, 0x80, 0x4a, 0xe, 0xb1, 0x8e, 0xc, 0x80, 0x8e, 0xe3, 0x39, 0x1b, 0x60, 0x5, 0xe0,
    0xe, 0x1b, 0x0, 0x84, 0x1b, 0xa, 0xe0, 0x63, 0x1b, 0x6a, 0x5b, 0xe3, 0xce, 0x23, 0x0, 0x88,
    0x23, 0x6f, 0x66, 0xe1, 0xe6, 0x3, 0x70, 0x11, 0x58, 0xe1, 0xd8, 0x8, 0x6, 0x9e, 0x5c, 0x0,
    0x89, 0x5c, 0x3, 0x81, 0x5c, 0x5f, 0x9d, 0x9, 0x1, 0x85, 0x9, 0x9, 0xc5, 0x73, 0x9, 0x89,
    0x73, 0x0, 0x86, 0x73, 0x0, 0x94, 0x73, 0x4, 0x92, 0x73, 0x62, 0x4f, 0xda, 0x54, 0x60, 0x4,
    0xca, 0x59, 0x3, 0xb8, 0x59, 0x6, 0x90, 0x59, 0x3f, 0x80, 0x8f, 0x80, 0x64, 0x81, 0x19]"

definition unicode_script_table_20 :: "u8 list" where
  "unicode_script_table_20 =
   [0x80, 0x42, 0xa, 0x81, 0x2f, 0xd, 0xf0, 0x7, 0x97, 0x8f, 0x7, 0xe2, 0x9f, 0x8f, 0xe1, 0x75,
    0x42, 0x29, 0x88, 0x8f, 0x70, 0x12, 0x96, 0x80, 0x3d, 0xe0, 0xbd, 0x35, 0x30, 0x82, 0x35,
    0x10, 0x83, 0x3d, 0x7, 0xe1, 0x2b, 0x64, 0x68, 0xa3, 0xe0, 0xa, 0x22, 0x4, 0x8c, 0x22, 0x2,
    0x88, 0x22, 0x6, 0x89, 0x22, 0x1, 0x83, 0x22, 0x83, 0x19, 0x70, 0x2, 0xfb, 0xe0, 0x95, 0x19,
    0x9, 0xa6, 0x19, 0x1, 0xbd, 0x19, 0x82, 0x37, 0x90, 0x19, 0x87, 0x37, 0x81, 0x19, 0x86, 0x37,
    0x9d, 0x19, 0x83, 0x37, 0xba, 0x19, 0x16, 0xc5, 0x2b, 0x60, 0x39, 0x93, 0x19, 0xb, 0xd6,
    0x19, 0x8, 0x98, 0x19, 0x60, 0x26, 0xd4, 0x19, 0x0, 0xc6, 0x19, 0x0, 0x81, 0x19, 0x1, 0x80,
    0x19]"

definition unicode_script_table_21 :: "u8 list" where
  "unicode_script_table_21 =
   [0x1, 0x81, 0x19, 0x1, 0x83, 0x19, 0x0, 0x8b, 0x19, 0x0, 0x80, 0x19, 0x0, 0x86, 0x19, 0x0,
    0xc0, 0x19, 0x0, 0x83, 0x19, 0x1, 0x87, 0x19, 0x0, 0x86, 0x19, 0x0, 0x9b, 0x19, 0x0, 0x83,
    0x19, 0x0, 0x84, 0x19, 0x0, 0x80, 0x19, 0x2, 0x86, 0x19, 0x0, 0xe0, 0xf3, 0x19, 0x1, 0xe0,
    0xc3, 0x19, 0x1, 0xb1, 0x19, 0xe2, 0x2b, 0x80, 0xe, 0x84, 0x80, 0x0, 0x8e, 0x80, 0x64, 0xef,
    0x86, 0x28, 0x0, 0x90, 0x28, 0x1, 0x86, 0x28, 0x0, 0x81, 0x28, 0x0, 0x84, 0x28, 0x60, 0x74,
    0xac, 0x65, 0x2, 0x8d, 0x65, 0x1, 0x89, 0x65, 0x3, 0x81, 0x65, 0x61, 0xf, 0xb9, 0x98, 0x4,
    0x80, 0x98, 0x64, 0x9f, 0xe0, 0x64, 0x56, 0x1, 0x8f, 0x56, 0x28, 0xcb, 0x1, 0x3]"

definition unicode_script_table_22 :: "u8 list" where
  "unicode_script_table_22 =
   [0x89, 0x1, 0x3, 0x81, 0x1, 0x62, 0xb0, 0xc3, 0x19, 0x4b, 0xbc, 0x19, 0x60, 0x61, 0x83, 0x4,
    0x0, 0x9a, 0x4, 0x0, 0x81, 0x4, 0x0, 0x80, 0x4, 0x1, 0x80, 0x4, 0x0, 0x89, 0x4, 0x0, 0x83,
    0x4, 0x0, 0x80, 0x4, 0x0, 0x80, 0x4, 0x5, 0x80, 0x4, 0x3, 0x80, 0x4, 0x0, 0x80, 0x4, 0x0,
    0x80, 0x4, 0x0, 0x82, 0x4, 0x0, 0x81, 0x4, 0x0, 0x80, 0x4, 0x1, 0x80, 0x4, 0x0, 0x80, 0x4,
    0x0, 0x80, 0x4, 0x0, 0x80, 0x4, 0x0, 0x80, 0x4, 0x0, 0x81, 0x4, 0x0, 0x80, 0x4, 0x1, 0x83,
    0x4, 0x0, 0x86, 0x4, 0x0, 0x83, 0x4, 0x0, 0x83, 0x4, 0x0, 0x80, 0x4, 0x0, 0x89, 0x4, 0x0,
    0x90, 0x4, 0x4, 0x82, 0x4, 0x0, 0x84, 0x4, 0x0]"

definition unicode_script_table_23 :: "u8 list" where
  "unicode_script_table_23 =
   [0x90, 0x4, 0x33, 0x81, 0x4, 0x60, 0xad, 0xab, 0x19, 0x3, 0xe0, 0x3, 0x19, 0xb, 0x8e, 0x19,
    0x1, 0x8e, 0x19, 0x0, 0x8e, 0x19, 0x0, 0xa4, 0x19, 0x9, 0xe0, 0x4d, 0x19, 0x37, 0x99, 0x19,
    0x80, 0x35, 0x81, 0x19, 0xc, 0xab, 0x19, 0x3, 0x88, 0x19, 0x6, 0x81, 0x19, 0xd, 0x85, 0x19,
    0x60, 0x39, 0xe3, 0x77, 0x19, 0x7, 0x8c, 0x19, 0x2, 0x8c, 0x19, 0x2, 0xe0, 0x13, 0x19, 0xb,
    0xd8, 0x19, 0x6, 0x8b, 0x19, 0x13, 0x8b, 0x19, 0x3, 0xb7, 0x19, 0x7, 0x89, 0x19, 0x5, 0xa7,
    0x19, 0x7, 0x9d, 0x19, 0x1, 0x81, 0x19, 0x4d, 0xe0, 0x18, 0x19, 0x0, 0xd1, 0x19, 0x0, 0xe0,
    0x26, 0x19, 0xb, 0x8d, 0x19, 0x1, 0x84, 0x19, 0x2, 0x82, 0x19, 0x4, 0x86, 0x19]"

definition unicode_script_table_24 :: "u8 list" where
  "unicode_script_table_24 =
   [0x8, 0x98, 0x19, 0x6, 0x86, 0x19, 0x8, 0x82, 0x19, 0xc, 0x86, 0x19, 0x28, 0xe0, 0x32, 0x19,
    0x0, 0xb6, 0x19, 0x24, 0x89, 0x19, 0x63, 0xa5, 0xf0, 0x96, 0x7d, 0x2f, 0x21, 0xef, 0xd4,
    0x2f, 0xa, 0xe0, 0x7d, 0x2f, 0x1, 0xf0, 0x6, 0x21, 0x2f, 0xd, 0xf0, 0xc, 0xd0, 0x2f, 0x6b,
    0xbe, 0xe1, 0xbd, 0x2f, 0x65, 0x81, 0xf0, 0x2, 0xea, 0x2f, 0x7a, 0xdc, 0x55, 0x80, 0x19,
    0x1d, 0xdf, 0x19, 0x60, 0x1f, 0xe0, 0x8f, 0x37]"

definition unicode_script_table :: "u8 list" where
  "unicode_script_table =
     unicode_script_table_1 @ unicode_script_table_2 @ unicode_script_table_3 @
     unicode_script_table_4 @ unicode_script_table_5 @ unicode_script_table_6 @
     unicode_script_table_7 @ unicode_script_table_8 @ unicode_script_table_9 @
     unicode_script_table_10 @ unicode_script_table_11 @ unicode_script_table_12 @
     unicode_script_table_13 @ unicode_script_table_14 @ unicode_script_table_15 @
     unicode_script_table_16 @ unicode_script_table_17 @ unicode_script_table_18 @
     unicode_script_table_19 @ unicode_script_table_20 @ unicode_script_table_21 @
     unicode_script_table_22 @ unicode_script_table_23 @ unicode_script_table_24"

definition unicode_script_ext_table_1 :: "u8 list" where
  "unicode_script_ext_table_1 =
   [0x82, 0xc1, 0x0, 0x0, 0x1, 0x2b, 0x1, 0x0, 0x0, 0x1, 0x2b, 0x1c, 0x0, 0xc, 0x1, 0x45, 0x80,
    0x92, 0x0, 0x0, 0x2, 0x1d, 0x6b, 0x0, 0x2, 0x1d, 0x28, 0x1, 0x2, 0x1d, 0x45, 0x0, 0x2, 0x1d,
    0x28, 0x81, 0x3, 0x0, 0x0, 0x5, 0x4, 0x31, 0x87, 0x91, 0x9a, 0xd, 0x0, 0x0, 0x5, 0x4, 0x31,
    0x87, 0x91, 0x9a, 0x0, 0x3, 0x4, 0x87, 0x91, 0x1, 0x0, 0x0, 0x5, 0x4, 0x31, 0x87, 0x91, 0x9a,
    0x1f, 0x0, 0x0, 0x8, 0x1, 0x4, 0x50, 0x51, 0x78, 0x31, 0x82, 0x87, 0x9, 0x0, 0xa, 0x2, 0x4,
    0x87, 0x9, 0x0, 0x9, 0x3, 0x4, 0x91, 0x9a, 0x5, 0x0, 0x0, 0x2, 0x4, 0x87, 0x62, 0x0, 0x0,
    0x2, 0x4, 0x31, 0x81, 0xfb, 0x0, 0x0, 0xd, 0xb, 0x1f, 0x2a, 0x2c, 0x2e, 0x3c, 0x45, 0x4f,
    0x70, 0x7d, 0x8e, 0x90, 0x95]"

definition unicode_script_ext_table_2 :: "u8 list" where
  "unicode_script_ext_table_2 =
   [0x0, 0xc, 0xb, 0x1f, 0x2a, 0x2c, 0x2e, 0x3c, 0x45, 0x4f, 0x70, 0x8e, 0x90, 0x95, 0x10, 0x0,
    0x0, 0x14, 0xb, 0x1f, 0x21, 0x2d, 0x53, 0x2a, 0x2c, 0x2e, 0x3c, 0x4e, 0x4f, 0x60, 0x70, 0x43,
    0x81, 0x86, 0x8d, 0x8e, 0x90, 0x95, 0x0, 0x15, 0xb, 0x1f, 0x21, 0x2d, 0x53, 0x2a, 0x2c, 0x2e,
    0x3c, 0x47, 0x4e, 0x4f, 0x60, 0x70, 0x43, 0x81, 0x86, 0x8d, 0x8e, 0x90, 0x95, 0x9, 0x4, 0x1f,
    0x21, 0x3b, 0x4e, 0x75, 0x0, 0x9, 0x3, 0xb, 0x15, 0x86, 0x75, 0x0, 0x9, 0x2, 0x2e, 0x5d,
    0x75, 0x0, 0x9, 0x2, 0x2c, 0x41, 0x80, 0x75, 0x0, 0xd, 0x2, 0x2a, 0x8e, 0x80, 0x71, 0x0, 0x9,
    0x2, 0x3c, 0x60, 0x82, 0xcf, 0x0, 0x9, 0x3, 0x15, 0x5e, 0x8a, 0x80, 0x30, 0x0]"

definition unicode_script_ext_table_3 :: "u8 list" where
  "unicode_script_ext_table_3 =
   [0x0, 0x2, 0x27, 0x45, 0x85, 0xb8, 0x0, 0x1, 0x4, 0x11, 0x32, 0x89, 0x88, 0x80, 0x4a, 0x0,
    0x1, 0x2, 0x5b, 0x76, 0x0, 0x0, 0x0, 0x2, 0x5b, 0x76, 0x84, 0x49, 0x0, 0x0, 0x4, 0xb, 0x1f,
    0x2a, 0x3c, 0x0, 0x1, 0x1f, 0x0, 0x4, 0xb, 0x1f, 0x2a, 0x3c, 0x0, 0x2, 0x1f, 0x2a, 0x0, 0x1,
    0x1f, 0x1, 0x2, 0xb, 0x1f, 0x0, 0x2, 0x1f, 0x7d, 0x0, 0x2, 0xb, 0x1f, 0x0, 0x2, 0x1f, 0x7d,
    0x0, 0x6, 0x1f, 0x3c, 0x4f, 0x70, 0x8e, 0x90, 0x0, 0x1, 0x1f, 0x1, 0x2, 0x1f, 0x7d, 0x1, 0x1,
    0x1f, 0x0, 0x2, 0x1f, 0x7d, 0x0, 0x2, 0xb, 0x1f, 0x6, 0x1, 0x1f, 0x0, 0x2, 0x1f, 0x60, 0x0,
    0x2, 0xb, 0x1f, 0x1, 0x1, 0x1f, 0x0, 0x2, 0xb, 0x1f]"

definition unicode_script_ext_table_4 :: "u8 list" where
  "unicode_script_ext_table_4 =
   [0x3, 0x1, 0x1f, 0x0, 0x8, 0xb, 0x1f, 0x2a, 0x3c, 0x60, 0x70, 0x90, 0x95, 0x0, 0x2, 0x1f,
    0x2a, 0x0, 0x3, 0x1f, 0x2a, 0x3c, 0x1, 0x2, 0xb, 0x1f, 0x0, 0x1, 0xb, 0x1, 0x2, 0x1f, 0x2a,
    0x0, 0x1, 0x60, 0x80, 0x44, 0x0, 0x1, 0x1, 0x2b, 0x35, 0x0, 0x0, 0x2, 0x1d, 0x87, 0x81, 0xb5,
    0x0, 0x0, 0x2, 0x45, 0x5b, 0x80, 0x3f, 0x0, 0x0, 0x3, 0x1f, 0x2a, 0x45, 0x8c, 0xd1, 0x0, 0x0,
    0x2, 0x1d, 0x28, 0x81, 0x3c, 0x0, 0x1, 0x6, 0xd, 0x30, 0x2f, 0x35, 0x3d, 0x9b, 0x0, 0x5, 0xd,
    0x30, 0x2f, 0x35, 0x3d, 0x1, 0x0, 0x0, 0x1, 0x2f, 0x0, 0x0, 0x9, 0x6, 0xd, 0x30, 0x2f, 0x35,
    0x3d, 0x9b, 0x0, 0x0, 0x0, 0x5, 0xd, 0x30, 0x2f, 0x35, 0x3d]"

definition unicode_script_ext_table_5 :: "u8 list" where
  "unicode_script_ext_table_5 =
   [0x7, 0x6, 0xd, 0x30, 0x2f, 0x35, 0x3d, 0x9b, 0x3, 0x5, 0xd, 0x30, 0x2f, 0x35, 0x3d, 0x9, 0x0,
    0x3, 0x2, 0xd, 0x2f, 0x1, 0x0, 0x0, 0x5, 0xd, 0x30, 0x2f, 0x35, 0x3d, 0x4, 0x2, 0x35, 0x3d,
    0x0, 0x0, 0x0, 0x5, 0xd, 0x30, 0x2f, 0x35, 0x3d, 0x3, 0x0, 0x1, 0x3, 0x2f, 0x35, 0x3d, 0x1,
    0x1, 0x2f, 0x58, 0x0, 0x3, 0x2, 0x35, 0x3d, 0x2, 0x0, 0x0, 0x2, 0x35, 0x3d, 0x59, 0x0, 0x0,
    0x6, 0xd, 0x30, 0x2f, 0x35, 0x3d, 0x9b, 0x0, 0x2, 0x35, 0x3d, 0x80, 0x12, 0x0, 0xf, 0x1,
    0x2f, 0x1f, 0x0, 0x23, 0x1, 0x2f, 0x3b, 0x0, 0x27, 0x1, 0x2f, 0x37, 0x0, 0x30, 0x1, 0x2f,
    0xe, 0x0, 0xb, 0x1, 0x2f, 0x32, 0x0, 0x0, 0x1, 0x2f]"

definition unicode_script_ext_table_6 :: "u8 list" where
  "unicode_script_ext_table_6 =
   [0x57, 0x0, 0x18, 0x1, 0x2f, 0x9, 0x0, 0x4, 0x1, 0x2f, 0x5f, 0x0, 0x1e, 0x1, 0x2f, 0xc0, 0x31,
    0xef, 0x0, 0x0, 0x2, 0x1d, 0x28, 0x80, 0xf, 0x0, 0x7, 0x2, 0x2f, 0x45, 0x80, 0xa7, 0x0, 0x2,
    0xe, 0x1f, 0x21, 0x2c, 0x2e, 0x41, 0x3c, 0x3b, 0x4e, 0x4f, 0x5a, 0x60, 0x43, 0x8d, 0x95, 0x2,
    0xd, 0x1f, 0x21, 0x2c, 0x2e, 0x41, 0x3c, 0x3b, 0x4e, 0x5a, 0x60, 0x43, 0x8d, 0x95, 0x3, 0xb,
    0x1f, 0x21, 0x2c, 0x2e, 0x41, 0x3b, 0x4e, 0x5a, 0x43, 0x8d, 0x95, 0x80, 0x36, 0x0, 0x0, 0x2,
    0xb, 0x1f, 0x0, 0x0, 0x0, 0x2, 0x1f, 0x8e, 0x39, 0x0, 0x0, 0x3, 0x3e, 0x45, 0x5e, 0x80, 0x1f,
    0x0, 0x0, 0x2, 0x10, 0x3a, 0xc0, 0x13, 0xa1, 0x0, 0x0, 0x2, 0x4, 0x91]"

definition unicode_script_ext_table_7 :: "u8 list" where
  "unicode_script_ext_table_7 =
   [0x9, 0x0, 0x0, 0x2, 0x4, 0x91, 0x46, 0x0, 0x1, 0x5, 0xd, 0x30, 0x2f, 0x35, 0x3d, 0x80, 0x99,
    0x0, 0x4, 0x6, 0xd, 0x30, 0x2f, 0x35, 0x3d, 0x9b, 0x9, 0x0, 0x0, 0x2, 0x35, 0x3d, 0x2c, 0x0,
    0x1, 0x2, 0x35, 0x3d, 0x80, 0xdf, 0x0, 0x2, 0x2, 0x1c, 0x49, 0x3, 0x0, 0x2c, 0x3, 0x1c, 0x48,
    0x49, 0x2, 0x0, 0x8, 0x2, 0x1c, 0x49, 0x81, 0x1f, 0x0, 0x1b, 0x2, 0x4, 0x1a, 0x8f, 0x84, 0x0,
    0x0, 0x2, 0x2a, 0x8e, 0x0, 0x0, 0x0, 0x2, 0x2a, 0x8e, 0x36, 0x0, 0x1, 0x2, 0x2a, 0x8e, 0x8c,
    0x12, 0x0, 0x1, 0x2, 0x2a, 0x8e, 0x0, 0x0, 0x0, 0x2, 0x2a, 0x8e, 0xc0, 0x5c, 0x4b, 0x0, 0x3,
    0x1, 0x22, 0x96, 0x3b, 0x0, 0x11, 0x1, 0x2f]"

definition unicode_script_ext_table_8 :: "u8 list" where
  "unicode_script_ext_table_8 =
   [0x9e, 0x5d, 0x0, 0x1, 0x1, 0x2f, 0xce, 0xcd, 0x2d, 0x0]"

definition unicode_script_ext_table :: "u8 list" where
  "unicode_script_ext_table =
     unicode_script_ext_table_1 @ unicode_script_ext_table_2 @ unicode_script_ext_table_3 @
     unicode_script_ext_table_4 @ unicode_script_ext_table_5 @ unicode_script_ext_table_6 @
     unicode_script_ext_table_7 @ unicode_script_ext_table_8"

section \<open>Binary properties\<close>

definition UNICODE_PROP_Hyphen :: nat where "UNICODE_PROP_Hyphen = 0"
definition UNICODE_PROP_Other_Math :: nat where "UNICODE_PROP_Other_Math = 1"
definition UNICODE_PROP_Other_Alphabetic :: nat where "UNICODE_PROP_Other_Alphabetic = 2"
definition UNICODE_PROP_Other_Lowercase :: nat where "UNICODE_PROP_Other_Lowercase = 3"
definition UNICODE_PROP_Other_Uppercase :: nat where "UNICODE_PROP_Other_Uppercase = 4"
definition UNICODE_PROP_Other_Grapheme_Extend :: nat where "UNICODE_PROP_Other_Grapheme_Extend = 5"
definition UNICODE_PROP_Other_Default_Ignorable_Code_Point :: nat where "UNICODE_PROP_Other_Default_Ignorable_Code_Point = 6"
definition UNICODE_PROP_Other_ID_Start :: nat where "UNICODE_PROP_Other_ID_Start = 7"
definition UNICODE_PROP_Other_ID_Continue :: nat where "UNICODE_PROP_Other_ID_Continue = 8"
definition UNICODE_PROP_Prepended_Concatenation_Mark :: nat where "UNICODE_PROP_Prepended_Concatenation_Mark = 9"
definition UNICODE_PROP_ID_Continue1 :: nat where "UNICODE_PROP_ID_Continue1 = 10"
definition UNICODE_PROP_XID_Start1 :: nat where "UNICODE_PROP_XID_Start1 = 11"
definition UNICODE_PROP_XID_Continue1 :: nat where "UNICODE_PROP_XID_Continue1 = 12"
definition UNICODE_PROP_Changes_When_Titlecased1 :: nat where "UNICODE_PROP_Changes_When_Titlecased1 = 13"
definition UNICODE_PROP_Changes_When_Casefolded1 :: nat where "UNICODE_PROP_Changes_When_Casefolded1 = 14"
definition UNICODE_PROP_Changes_When_NFKC_Casefolded1 :: nat where "UNICODE_PROP_Changes_When_NFKC_Casefolded1 = 15"
definition UNICODE_PROP_ASCII_Hex_Digit :: nat where "UNICODE_PROP_ASCII_Hex_Digit = 16"
definition UNICODE_PROP_Bidi_Control :: nat where "UNICODE_PROP_Bidi_Control = 17"
definition UNICODE_PROP_Dash :: nat where "UNICODE_PROP_Dash = 18"
definition UNICODE_PROP_Deprecated :: nat where "UNICODE_PROP_Deprecated = 19"
definition UNICODE_PROP_Diacritic :: nat where "UNICODE_PROP_Diacritic = 20"
definition UNICODE_PROP_Extender :: nat where "UNICODE_PROP_Extender = 21"
definition UNICODE_PROP_Hex_Digit :: nat where "UNICODE_PROP_Hex_Digit = 22"
definition UNICODE_PROP_IDS_Binary_Operator :: nat where "UNICODE_PROP_IDS_Binary_Operator = 23"
definition UNICODE_PROP_IDS_Trinary_Operator :: nat where "UNICODE_PROP_IDS_Trinary_Operator = 24"
definition UNICODE_PROP_Ideographic :: nat where "UNICODE_PROP_Ideographic = 25"
definition UNICODE_PROP_Join_Control :: nat where "UNICODE_PROP_Join_Control = 26"
definition UNICODE_PROP_Logical_Order_Exception :: nat where "UNICODE_PROP_Logical_Order_Exception = 27"
definition UNICODE_PROP_Noncharacter_Code_Point :: nat where "UNICODE_PROP_Noncharacter_Code_Point = 28"
definition UNICODE_PROP_Pattern_Syntax :: nat where "UNICODE_PROP_Pattern_Syntax = 29"
definition UNICODE_PROP_Pattern_White_Space :: nat where "UNICODE_PROP_Pattern_White_Space = 30"
definition UNICODE_PROP_Quotation_Mark :: nat where "UNICODE_PROP_Quotation_Mark = 31"
definition UNICODE_PROP_Radical :: nat where "UNICODE_PROP_Radical = 32"
definition UNICODE_PROP_Regional_Indicator :: nat where "UNICODE_PROP_Regional_Indicator = 33"
definition UNICODE_PROP_Sentence_Terminal :: nat where "UNICODE_PROP_Sentence_Terminal = 34"
definition UNICODE_PROP_Soft_Dotted :: nat where "UNICODE_PROP_Soft_Dotted = 35"
definition UNICODE_PROP_Terminal_Punctuation :: nat where "UNICODE_PROP_Terminal_Punctuation = 36"
definition UNICODE_PROP_Unified_Ideograph :: nat where "UNICODE_PROP_Unified_Ideograph = 37"
definition UNICODE_PROP_Variation_Selector :: nat where "UNICODE_PROP_Variation_Selector = 38"
definition UNICODE_PROP_White_Space :: nat where "UNICODE_PROP_White_Space = 39"
definition UNICODE_PROP_Bidi_Mirrored :: nat where "UNICODE_PROP_Bidi_Mirrored = 40"
definition UNICODE_PROP_Emoji :: nat where "UNICODE_PROP_Emoji = 41"
definition UNICODE_PROP_Emoji_Component :: nat where "UNICODE_PROP_Emoji_Component = 42"
definition UNICODE_PROP_Emoji_Modifier :: nat where "UNICODE_PROP_Emoji_Modifier = 43"
definition UNICODE_PROP_Emoji_Modifier_Base :: nat where "UNICODE_PROP_Emoji_Modifier_Base = 44"
definition UNICODE_PROP_Emoji_Presentation :: nat where "UNICODE_PROP_Emoji_Presentation = 45"
definition UNICODE_PROP_Extended_Pictographic :: nat where "UNICODE_PROP_Extended_Pictographic = 46"
definition UNICODE_PROP_Default_Ignorable_Code_Point :: nat where "UNICODE_PROP_Default_Ignorable_Code_Point = 47"
definition UNICODE_PROP_ID_Start :: nat where "UNICODE_PROP_ID_Start = 48"
definition UNICODE_PROP_Case_Ignorable :: nat where "UNICODE_PROP_Case_Ignorable = 49"
definition UNICODE_PROP_ASCII :: nat where "UNICODE_PROP_ASCII = 50"
definition UNICODE_PROP_Alphabetic :: nat where "UNICODE_PROP_Alphabetic = 51"
definition UNICODE_PROP_Any :: nat where "UNICODE_PROP_Any = 52"
definition UNICODE_PROP_Assigned :: nat where "UNICODE_PROP_Assigned = 53"
definition UNICODE_PROP_Cased :: nat where "UNICODE_PROP_Cased = 54"
definition UNICODE_PROP_Changes_When_Casefolded :: nat where "UNICODE_PROP_Changes_When_Casefolded = 55"
definition UNICODE_PROP_Changes_When_Casemapped :: nat where "UNICODE_PROP_Changes_When_Casemapped = 56"
definition UNICODE_PROP_Changes_When_Lowercased :: nat where "UNICODE_PROP_Changes_When_Lowercased = 57"
definition UNICODE_PROP_Changes_When_NFKC_Casefolded :: nat where "UNICODE_PROP_Changes_When_NFKC_Casefolded = 58"
definition UNICODE_PROP_Changes_When_Titlecased :: nat where "UNICODE_PROP_Changes_When_Titlecased = 59"
definition UNICODE_PROP_Changes_When_Uppercased :: nat where "UNICODE_PROP_Changes_When_Uppercased = 60"
definition UNICODE_PROP_Grapheme_Base :: nat where "UNICODE_PROP_Grapheme_Base = 61"
definition UNICODE_PROP_Grapheme_Extend :: nat where "UNICODE_PROP_Grapheme_Extend = 62"
definition UNICODE_PROP_ID_Continue :: nat where "UNICODE_PROP_ID_Continue = 63"
definition UNICODE_PROP_Lowercase :: nat where "UNICODE_PROP_Lowercase = 64"
definition UNICODE_PROP_Math :: nat where "UNICODE_PROP_Math = 65"
definition UNICODE_PROP_Uppercase :: nat where "UNICODE_PROP_Uppercase = 66"
definition UNICODE_PROP_XID_Continue :: nat where "UNICODE_PROP_XID_Continue = 67"
definition UNICODE_PROP_XID_Start :: nat where "UNICODE_PROP_XID_Start = 68"
definition UNICODE_PROP_Cased1 :: nat where "UNICODE_PROP_Cased1 = 69"

definition unicode_prop_names :: "string list" where
  "unicode_prop_names =
     [''ASCII_Hex_Digit,AHex'', ''Bidi_Control,Bidi_C'', ''Dash'', ''Deprecated,Dep'',
      ''Diacritic,Dia'', ''Extender,Ext'', ''Hex_Digit,Hex'', ''IDS_Binary_Operator,IDSB'',
      ''IDS_Trinary_Operator,IDST'', ''Ideographic,Ideo'', ''Join_Control,Join_C'',
      ''Logical_Order_Exception,LOE'', ''Noncharacter_Code_Point,NChar'',
      ''Pattern_Syntax,Pat_Syn'', ''Pattern_White_Space,Pat_WS'', ''Quotation_Mark,QMark'',
      ''Radical'', ''Regional_Indicator,RI'', ''Sentence_Terminal,STerm'', ''Soft_Dotted,SD'',
      ''Terminal_Punctuation,Term'', ''Unified_Ideograph,UIdeo'', ''Variation_Selector,VS'',
      ''White_Space,space'', ''Bidi_Mirrored,Bidi_M'', ''Emoji'', ''Emoji_Component,EComp'',
      ''Emoji_Modifier,EMod'', ''Emoji_Modifier_Base,EBase'', ''Emoji_Presentation,EPres'',
      ''Extended_Pictographic,ExtPict'', ''Default_Ignorable_Code_Point,DI'', ''ID_Start,IDS'',
      ''Case_Ignorable,CI'', ''ASCII'', ''Alphabetic,Alpha'', ''Any'', ''Assigned'', ''Cased'',
      ''Changes_When_Casefolded,CWCF'', ''Changes_When_Casemapped,CWCM'',
      ''Changes_When_Lowercased,CWL'', ''Changes_When_NFKC_Casefolded,CWKCF'',
      ''Changes_When_Titlecased,CWT'', ''Changes_When_Uppercased,CWU'',
      ''Grapheme_Base,Gr_Base'', ''Grapheme_Extend,Gr_Ext'', ''ID_Continue,IDC'',
      ''Lowercase,Lower'', ''Math'', ''Uppercase,Upper'', ''XID_Continue,XIDC'',
      ''XID_Start,XIDS'']"

definition unicode_prop_name_table :: string where
  "unicode_prop_name_table = name_table unicode_prop_names"

definition unicode_prop_Hyphen_table :: "u8 list" where
  "unicode_prop_Hyphen_table =
   [0xac, 0x80, 0xfe, 0x80, 0x44, 0xdb, 0x80, 0x52, 0x7a, 0x80, 0x48, 0x8, 0x81, 0x4e, 0x4, 0x80,
    0x42, 0xe2, 0x80, 0x60, 0xcd, 0x66, 0x80, 0x40, 0xa8, 0x80, 0xd6, 0x80]"

definition unicode_prop_Other_Math_table :: "u8 list" where
  "unicode_prop_Other_Math_table =
   [0xdd, 0x80, 0x43, 0x70, 0x11, 0x80, 0x99, 0x9, 0x81, 0x5c, 0x1f, 0x80, 0x9a, 0x82, 0x8a,
    0x80, 0x9f, 0x83, 0x97, 0x81, 0x8d, 0x81, 0xc0, 0x8c, 0x18, 0x11, 0x1c, 0x91, 0x3, 0x1, 0x89,
    0x0, 0x14, 0x28, 0x11, 0x9, 0x2, 0x5, 0x13, 0x24, 0xca, 0x21, 0x18, 0x8, 0x8, 0x0, 0x21, 0xb,
    0xb, 0x91, 0x9, 0x0, 0x6, 0x0, 0x29, 0x41, 0x21, 0x83, 0x40, 0xa7, 0x8, 0x80, 0x97, 0x80,
    0x90, 0x80, 0x41, 0xbc, 0x81, 0x8b, 0x88, 0x24, 0x21, 0x9, 0x14, 0x8d, 0x0, 0x1, 0x85, 0x97,
    0x81, 0xb8, 0x0, 0x80, 0x9c, 0x83, 0x88, 0x81, 0x41, 0x55, 0x81, 0x9e, 0x89, 0x41, 0x92,
    0x95, 0xbe, 0x83, 0x9f, 0x81, 0x60, 0xd4, 0x62, 0x0, 0x3, 0x80, 0x40, 0xd2, 0x0, 0x80, 0x60,
    0xd4, 0xc0, 0xd4, 0x80, 0xc6, 0x1, 0x8, 0x9, 0xb, 0x80, 0x8b, 0x0, 0x6, 0x80, 0xc0, 0x3, 0xf,
    0x6, 0x80, 0x9b, 0x3, 0x4, 0x0, 0x16, 0x80, 0x41, 0x53, 0x81, 0x98, 0x80, 0x98, 0x80, 0x9e,
    0x80, 0x98, 0x80, 0x9e, 0x80, 0x98, 0x80, 0x9e, 0x80, 0x98, 0x80, 0x9e, 0x80, 0x98, 0x7,
    0x81, 0xb1, 0x55, 0xff, 0x18, 0x9a, 0x1, 0x0, 0x8, 0x80, 0x89, 0x3, 0x0, 0x0, 0x28, 0x18,
    0x0, 0x0, 0x2, 0x1, 0x0, 0x8, 0x0, 0x0, 0x0, 0x0, 0x1, 0x0, 0xb, 0x6, 0x3, 0x3, 0x0, 0x80,
    0x89, 0x80, 0x90, 0x22, 0x4, 0x80, 0x90]"

definition unicode_prop_Other_Alphabetic_table :: "u8 list" where
  "unicode_prop_Other_Alphabetic_table =
   [0x43, 0x44, 0x80, 0x42, 0x69, 0x8d, 0x0, 0x1, 0x1, 0x0, 0xc7, 0x8a, 0xaf, 0x8c, 0x6, 0x8f,
    0x80, 0xe4, 0x33, 0x19, 0xb, 0x80, 0xa2, 0x80, 0x9d, 0x8f, 0xe5, 0x8a, 0xe4, 0xa, 0x88, 0x2,
    0x3, 0x40, 0xa6, 0x8b, 0x16, 0x85, 0x93, 0xb5, 0x9, 0x8e, 0x1, 0x22, 0x89, 0x81, 0x9c, 0x82,
    0xb9, 0x31, 0x9, 0x81, 0x89, 0x80, 0x89, 0x81, 0x9c, 0x82, 0xb9, 0x23, 0x9, 0xb, 0x80, 0x9d,
    0xa, 0x80, 0x8a, 0x82, 0xb9, 0x38, 0x10, 0x81, 0x94, 0x81, 0x95, 0x13, 0x82, 0xb9, 0x31, 0x9,
    0x81, 0x88, 0x81, 0x89, 0x81, 0x9d, 0x80, 0xba, 0x22, 0x10, 0x82, 0x89, 0x80, 0xa7, 0x83,
    0xb9, 0x30, 0x10, 0x17, 0x81, 0x8a, 0x81, 0x9c, 0x82, 0xb9, 0x30, 0x10, 0x17, 0x81, 0x8a,
    0x81, 0x9b, 0x83, 0xb9, 0x30, 0x10, 0x82, 0x89, 0x80, 0x89, 0x81, 0x9c, 0x82, 0xca, 0x28,
    0x0, 0x87, 0x91, 0x81, 0xbc, 0x1, 0x86, 0x91, 0x80, 0xe2, 0x1, 0x28, 0x81, 0x8f, 0x80, 0x40,
    0xa2, 0x90, 0x8a, 0x8a, 0x80, 0xa3, 0xed, 0x8b, 0x0, 0xb, 0x96, 0x1b, 0x10, 0x11, 0x32, 0x83,
    0x8c, 0x8b, 0x0, 0x89, 0x83, 0x46, 0x73, 0x81, 0x9d, 0x81, 0x9d, 0x81, 0x9d, 0x81, 0xc1,
    0x92, 0x40, 0xbb, 0x81, 0xa1, 0x80, 0xf5, 0x8b, 0x83, 0x88, 0x40, 0xdd, 0x84, 0xb8, 0x89,
    0x81, 0x93, 0xc9, 0x81, 0xbe, 0x84, 0xaf, 0x8e, 0xbb, 0x82, 0x9d, 0x88, 0x9, 0xb8, 0x8a,
    0xb1, 0x92, 0x41, 0xaf, 0x8d, 0x46, 0xc0, 0xb3, 0x48, 0xf5, 0x9f, 0x60, 0x78, 0x73, 0x87,
    0xa1, 0x81, 0x41, 0x61, 0x7, 0x80, 0x96, 0x84, 0xd7, 0x81, 0xb1, 0x8f, 0x0, 0xb8, 0x80, 0xa5,
    0x84, 0x9b, 0x8b, 0xac, 0x83, 0xaf, 0x8b, 0xa4, 0x80, 0xc2, 0x8d, 0x8b, 0x7, 0x81, 0xac,
    0x82, 0xb1, 0x0, 0x11, 0xc, 0x80, 0xab, 0x24, 0x80, 0x40, 0xec, 0x87, 0x60, 0x4f, 0x32, 0x80,
    0x48, 0x56, 0x84, 0x46, 0x85, 0x10, 0xc, 0x83, 0x43, 0x13, 0x83, 0x41, 0x82, 0x81, 0x41,
    0x52, 0x82, 0xb4, 0x8d, 0xbb, 0x80, 0xac, 0x88, 0xc6, 0x82, 0xa3, 0x8b, 0x91, 0x81, 0xb8,
    0x82, 0xaf, 0x8c, 0x8d, 0x81, 0xdb, 0x88, 0x8, 0x28, 0x40, 0x9f, 0x89, 0x96, 0x83, 0xb9,
    0x31, 0x9, 0x81, 0x89, 0x80, 0x89, 0x81, 0x40, 0xd0, 0x8c, 0x2, 0xe9, 0x91, 0x40, 0xec, 0x31,
    0x86, 0x9c, 0x81, 0xd1, 0x8e, 0x0, 0xe9, 0x8a, 0xe6, 0x8d, 0x41, 0x0, 0x8c, 0x40, 0xf6, 0x28,
    0x9, 0xa, 0x0, 0x80, 0x40, 0x8d, 0x31, 0x2b, 0x80, 0x9b, 0x89, 0xa9, 0x20, 0x83, 0x91, 0x8a,
    0xad, 0x8d, 0x41, 0x96, 0x38, 0x86, 0xd2, 0x95, 0x80, 0x8d, 0xf9, 0x2a, 0x0, 0x8, 0x10, 0x2,
    0x80, 0xc1, 0x20, 0x8, 0x83, 0x41, 0x5b, 0x83, 0x60, 0x50, 0x57, 0x0, 0xb6, 0x33, 0xdc, 0x81,
    0x60, 0x4c, 0xab, 0x80, 0x60, 0x23, 0x60, 0x30, 0x90, 0xe, 0x1, 0x4, 0x49, 0x1b, 0x80, 0x47,
    0xe7, 0x99, 0x85, 0x99, 0x85, 0x99]"

definition unicode_prop_Other_Lowercase_table :: "u8 list" where
  "unicode_prop_Other_Lowercase_table =
   [0x40, 0xa9, 0x80, 0x8e, 0x80, 0x41, 0xf4, 0x88, 0x31, 0x9d, 0x84, 0xdf, 0x80, 0xb3, 0x80,
    0x59, 0xb0, 0xbe, 0x8c, 0x80, 0xa1, 0xa4, 0x42, 0xb0, 0x80, 0x8c, 0x80, 0x8f, 0x8c, 0x40,
    0xd2, 0x8f, 0x43, 0x4f, 0x99, 0x47, 0x91, 0x81, 0x60, 0x7a, 0x1d, 0x81, 0x40, 0xd1, 0x80,
    0x40, 0x86, 0x81, 0x43, 0x61, 0x83]"

definition unicode_prop_Other_Uppercase_table :: "u8 list" where
  "unicode_prop_Other_Uppercase_table =
   [0x60, 0x21, 0x5f, 0x8f, 0x43, 0x45, 0x99, 0x61, 0xcc, 0x5f, 0x99, 0x85, 0x99, 0x85, 0x99]"

definition unicode_prop_Other_Grapheme_Extend_table :: "u8 list" where
  "unicode_prop_Other_Grapheme_Extend_table =
   [0x49, 0xbd, 0x80, 0x97, 0x80, 0x41, 0x65, 0x80, 0x97, 0x80, 0xe5, 0x80, 0x97, 0x80, 0x40,
    0xe9, 0x80, 0x91, 0x81, 0xe6, 0x80, 0x97, 0x80, 0xf6, 0x80, 0x8e, 0x80, 0x4d, 0x54, 0x80,
    0x44, 0xd5, 0x80, 0x50, 0x20, 0x81, 0x60, 0xcf, 0x6d, 0x81, 0x53, 0x9d, 0x80, 0x97, 0x80,
    0x41, 0x57, 0x80, 0x8b, 0x80, 0x40, 0xf0, 0x80, 0x43, 0x7f, 0x80, 0x60, 0xb8, 0x33, 0x7,
    0x84, 0x6c, 0x2e, 0xac, 0xdf]"

definition unicode_prop_Other_Default_Ignorable_Code_Point_table :: "u8 list" where
  "unicode_prop_Other_Default_Ignorable_Code_Point_table =
   [0x43, 0x4e, 0x80, 0x4e, 0xe, 0x81, 0x46, 0x52, 0x81, 0x48, 0xae, 0x80, 0x50, 0xfd, 0x80,
    0x60, 0xce, 0x3a, 0x80, 0xce, 0x88, 0x6d, 0x0, 0x6, 0x0, 0x9d, 0xdf, 0xff, 0x40, 0xef, 0x4e,
    0xf]"

definition unicode_prop_Other_ID_Start_table :: "u8 list" where
  "unicode_prop_Other_ID_Start_table =
   [0x58, 0x84, 0x81, 0x48, 0x90, 0x80, 0x94, 0x80, 0x4f, 0x6b, 0x81]"

definition unicode_prop_Other_ID_Continue_table :: "u8 list" where
  "unicode_prop_Other_ID_Continue_table =
   [0x40, 0xb6, 0x80, 0x42, 0xce, 0x80, 0x4f, 0xe0, 0x88, 0x46, 0x67, 0x80]"

definition unicode_prop_Prepended_Concatenation_Mark_table :: "u8 list" where
  "unicode_prop_Prepended_Concatenation_Mark_table =
   [0x45, 0xff, 0x85, 0x40, 0xd6, 0x80, 0xb0, 0x80, 0x41, 0xd1, 0x80, 0x61, 0x7, 0xd9, 0x80,
    0x8e, 0x80]"

definition unicode_prop_XID_Start1_table :: "u8 list" where
  "unicode_prop_XID_Start1_table =
   [0x43, 0x79, 0x80, 0x4a, 0xb7, 0x80, 0xfe, 0x80, 0x60, 0x21, 0xe6, 0x81, 0x60, 0xcb, 0xc0,
    0x85, 0x41, 0x95, 0x81, 0xf3, 0x0, 0x0, 0x0, 0x0, 0x0, 0x0, 0x0, 0x80, 0x41, 0x1e, 0x81]"

definition unicode_prop_XID_Continue1_table :: "u8 list" where
  "unicode_prop_XID_Continue1_table =
   [0x43, 0x79, 0x80, 0x60, 0x2d, 0x1f, 0x81, 0x60, 0xcb, 0xc0, 0x85, 0x41, 0x95, 0x81, 0xf3,
    0x0, 0x0, 0x0, 0x0, 0x0, 0x0, 0x0, 0x80]"

definition unicode_prop_Changes_When_Titlecased1_table :: "u8 list" where
  "unicode_prop_Changes_When_Titlecased1_table =
   [0x41, 0xc3, 0x8, 0x8, 0x81, 0xa4, 0x81, 0x4e, 0xdc, 0xaa, 0xa, 0x4e, 0x87, 0x3f, 0x3f, 0x87,
    0x8b, 0x80, 0x8e, 0x80, 0xae, 0x80]"

definition unicode_prop_Changes_When_Casefolded1_table :: "u8 list" where
  "unicode_prop_Changes_When_Casefolded1_table =
   [0x40, 0xde, 0x80, 0xcf, 0x80, 0x97, 0x80, 0x44, 0x3c, 0x80, 0x59, 0x11, 0x80, 0x40, 0xe4,
    0x3f, 0x3f, 0x87, 0x89, 0x11, 0x5, 0x2, 0x11, 0x80, 0xa9, 0x11, 0x80, 0x60, 0xdb, 0x7, 0x86,
    0x8b, 0x84]"

definition unicode_prop_Changes_When_NFKC_Casefolded1_table :: "u8 list" where
  "unicode_prop_Changes_When_NFKC_Casefolded1_table =
   [0x40, 0x9f, 0x6, 0x0, 0x1, 0x0, 0x1, 0x12, 0x10, 0x82, 0x9f, 0x80, 0xcf, 0x1, 0x80, 0x8b,
    0x7, 0x80, 0xfb, 0x1, 0x1, 0x80, 0xa5, 0x80, 0x40, 0xbb, 0x88, 0x9e, 0x29, 0x84, 0xda, 0x8,
    0x81, 0x89, 0x80, 0xa3, 0x4, 0x2, 0x4, 0x8, 0x80, 0xc9, 0x82, 0x9c, 0x80, 0x41, 0x93, 0x80,
    0x40, 0x93, 0x80, 0xd7, 0x83, 0x42, 0xde, 0x87, 0xfb, 0x8, 0x80, 0xd2, 0x1, 0x80, 0xa1, 0x11,
    0x80, 0x40, 0xfc, 0x81, 0x42, 0xd4, 0x80, 0xfe, 0x80, 0xa7, 0x81, 0xad, 0x80, 0xb5, 0x80,
    0x88, 0x3, 0x3, 0x3, 0x80, 0x8b, 0x80, 0x88, 0x0, 0x26, 0x80, 0x90, 0x80, 0x88, 0x3, 0x3,
    0x3, 0x80, 0x8b, 0x80, 0x41, 0x41, 0x80, 0xe1, 0x81, 0x46, 0x52, 0x81, 0xd4, 0x83, 0x45,
    0x1c, 0x10, 0x8a, 0x80, 0x91, 0x80, 0x9b, 0x8c, 0x80, 0xa1, 0xa4, 0x40, 0xd9, 0x80, 0x40,
    0xd5, 0x0, 0x0, 0x0, 0x0, 0x0, 0x0, 0x1, 0x3f, 0x3f, 0x87, 0x89, 0x11, 0x4, 0x0, 0x29, 0x4,
    0x12, 0x80, 0x88, 0x12, 0x80, 0x88, 0x11, 0x11, 0x4, 0x8, 0x8f, 0x0, 0x20, 0x8b, 0x12, 0x2a,
    0x8, 0xb, 0x0, 0x7, 0x82, 0x8c, 0x6, 0x92, 0x81, 0x9a, 0x80, 0x8c, 0x8a, 0x80, 0xd6, 0x18,
    0x10, 0x8a, 0x1, 0xc, 0xa, 0x0, 0x10, 0x11, 0x2, 0x6, 0x5, 0x1c, 0x85, 0x8f, 0x8f, 0x8f,
    0x88, 0x80, 0x40, 0xa1, 0x8, 0x81, 0x40, 0xf7, 0x81, 0x41, 0x34, 0xd5, 0x99, 0x9a, 0x45,
    0x20, 0x80, 0xe6, 0x82, 0xe4, 0x80, 0x41, 0x9e, 0x81, 0x40, 0xf0, 0x80, 0x41, 0x2e, 0x80,
    0xd2, 0x80, 0x8b, 0x40, 0xd5, 0xa9, 0x80, 0xb4, 0x0, 0x82, 0xdf, 0x9, 0x80, 0xde, 0x80, 0xb0,
    0xdd, 0x82, 0x8d, 0xdf, 0x9e, 0x80, 0xa7, 0x87, 0xae, 0x80, 0x41, 0x7f, 0x60, 0x72, 0x9b,
    0x81, 0x40, 0xd1, 0x80, 0x40, 0x86, 0x81, 0x43, 0x61, 0x83, 0x88, 0x80, 0x60, 0x4d, 0x95,
    0x41, 0xd, 0x8, 0x0, 0x81, 0x89, 0x0, 0x0, 0x9, 0x82, 0xc3, 0x81, 0xe9, 0xa5, 0x86, 0x8b,
    0x24, 0x0, 0x97, 0x4, 0x0, 0x1, 0x1, 0x80, 0xeb, 0xa0, 0x41, 0x6a, 0x91, 0xbf, 0x81, 0xb5,
    0xa7, 0x8c, 0x82, 0x99, 0x95, 0x94, 0x81, 0x8b, 0x80, 0x92, 0x3, 0x1a, 0x0, 0x80, 0x40, 0x86,
    0x8, 0x80, 0x9f, 0x99, 0x40, 0x83, 0x15, 0xd, 0xd, 0xa, 0x16, 0x6, 0x80, 0x88, 0x60, 0xbc,
    0xa6, 0x83, 0x54, 0xb9, 0x86, 0x8d, 0x87, 0xbf, 0x85, 0x42, 0x3e, 0xd4, 0x80, 0xc6, 0x1, 0x8,
    0x9, 0xb, 0x80, 0x8b, 0x0, 0x6, 0x80, 0xc0, 0x3, 0xf, 0x6, 0x80, 0x9b, 0x3, 0x4, 0x0, 0x16,
    0x80, 0x41, 0x53, 0x81, 0x41, 0x23, 0x81, 0xb1, 0x55, 0xff, 0x18, 0x9a, 0x1, 0x0, 0x8, 0x80,
    0x89, 0x3, 0x0, 0x0, 0x28, 0x18, 0x0, 0x0, 0x2, 0x1, 0x0, 0x8, 0x0, 0x0, 0x0, 0x0, 0x1, 0x0,
    0xb, 0x6, 0x3, 0x3, 0x0, 0x80, 0x89, 0x80, 0x90, 0x22, 0x4, 0x80, 0x90, 0x42, 0x43, 0x8a,
    0x84, 0x9e, 0x80, 0x9f, 0x99, 0x82, 0xa2, 0x80, 0xee, 0x82, 0x8c, 0xab, 0x83, 0x88, 0x31,
    0x49, 0x9d, 0x89, 0x60, 0xfc, 0x5, 0x42, 0x1d, 0x6b, 0x5, 0xe1, 0x4f, 0xff]"

definition unicode_prop_ASCII_Hex_Digit_table :: "u8 list" where
  "unicode_prop_ASCII_Hex_Digit_table =
   [0xaf, 0x89, 0x35, 0x99, 0x85]"

definition unicode_prop_Bidi_Control_table :: "u8 list" where
  "unicode_prop_Bidi_Control_table =
   [0x46, 0x1b, 0x80, 0x59, 0xf0, 0x81, 0x99, 0x84, 0xb6, 0x83]"

definition unicode_prop_Dash_table :: "u8 list" where
  "unicode_prop_Dash_table =
   [0xac, 0x80, 0x45, 0x5b, 0x80, 0xb2, 0x80, 0x4e, 0x40, 0x80, 0x44, 0x4, 0x80, 0x48, 0x8, 0x85,
    0xbc, 0x80, 0xa6, 0x80, 0x8e, 0x80, 0x41, 0x85, 0x80, 0x4c, 0x3, 0x1, 0x80, 0x9e, 0xb, 0x80,
    0x41, 0xda, 0x80, 0x92, 0x80, 0xee, 0x80, 0x60, 0xcd, 0x8f, 0x81, 0xa4, 0x80, 0x89, 0x80,
    0x40, 0xa8, 0x80, 0x4f, 0x9e, 0x80]"

definition unicode_prop_Deprecated_table :: "u8 list" where
  "unicode_prop_Deprecated_table =
   [0x41, 0x48, 0x80, 0x45, 0x28, 0x80, 0x49, 0x2, 0x0, 0x80, 0x48, 0x28, 0x81, 0x48, 0xc4, 0x85,
    0x42, 0xb8, 0x81, 0x6d, 0xdc, 0xd5, 0x80]"

definition unicode_prop_Diacritic_table :: "u8 list" where
  "unicode_prop_Diacritic_table =
   [0xdd, 0x0, 0x80, 0xc6, 0x5, 0x3, 0x1, 0x81, 0x41, 0xf6, 0x40, 0x9e, 0x7, 0x25, 0x90, 0xb,
    0x80, 0x88, 0x81, 0x40, 0xfc, 0x84, 0x40, 0xd0, 0x80, 0xb6, 0x90, 0x80, 0x9a, 0x0, 0x1, 0x0,
    0x40, 0x85, 0x3b, 0x81, 0x40, 0x85, 0xb, 0xa, 0x82, 0xc2, 0x9a, 0xda, 0x8a, 0xb9, 0x8a, 0xa1,
    0x81, 0x40, 0xc8, 0x9b, 0xbc, 0x80, 0x8f, 0x2, 0x83, 0x9b, 0x80, 0xc9, 0x80, 0x8f, 0x80,
    0xed, 0x80, 0x8f, 0x80, 0xed, 0x80, 0x8f, 0x80, 0xae, 0x82, 0xbb, 0x80, 0x8f, 0x6, 0x80,
    0xf6, 0x80, 0xfe, 0x80, 0xed, 0x80, 0x8f, 0x80, 0xec, 0x81, 0x8f, 0x80, 0xfb, 0x80, 0xfb,
    0x28, 0x80, 0xea, 0x80, 0x8c, 0x84, 0xca, 0x81, 0x9a, 0x0, 0x0, 0x3, 0x81, 0xc1, 0x10, 0x81,
    0xbd, 0x80, 0xef, 0x0, 0x81, 0xa7, 0xb, 0x84, 0x98, 0x30, 0x80, 0x89, 0x81, 0x42, 0xc0, 0x82,
    0x44, 0x68, 0x8a, 0x88, 0x80, 0x41, 0x5a, 0x82, 0x41, 0x38, 0x39, 0x80, 0xaf, 0x8d, 0xf5,
    0x80, 0x8e, 0x80, 0xa5, 0x88, 0xb5, 0x81, 0x40, 0x89, 0x81, 0xbf, 0x85, 0xd1, 0x98, 0x18,
    0x28, 0xa, 0xb1, 0xbe, 0xd8, 0x8b, 0xa4, 0x22, 0x82, 0x41, 0xbc, 0x0, 0x82, 0x8a, 0x82, 0x8c,
    0x82, 0x8c, 0x82, 0x8c, 0x81, 0x4c, 0xef, 0x82, 0x41, 0x3c, 0x80, 0x41, 0xf9, 0x85, 0xe8,
    0x83, 0xde, 0x80, 0x60, 0x75, 0x71, 0x80, 0x8b, 0x8, 0x80, 0x9b, 0x81, 0xd1, 0x81, 0x8d,
    0xa1, 0xe5, 0x82, 0xec, 0x81, 0x40, 0xc9, 0x80, 0x9a, 0x91, 0xb8, 0x83, 0xa3, 0x80, 0xde,
    0x80, 0x8b, 0x80, 0xa3, 0x80, 0x40, 0x94, 0x82, 0xc0, 0x83, 0xb2, 0x80, 0xe3, 0x84, 0x88,
    0x82, 0xff, 0x81, 0x60, 0x4f, 0x2f, 0x80, 0x43, 0x0, 0x8f, 0x41, 0xd, 0x0, 0x80, 0xae, 0x80,
    0xac, 0x81, 0xc2, 0x80, 0x42, 0xfb, 0x80, 0x48, 0x3, 0x81, 0x42, 0x3a, 0x85, 0x42, 0x1d,
    0x8a, 0x41, 0x67, 0x81, 0xf7, 0x81, 0xbd, 0x80, 0xcb, 0x80, 0x88, 0x82, 0xe7, 0x81, 0x40,
    0xb1, 0x81, 0xd0, 0x80, 0x8f, 0x80, 0x97, 0x32, 0x84, 0x40, 0xcc, 0x2, 0x80, 0xfa, 0x81,
    0x40, 0xfa, 0x81, 0xfd, 0x80, 0xf5, 0x81, 0xf2, 0x80, 0x41, 0xc, 0x81, 0x41, 0x1, 0xb, 0x80,
    0x40, 0x9b, 0x80, 0xd2, 0x80, 0x91, 0x80, 0xd0, 0x80, 0x41, 0xa4, 0x80, 0x41, 0x1, 0x0, 0x81,
    0xd0, 0x80, 0x60, 0x4d, 0x57, 0x84, 0xba, 0x86, 0x44, 0x57, 0x90, 0xcf, 0x81, 0x60, 0x61,
    0x74, 0x12, 0x2f, 0x39, 0x86, 0x9d, 0x83, 0x4f, 0x81, 0x86, 0x41, 0xb4, 0x83, 0x45, 0xdf,
    0x86, 0xec, 0x10, 0x82]"

definition unicode_prop_Extender_table :: "u8 list" where
  "unicode_prop_Extender_table =
   [0x40, 0xb6, 0x80, 0x42, 0x17, 0x81, 0x43, 0x6d, 0x80, 0x41, 0xb8, 0x80, 0x43, 0x59, 0x80,
    0x42, 0xef, 0x80, 0xfe, 0x80, 0x49, 0x42, 0x80, 0xb7, 0x80, 0x42, 0x62, 0x80, 0x41, 0x8d,
    0x80, 0xc3, 0x80, 0x53, 0x88, 0x80, 0xaa, 0x84, 0xe6, 0x81, 0xdc, 0x82, 0x60, 0x6f, 0x15,
    0x80, 0x45, 0xf5, 0x80, 0x43, 0xc1, 0x80, 0x95, 0x80, 0x40, 0x88, 0x80, 0xeb, 0x80, 0x94,
    0x81, 0x60, 0x54, 0x7a, 0x80, 0x53, 0xeb, 0x80, 0x42, 0x67, 0x82, 0x44, 0xce, 0x80, 0x60,
    0x50, 0xa8, 0x81, 0x44, 0x9b, 0x8, 0x80, 0x60, 0x71, 0x57, 0x81, 0x48, 0x5, 0x82]"

definition unicode_prop_Hex_Digit_table :: "u8 list" where
  "unicode_prop_Hex_Digit_table =
   [0xaf, 0x89, 0x35, 0x99, 0x85, 0x60, 0xfe, 0xa8, 0x89, 0x35, 0x99, 0x85]"

definition unicode_prop_IDS_Binary_Operator_table :: "u8 list" where
  "unicode_prop_IDS_Binary_Operator_table =
   [0x60, 0x2f, 0xef, 0x9, 0x87]"

definition unicode_prop_IDS_Trinary_Operator_table :: "u8 list" where
  "unicode_prop_IDS_Trinary_Operator_table =
   [0x60, 0x2f, 0xf1, 0x81]"

definition unicode_prop_Ideographic_table :: "u8 list" where
  "unicode_prop_Ideographic_table =
   [0x60, 0x30, 0x5, 0x81, 0x98, 0x88, 0x8d, 0x82, 0x43, 0xc4, 0x59, 0xbf, 0xbf, 0x60, 0x51,
    0xfc, 0x60, 0x59, 0x2, 0x41, 0x6d, 0x81, 0xe9, 0x60, 0x75, 0x9, 0x80, 0x9a, 0x57, 0xf7, 0x87,
    0x44, 0xd5, 0xa9, 0x88, 0x60, 0x24, 0x66, 0x41, 0x8b, 0x60, 0x4d, 0x3, 0x60, 0xa6, 0xdd,
    0xa1, 0x50, 0x34, 0x8a, 0x40, 0xdd, 0x81, 0x56, 0x81, 0x8d, 0x5d, 0x30, 0x4c, 0x1e, 0x42,
    0x1d, 0x45, 0xe1, 0x53, 0x4a]"

definition unicode_prop_Join_Control_table :: "u8 list" where
  "unicode_prop_Join_Control_table =
   [0x60, 0x20, 0xb, 0x81]"

definition unicode_prop_Logical_Order_Exception_table :: "u8 list" where
  "unicode_prop_Logical_Order_Exception_table =
   [0x4e, 0x3f, 0x84, 0xfa, 0x84, 0x4a, 0xef, 0x11, 0x80, 0x60, 0x90, 0xf9, 0x9, 0x0, 0x81]"

definition unicode_prop_Noncharacter_Code_Point_table :: "u8 list" where
  "unicode_prop_Noncharacter_Code_Point_table =
   [0x60, 0xfd, 0xcf, 0x9f, 0x42, 0xd, 0x81, 0x60, 0xff, 0xfd, 0x81, 0x60, 0xff, 0xfd, 0x81,
    0x60, 0xff, 0xfd, 0x81, 0x60, 0xff, 0xfd, 0x81, 0x60, 0xff, 0xfd, 0x81, 0x60, 0xff, 0xfd,
    0x81, 0x60, 0xff, 0xfd, 0x81, 0x60, 0xff, 0xfd, 0x81, 0x60, 0xff, 0xfd, 0x81, 0x60, 0xff,
    0xfd, 0x81, 0x60, 0xff, 0xfd, 0x81, 0x60, 0xff, 0xfd, 0x81, 0x60, 0xff, 0xfd, 0x81, 0x60,
    0xff, 0xfd, 0x81, 0x60, 0xff, 0xfd, 0x81, 0x60, 0xff, 0xfd, 0x81]"

definition unicode_prop_Pattern_Syntax_table :: "u8 list" where
  "unicode_prop_Pattern_Syntax_table =
   [0xa0, 0x8e, 0x89, 0x86, 0x99, 0x18, 0x80, 0x99, 0x83, 0xa1, 0x30, 0x0, 0x8, 0x0, 0xb, 0x3,
    0x2, 0x80, 0x96, 0x80, 0x9e, 0x80, 0x5f, 0x17, 0x97, 0x87, 0x8e, 0x81, 0x92, 0x80, 0x89,
    0x41, 0x30, 0x42, 0xcf, 0x40, 0x9f, 0x42, 0x75, 0x9d, 0x44, 0x6b, 0x41, 0xff, 0xff, 0x41,
    0x80, 0x13, 0x98, 0x8e, 0x80, 0x60, 0xcd, 0xc, 0x81, 0x41, 0x4, 0x81]"

definition unicode_prop_Pattern_White_Space_table :: "u8 list" where
  "unicode_prop_Pattern_White_Space_table =
   [0x88, 0x84, 0x91, 0x80, 0xe3, 0x80, 0x5f, 0x87, 0x81, 0x97, 0x81]"

definition unicode_prop_Quotation_Mark_table :: "u8 list" where
  "unicode_prop_Quotation_Mark_table =
   [0xa1, 0x3, 0x80, 0x40, 0x82, 0x80, 0x8e, 0x80, 0x5f, 0x5b, 0x87, 0x98, 0x81, 0x4e, 0x6, 0x80,
    0x41, 0xc8, 0x83, 0x8c, 0x82, 0x60, 0xce, 0x20, 0x83, 0x40, 0xbc, 0x3, 0x80, 0xd9, 0x81]"

definition unicode_prop_Radical_table :: "u8 list" where
  "unicode_prop_Radical_table =
   [0x60, 0x2e, 0x7f, 0x99, 0x80, 0xd8, 0x8b, 0x40, 0xd5]"

definition unicode_prop_Regional_Indicator_table :: "u8 list" where
  "unicode_prop_Regional_Indicator_table =
   [0x61, 0xf1, 0xe5, 0x99]"

definition unicode_prop_Sentence_Terminal_table :: "u8 list" where
  "unicode_prop_Sentence_Terminal_table =
   [0xa0, 0x80, 0x8b, 0x80, 0x8f, 0x80, 0x45, 0x48, 0x80, 0x40, 0x93, 0x81, 0x40, 0xb3, 0x80,
    0xaa, 0x82, 0x40, 0xf5, 0x80, 0xbc, 0x0, 0x2, 0x81, 0x41, 0x24, 0x81, 0x46, 0xe3, 0x81, 0x43,
    0x15, 0x3, 0x81, 0x43, 0x4, 0x80, 0x40, 0xc5, 0x81, 0x40, 0xcb, 0x4, 0x80, 0x41, 0x39, 0x81,
    0x41, 0x61, 0x83, 0x40, 0xad, 0x9, 0x81, 0x40, 0xda, 0x81, 0xc0, 0x81, 0x43, 0xbb, 0x81,
    0x88, 0x82, 0x4d, 0xe3, 0x80, 0x8c, 0x80, 0x41, 0xc4, 0x80, 0x60, 0x74, 0xfb, 0x80, 0x41,
    0xd, 0x81, 0x40, 0xe2, 0x2, 0x80, 0x41, 0x7d, 0x81, 0xd5, 0x81, 0xde, 0x80, 0x40, 0x97, 0x81,
    0x40, 0x92, 0x82, 0x40, 0x8f, 0x81, 0x40, 0xf8, 0x80, 0x60, 0x52, 0x65, 0x2, 0x81, 0x40,
    0xa8, 0x80, 0x8b, 0x80, 0x8f, 0x80, 0xc0, 0x80, 0x4a, 0xf3, 0x81, 0x44, 0xfc, 0x84, 0x40,
    0xec, 0x81, 0xf4, 0x83, 0xfe, 0x82, 0x40, 0x80, 0xd, 0x80, 0x8f, 0x81, 0xd7, 0x8, 0x81, 0xeb,
    0x80, 0x41, 0xa0, 0x81, 0x41, 0x74, 0xc, 0x8e, 0xe8, 0x81, 0x40, 0xf8, 0x82, 0x42, 0x4, 0x0,
    0x80, 0x40, 0xfa, 0x81, 0xd6, 0x81, 0x41, 0xa3, 0x81, 0x42, 0xb3, 0x81, 0x60, 0x4b, 0x74,
    0x81, 0x40, 0x84, 0x80, 0xc0, 0x81, 0x8a, 0x80, 0x43, 0x52, 0x80, 0x60, 0x4e, 0x5, 0x80,
    0x5d, 0xe7, 0x80]"

definition unicode_prop_Soft_Dotted_table :: "u8 list" where
  "unicode_prop_Soft_Dotted_table =
   [0xe8, 0x81, 0x40, 0xc3, 0x80, 0x41, 0x18, 0x80, 0x9d, 0x80, 0xb3, 0x80, 0x93, 0x80, 0x41,
    0x3f, 0x80, 0xe1, 0x0, 0x80, 0x59, 0x8, 0x80, 0xb2, 0x80, 0x8c, 0x2, 0x80, 0x40, 0x83, 0x80,
    0x40, 0x9c, 0x80, 0x41, 0xa4, 0x80, 0x40, 0xd5, 0x81, 0x4b, 0x31, 0x80, 0x61, 0xa7, 0xa4,
    0x81, 0xb1, 0x81, 0xb1, 0x81, 0xb1, 0x81, 0xb1, 0x81, 0xb1, 0x81, 0xb1, 0x81, 0xb1, 0x81,
    0xb1, 0x81, 0xb1, 0x81, 0xb1, 0x81, 0xb1, 0x81, 0xb1, 0x81]"

definition unicode_prop_Terminal_Punctuation_table :: "u8 list" where
  "unicode_prop_Terminal_Punctuation_table =
   [0xa0, 0x80, 0x89, 0x0, 0x80, 0x8a, 0xa, 0x80, 0x43, 0x3d, 0x7, 0x80, 0x42, 0x0, 0x80, 0xb8,
    0x80, 0xc7, 0x80, 0x8d, 0x1, 0x81, 0x40, 0xb3, 0x80, 0xaa, 0x8a, 0x0, 0x40, 0xea, 0x81, 0xb5,
    0x8e, 0x9e, 0x80, 0x41, 0x4, 0x81, 0x44, 0xf3, 0x81, 0x40, 0xab, 0x3, 0x85, 0x41, 0x36, 0x81,
    0x43, 0x14, 0x87, 0x43, 0x4, 0x80, 0xfb, 0x82, 0xc6, 0x81, 0x40, 0x9c, 0x12, 0x80, 0xa6,
    0x19, 0x81, 0x41, 0x39, 0x81, 0x41, 0x61, 0x83, 0x40, 0xad, 0x8, 0x82, 0x40, 0xda, 0x84,
    0xbd, 0x81, 0x43, 0xbb, 0x81, 0x88, 0x82, 0x4d, 0xe3, 0x80, 0x8c, 0x3, 0x80, 0x89, 0x0, 0x81,
    0x41, 0xb0, 0x81, 0x60, 0x74, 0xfa, 0x81, 0x41, 0xc, 0x82, 0x40, 0xe2, 0x84, 0x41, 0x7d,
    0x81, 0xd5, 0x81, 0xde, 0x80, 0x40, 0x96, 0x82, 0x40, 0x92, 0x82, 0xfe, 0x80, 0x8f, 0x81,
    0x40, 0xf8, 0x80, 0x60, 0x52, 0x63, 0x10, 0x83, 0x40, 0xa8, 0x80, 0x89, 0x0, 0x80, 0x8a, 0xa,
    0x80, 0xc0, 0x1, 0x80, 0x44, 0x39, 0x80, 0xaf, 0x80, 0x44, 0x85, 0x80, 0x40, 0xc6, 0x80,
    0x41, 0x35, 0x81, 0x40, 0x97, 0x85, 0xc3, 0x85, 0xd8, 0x83, 0x43, 0xb7, 0x84, 0x40, 0xec,
    0x86, 0xef, 0x83, 0xfe, 0x82, 0x40, 0x80, 0xd, 0x80, 0x8f, 0x81, 0xd7, 0x84, 0xeb, 0x80,
    0x41, 0xa0, 0x82, 0x8b, 0x81, 0x41, 0x65, 0x1a, 0x8e, 0xe8, 0x81, 0x40, 0xf8, 0x82, 0x42,
    0x4, 0x0, 0x80, 0x40, 0xfa, 0x81, 0xd6, 0xb, 0x81, 0x41, 0x9d, 0x82, 0xac, 0x80, 0x42, 0x84,
    0x81, 0x45, 0x76, 0x84, 0x60, 0x45, 0xf8, 0x81, 0x40, 0x84, 0x80, 0xc0, 0x82, 0x89, 0x80,
    0x43, 0x51, 0x81, 0x60, 0x4e, 0x5, 0x80, 0x5d, 0xe6, 0x83]"

definition unicode_prop_Unified_Ideograph_table :: "u8 list" where
  "unicode_prop_Unified_Ideograph_table =
   [0x60, 0x33, 0xff, 0x59, 0xbf, 0xbf, 0x60, 0x51, 0xfc, 0x60, 0x5a, 0x10, 0x8, 0x0, 0x81, 0x89,
    0x0, 0x0, 0x9, 0x82, 0x61, 0x5, 0xd5, 0x60, 0xa6, 0xdd, 0xa1, 0x50, 0x34, 0x8a, 0x40, 0xdd,
    0x81, 0x56, 0x81, 0x8d, 0x5d, 0x30, 0x54, 0x1e, 0x53, 0x4a]"

definition unicode_prop_Variation_Selector_table :: "u8 list" where
  "unicode_prop_Variation_Selector_table =
   [0x58, 0xa, 0x82, 0x60, 0xe5, 0xf1, 0x8f, 0x6d, 0x2, 0xef, 0x40, 0xef]"

definition unicode_prop_White_Space_table :: "u8 list" where
  "unicode_prop_White_Space_table =
   [0x88, 0x84, 0x91, 0x80, 0xe3, 0x80, 0x99, 0x80, 0x55, 0xde, 0x80, 0x49, 0x7e, 0x8a, 0x9c,
    0xc, 0x80, 0xae, 0x80, 0x4f, 0x9f, 0x80]"

definition unicode_prop_Bidi_Mirrored_table :: "u8 list" where
  "unicode_prop_Bidi_Mirrored_table =
   [0xa7, 0x81, 0x91, 0x0, 0x80, 0x9b, 0x0, 0x80, 0x9c, 0x0, 0x80, 0xac, 0x80, 0x8e, 0x80, 0x4e,
    0x7d, 0x83, 0x47, 0x5c, 0x81, 0x49, 0x9b, 0x81, 0x89, 0x81, 0xb5, 0x81, 0x8d, 0x81, 0x40,
    0xb0, 0x80, 0x40, 0xbf, 0x1a, 0x2a, 0x2, 0xa, 0x18, 0x18, 0x0, 0x3, 0x88, 0x20, 0x80, 0x91,
    0x23, 0x88, 0x8, 0x0, 0x39, 0x9e, 0xb, 0x20, 0x88, 0x9, 0x92, 0x21, 0x88, 0x21, 0xb, 0x97,
    0x81, 0x8f, 0x3b, 0x93, 0xe, 0x81, 0x44, 0x3c, 0x8d, 0xc9, 0x1, 0x18, 0x8, 0x14, 0x1c, 0x12,
    0x8d, 0x41, 0x92, 0x95, 0xd, 0x80, 0x8d, 0x38, 0x35, 0x10, 0x1c, 0x1, 0xc, 0x18, 0x2, 0x9,
    0x89, 0x29, 0x81, 0x8b, 0x92, 0x3, 0x8, 0x0, 0x8, 0x3, 0x21, 0x2a, 0x97, 0x81, 0x8a, 0xb,
    0x18, 0x9, 0xb, 0xaa, 0xf, 0x80, 0xa7, 0x20, 0x0, 0x14, 0x22, 0x18, 0x14, 0x0, 0x40, 0xff,
    0x80, 0x42, 0x2, 0x1a, 0x8, 0x81, 0x8d, 0x9, 0x89, 0x41, 0xdd, 0x89, 0xf, 0x60, 0xce, 0x3c,
    0x2c, 0x81, 0x40, 0xa1, 0x81, 0x91, 0x0, 0x80, 0x9b, 0x0, 0x80, 0x9c, 0x0, 0x0, 0x8, 0x81,
    0x60, 0xd7, 0x76, 0x80, 0xb8, 0x80, 0xb8, 0x80, 0xb8, 0x80, 0xb8, 0x80]"

definition unicode_prop_Emoji_table :: "u8 list" where
  "unicode_prop_Emoji_table =
   [0xa2, 0x5, 0x4, 0x89, 0xee, 0x3, 0x80, 0x5f, 0x8c, 0x80, 0x8b, 0x80, 0x40, 0xd7, 0x80, 0x95,
    0x80, 0xd9, 0x85, 0x8e, 0x81, 0x41, 0x6e, 0x81, 0x8b, 0x80, 0x40, 0xa5, 0x80, 0x98, 0x8a,
    0x1a, 0x40, 0xc6, 0x80, 0x40, 0xe6, 0x81, 0x89, 0x80, 0x88, 0x80, 0xb9, 0x18, 0x84, 0x88,
    0x1, 0x1, 0x9, 0x3, 0x1, 0x0, 0x9, 0x2, 0x2, 0xf, 0x14, 0x0, 0x4, 0x8b, 0x8a, 0x9, 0x0, 0x8,
    0x80, 0x91, 0x1, 0x81, 0x91, 0x28, 0x0, 0xa, 0xc, 0x1, 0xb, 0x81, 0x8a, 0xc, 0x9, 0x4, 0x8,
    0x0, 0x81, 0x93, 0xc, 0x28, 0x19, 0x3, 0x1, 0x1, 0x28, 0x1, 0x0, 0x0, 0x5, 0x2, 0x5, 0x80,
    0x89, 0x81, 0x8e, 0x1, 0x3, 0x0, 0x3, 0x10, 0x80, 0x8a, 0x81, 0xaf, 0x82, 0x88, 0x80, 0x8d,
    0x80, 0x8d, 0x80, 0x41, 0x73, 0x81, 0x41, 0xce, 0x82, 0x92, 0x81, 0xb2, 0x3, 0x80, 0x44,
    0xd9, 0x80, 0x8b, 0x80, 0x42, 0x58, 0x0, 0x80, 0x61, 0xbd, 0x69, 0x80, 0x40, 0xc9, 0x80,
    0x40, 0x9f, 0x81, 0x8b, 0x81, 0x8d, 0x1, 0x89, 0xca, 0x99, 0x1, 0x96, 0x80, 0x93, 0x1, 0x88,
    0x94, 0x81, 0x40, 0xad, 0xa1, 0x81, 0xef, 0x9, 0x2, 0x81, 0xd2, 0xa, 0x80, 0x41, 0x6, 0x80,
    0xbe, 0x8a, 0x28, 0x97, 0x31, 0xf, 0x8b, 0x1, 0x19, 0x3, 0x81, 0x8c, 0x9, 0x7, 0x81, 0x88,
    0x4, 0x82, 0x8b, 0x17, 0x11, 0x0, 0x3, 0x5, 0x2, 0x5, 0xd5, 0xaf, 0xc5, 0x27, 0xa, 0x3d,
    0x10, 0x1, 0x10, 0x81, 0x89, 0x40, 0xe2, 0x8b, 0x41, 0x1f, 0xae, 0x80, 0x89, 0x80, 0xb1,
    0x80, 0xd1, 0x80, 0xb2, 0xef, 0x22, 0x14, 0x86, 0x88, 0x98, 0x36, 0x88, 0x82, 0x8c, 0x86]"

definition unicode_prop_Emoji_Component_table :: "u8 list" where
  "unicode_prop_Emoji_Component_table =
   [0xa2, 0x5, 0x4, 0x89, 0x5f, 0xd2, 0x80, 0x40, 0xd4, 0x80, 0x60, 0xdd, 0x2a, 0x80, 0x60, 0xf3,
    0xd5, 0x99, 0x41, 0xfa, 0x84, 0x45, 0xaf, 0x83, 0x6c, 0x6, 0x6b, 0xdf]"

definition unicode_prop_Emoji_Modifier_table :: "u8 list" where
  "unicode_prop_Emoji_Modifier_table =
   [0x61, 0xf3, 0xfa, 0x84]"

definition unicode_prop_Emoji_Modifier_Base_table :: "u8 list" where
  "unicode_prop_Emoji_Modifier_Base_table =
   [0x60, 0x26, 0x1c, 0x80, 0x40, 0xda, 0x80, 0x8f, 0x83, 0x61, 0xcc, 0x76, 0x80, 0xbb, 0x11,
    0x1, 0x82, 0xf4, 0x9, 0x8a, 0x94, 0x92, 0x10, 0x1a, 0x2, 0x30, 0x0, 0x97, 0x80, 0x40, 0xc8,
    0xb, 0x80, 0x94, 0x3, 0x81, 0x40, 0xad, 0x12, 0x84, 0xd2, 0x80, 0x8f, 0x82, 0x88, 0x80, 0x8a,
    0x80, 0x42, 0x3e, 0x1, 0x7, 0x3d, 0x80, 0x88, 0x89, 0xa, 0xb7, 0x80, 0xbc, 0x8, 0x8, 0x80,
    0x90, 0x10, 0x8c]"

definition unicode_prop_Emoji_Presentation_table :: "u8 list" where
  "unicode_prop_Emoji_Presentation_table =
   [0x60, 0x23, 0x19, 0x81, 0x40, 0xcc, 0x1a, 0x1, 0x80, 0x42, 0x8, 0x81, 0x94, 0x81, 0xb1, 0x8b,
    0xaa, 0x80, 0x92, 0x80, 0x8c, 0x7, 0x81, 0x90, 0xc, 0xf, 0x4, 0x80, 0x94, 0x6, 0x8, 0x3, 0x1,
    0x6, 0x3, 0x81, 0x9b, 0x80, 0xa2, 0x0, 0x3, 0x10, 0x80, 0xbc, 0x82, 0x97, 0x80, 0x8d, 0x80,
    0x43, 0x5a, 0x81, 0xb2, 0x3, 0x80, 0x61, 0xc4, 0xad, 0x80, 0x40, 0xc9, 0x80, 0x40, 0xbd, 0x1,
    0x89, 0xca, 0x99, 0x0, 0x97, 0x80, 0x93, 0x1, 0x20, 0x82, 0x94, 0x81, 0x40, 0xad, 0xa0, 0x8b,
    0x88, 0x80, 0xc5, 0x80, 0x95, 0x8b, 0xaa, 0x1c, 0x8b, 0x90, 0x10, 0x82, 0xc6, 0x0, 0x80,
    0x40, 0xba, 0x81, 0xbe, 0x8c, 0x18, 0x97, 0x91, 0x80, 0x99, 0x81, 0x8c, 0x80, 0xd5, 0xd4,
    0xaf, 0xc5, 0x28, 0x12, 0xa, 0x92, 0xe, 0x88, 0x40, 0xe2, 0x8b, 0x41, 0x1f, 0xae, 0x80, 0x89,
    0x80, 0xb1, 0x80, 0xd1, 0x80, 0xb2, 0xef, 0x22, 0x14, 0x86, 0x88, 0x98, 0x36, 0x88, 0x82,
    0x8c, 0x86]"

definition unicode_prop_Extended_Pictographic_table :: "u8 list" where
  "unicode_prop_Extended_Pictographic_table =
   [0x40, 0xa8, 0x3, 0x80, 0x5f, 0x8c, 0x80, 0x8b, 0x80, 0x40, 0xd7, 0x80, 0x95, 0x80, 0xd9,
    0x85, 0x8e, 0x81, 0x41, 0x6e, 0x81, 0x8b, 0x80, 0xde, 0x80, 0xc5, 0x80, 0x98, 0x8a, 0x1a,
    0x40, 0xc6, 0x80, 0x40, 0xe6, 0x81, 0x89, 0x80, 0x88, 0x80, 0xb9, 0x18, 0x28, 0x8b, 0x80,
    0xf1, 0x89, 0xf5, 0x81, 0x8a, 0x0, 0x0, 0x28, 0x10, 0x28, 0x89, 0x81, 0x8e, 0x1, 0x3, 0x0,
    0x3, 0x10, 0x80, 0x8a, 0x84, 0xac, 0x82, 0x88, 0x80, 0x8d, 0x80, 0x8d, 0x80, 0x41, 0x73,
    0x81, 0x41, 0xce, 0x82, 0x92, 0x81, 0xb2, 0x3, 0x80, 0x44, 0xd9, 0x80, 0x8b, 0x80, 0x42,
    0x58, 0x0, 0x80, 0x61, 0xbd, 0x65, 0x40, 0xff, 0x8c, 0x82, 0x9e, 0x80, 0xbb, 0x85, 0x8b,
    0x81, 0x8d, 0x1, 0x89, 0x91, 0xb8, 0x9a, 0x8e, 0x89, 0x80, 0x93, 0x1, 0x88, 0x3, 0x88, 0x41,
    0xb1, 0x84, 0x41, 0x3d, 0x87, 0x41, 0x9, 0xaf, 0xff, 0xf3, 0x8b, 0xd4, 0xaa, 0x8b, 0x83,
    0xb7, 0x87, 0x89, 0x85, 0xa7, 0x87, 0x9d, 0xd1, 0x8b, 0xae, 0x80, 0x89, 0x80, 0x41, 0xb8,
    0x40, 0xff, 0x43, 0xfd]"

definition unicode_prop_Default_Ignorable_Code_Point_table :: "u8 list" where
  "unicode_prop_Default_Ignorable_Code_Point_table =
   [0x40, 0xac, 0x80, 0x42, 0xa0, 0x80, 0x42, 0xcb, 0x80, 0x4b, 0x41, 0x81, 0x46, 0x52, 0x81,
    0xd4, 0x83, 0x47, 0xfb, 0x84, 0x99, 0x84, 0xb0, 0x8f, 0x50, 0xf3, 0x80, 0x60, 0xcc, 0x9a,
    0x8f, 0x40, 0xee, 0x80, 0x40, 0x9f, 0x80, 0xce, 0x88, 0x60, 0xbc, 0xa6, 0x83, 0x54, 0xce,
    0x87, 0x6c, 0x2e, 0x84, 0x4f, 0xff]"

definition unicode_prop_table :: "u8 list list" where
  "unicode_prop_table =
    [unicode_prop_Hyphen_table,
     unicode_prop_Other_Math_table,
     unicode_prop_Other_Alphabetic_table,
     unicode_prop_Other_Lowercase_table,
     unicode_prop_Other_Uppercase_table,
     unicode_prop_Other_Grapheme_Extend_table,
     unicode_prop_Other_Default_Ignorable_Code_Point_table,
     unicode_prop_Other_ID_Start_table,
     unicode_prop_Other_ID_Continue_table,
     unicode_prop_Prepended_Concatenation_Mark_table,
     unicode_prop_ID_Continue1_table,
     unicode_prop_XID_Start1_table,
     unicode_prop_XID_Continue1_table,
     unicode_prop_Changes_When_Titlecased1_table,
     unicode_prop_Changes_When_Casefolded1_table,
     unicode_prop_Changes_When_NFKC_Casefolded1_table,
     unicode_prop_ASCII_Hex_Digit_table,
     unicode_prop_Bidi_Control_table,
     unicode_prop_Dash_table,
     unicode_prop_Deprecated_table,
     unicode_prop_Diacritic_table,
     unicode_prop_Extender_table,
     unicode_prop_Hex_Digit_table,
     unicode_prop_IDS_Binary_Operator_table,
     unicode_prop_IDS_Trinary_Operator_table,
     unicode_prop_Ideographic_table,
     unicode_prop_Join_Control_table,
     unicode_prop_Logical_Order_Exception_table,
     unicode_prop_Noncharacter_Code_Point_table,
     unicode_prop_Pattern_Syntax_table,
     unicode_prop_Pattern_White_Space_table,
     unicode_prop_Quotation_Mark_table,
     unicode_prop_Radical_table,
     unicode_prop_Regional_Indicator_table,
     unicode_prop_Sentence_Terminal_table,
     unicode_prop_Soft_Dotted_table,
     unicode_prop_Terminal_Punctuation_table,
     unicode_prop_Unified_Ideograph_table,
     unicode_prop_Variation_Selector_table,
     unicode_prop_White_Space_table,
     unicode_prop_Bidi_Mirrored_table,
     unicode_prop_Emoji_table,
     unicode_prop_Emoji_Component_table,
     unicode_prop_Emoji_Modifier_table,
     unicode_prop_Emoji_Modifier_Base_table,
     unicode_prop_Emoji_Presentation_table,
     unicode_prop_Extended_Pictographic_table,
     unicode_prop_Default_Ignorable_Code_Point_table,
     unicode_prop_ID_Start_table,
     unicode_prop_Case_Ignorable_table]"

definition unicode_prop_len_table :: "nat list" where
  "unicode_prop_len_table = map length unicode_prop_table"

end
