(* ===== verification/Unicode_Prop.thy ===== *)
theory Unicode_Prop
  imports Unicode_Prop_Tables Case_Conv Char_Range
begin

text \<open>
  Sets of characters by name, in QuickJS's \<^verbatim>\<open>libunicode.c\<close>: general categories, binary properties
  (expressions over smaller sets, evaluated on a stack of character ranges) and scripts. A read
  outside a table, a failed assertion and \<^verbatim>\<open>abort\<close> are \<^const>\<open>None\<close>.
\<close>

section \<open>Names\<close>

text \<open>A pointer into a table of names is the rest of the table. The inner loop goes through the names
  of one entry, which are separated by commas; it ends with the pointer behind the entry.\<close>

function find_alias :: "string \<Rightarrow> string \<Rightarrow> (bool \<times> string) option" where
  "find_alias name p =
     (if NUL \<notin> set p then None
      else
        let s = c_str p; len = length (takeWhile (\<lambda>c. c \<noteq> CHR '','') s); comma = (len < length s) in
        if len = length name \<and> take len p = name then Some (True, p)
        else if comma then find_alias name (drop (len + 1) p)
        else Some (False, drop (len + 1) p))"
  by pat_completeness auto
termination
  by (relation "measure (\<lambda>(name, p). length p)") (auto simp: in_set_conv_decomp)

declare find_alias.simps [simp del]

lemma find_alias_shorter: "find_alias name p = Some (False, q) \<Longrightarrow> length q < length p"
proof (induction name p rule: find_alias.induct)
  case (1 name p)
  then have p: "NUL \<in> set p" by (auto simp: find_alias.simps [of name p] split: if_splits)
  then have "0 < length p" by auto
  then show ?case
    using 1(1) [OF _ refl refl refl] 1(2) p
    by (force simp: find_alias.simps [of name p] Let_def split: if_splits intro: less_le_trans [OF _ diff_le_self])
qed

function find_name_from :: "string \<Rightarrow> string \<Rightarrow> nat \<Rightarrow> int option" where
  "find_name_from name p pos =
     (case p of
        [] \<Rightarrow> None
      | c # _ \<Rightarrow>
        if c = NUL then Some (-1)
        else (case find_alias name p of
            None \<Rightarrow> None
          | Some (True, _) \<Rightarrow> Some (int pos)
          | Some (False, p1) \<Rightarrow> find_name_from name p1 (pos + 1)))"
  by pat_completeness auto
termination
  by (relation "measure (\<lambda>(name, p, pos). length p)") (auto dest: find_alias_shorter)

declare find_name_from.simps [simp del]

definition unicode_find_name :: "string \<Rightarrow> string \<Rightarrow> int option" where
  "unicode_find_name names name = find_name_from (c_str name) names 0"

section \<open>Runs of a property\<close>

text \<open>\<^verbatim>\<open>if (f(...)) return -1;\<close>, where \<open>f\<close> changes the range.\<close>

definition or_fail :: "('h char_range \<times> int) option \<Rightarrow> ('h char_range \<Rightarrow> ('h char_range \<times> int) option) \<Rightarrow>
    ('h char_range \<times> int) option" where
  "or_fail m k = do { (cr, r) \<leftarrow> m; if r \<noteq> 0 then Some (cr, -1) else k cr }"

lemma or_fail_cong [fundef_cong]:
  "m = m1 \<Longrightarrow> (\<And>cr. m1 = Some (cr, 0) \<Longrightarrow> k cr = k1 cr) \<Longrightarrow> or_fail m k = or_fail m1 k1"
  by (cases m1) (auto simp: or_fail_def)

definition add_when :: "bool \<Rightarrow> 'h char_range \<Rightarrow> u32 \<Rightarrow> u32 \<Rightarrow> ('h char_range \<times> int) option" where
  "add_when b1 cr c0 c = (if b1 then cr_add_interval cr c0 c else Some (cr, 0))"

fun prop1_loop :: "'h char_range \<Rightarrow> u8 list \<Rightarrow> u32 \<Rightarrow> bool \<Rightarrow> ('h char_range \<times> int) option" where
  "prop1_loop cr [] c b1 = Some (cr, 0)"
| "prop1_loop cr (b # p) c b1 =
     (let B = ucast b :: u32 in
      if B < 64 then
        let c1 = c + (drop_bit 3 B + 1); c2 = c1 + ((B AND 7) + 1) in
        or_fail (add_when b1 cr c c1) (\<lambda>cr1.
        or_fail (add_when (\<not> b1) cr1 c1 c2) (\<lambda>cr2.
        prop1_loop cr2 p c2 b1))
      else if B \<ge> 0x80 then
        let c1 = c + (B - 0x80 + 1) in
        or_fail (add_when b1 cr c c1) (\<lambda>cr1. prop1_loop cr1 p c1 (\<not> b1))
      else if B < 0x60 then (case p of
          x # p1 \<Rightarrow>
            let c1 = c + ((push_bit 8 (B - 0x40) OR ucast x) + 1) in
            or_fail (add_when b1 cr c c1) (\<lambda>cr1. prop1_loop cr1 p1 c1 (\<not> b1))
        | [] \<Rightarrow> None)
      else (case p of
          x # y # p1 \<Rightarrow>
            let c1 = c + ((push_bit 16 (B - 0x60) OR push_bit 8 (ucast x) OR ucast y) + 1) in
            or_fail (add_when b1 cr c c1) (\<lambda>cr1. prop1_loop cr1 p1 c1 (\<not> b1))
        | _ \<Rightarrow> None))"

definition unicode_prop1 :: "'h char_range \<Rightarrow> nat \<Rightarrow> ('h char_range \<times> int) option" where
  "unicode_prop1 cr prop_idx = do { p \<leftarrow> rd unicode_prop_table prop_idx; prop1_loop cr p 0 False }"

section \<open>General categories\<close>

text \<open>The length less one and the category of the first run, with the bytes that follow it.\<close>

fun gc_entry :: "u8 list \<Rightarrow> (u32 \<times> u32 \<times> u8 list) option" where
  "gc_entry [] = None"
| "gc_entry (b # p) =
     (let n = drop_bit 5 (ucast b); v = ucast b AND 0x1f in
      if n = 7 then (case p of
          [] \<Rightarrow> None
        | x # p1 \<Rightarrow> let n = ucast x in
            if n < 128 then Some (n + 7, v, p1)
            else if n < 128 + 64 then (case p1 of
                y # p2 \<Rightarrow> Some ((push_bit 8 (n - 128) OR ucast y) + (7 + 128), v, p2)
              | [] \<Rightarrow> None)
            else (case p1 of
                y # z # p2 \<Rightarrow> Some ((push_bit 16 (n - 128 - 64) OR push_bit 8 (ucast y) OR ucast z) +
                                  (7 + 128 + push_bit 14 1), v, p2)
              | _ \<Rightarrow> None))
      else Some (n, v, p))"

lemma gc_entry_shorter: "gc_entry p = Some (n, v, p1) \<Longrightarrow> length p1 < length p"
  by (cases p) (auto simp: Let_def split: if_splits list.splits)

definition gc_bit :: "nat \<Rightarrow> u32" where
  "gc_bit i = push_bit i 1"

text \<open>Every second character of a run of alternating upper and lower case letters.\<close>

partial_function (option) add_alternate :: "'h char_range \<Rightarrow> u32 \<Rightarrow> u32 \<Rightarrow> ('h char_range \<times> int) option" where
  "add_alternate cr c0 c =
     (if c0 < c then do {
        (cr1, r) \<leftarrow> cr_add_interval cr c0 (c0 + 1);
        if r \<noteq> 0 then Some (cr1, -1) else add_alternate cr1 (c0 + 2) c
      } else Some (cr, 0))"

definition gc_add :: "'h char_range \<Rightarrow> u32 \<Rightarrow> u32 \<Rightarrow> u32 \<Rightarrow> u32 \<Rightarrow> ('h char_range \<times> int) option" where
  "gc_add cr gc_mask v c0 c =
     (if v = 31 then
        let lu_ll = gc_bit UNICODE_GC_Lu OR gc_bit UNICODE_GC_Ll; b = gc_mask AND lu_ll in
        if b = 0 then Some (cr, 0)
        else if b = lu_ll then cr_add_interval cr c0 c
        else add_alternate cr (c0 + (if gc_mask AND gc_bit UNICODE_GC_Ll \<noteq> 0 then 1 else 0)) c
      else if drop_bit (unat v) gc_mask AND 1 \<noteq> 0 then cr_add_interval cr c0 c
      else Some (cr, 0))"

function gc_loop :: "'h char_range \<Rightarrow> u8 list \<Rightarrow> u32 \<Rightarrow> u32 \<Rightarrow> ('h char_range \<times> int) option" where
  "gc_loop cr p c gc_mask =
     (if p = [] then Some (cr, 0)
      else (case gc_entry p of
          None \<Rightarrow> None
        | Some (n, v, p1) \<Rightarrow>
            let c1 = c + (n + 1) in
            or_fail (gc_add cr gc_mask v c c1) (\<lambda>cr1. gc_loop cr1 p1 c1 gc_mask)))"
  by pat_completeness auto
termination
  by (relation "measure (\<lambda>(cr, p, c, gc_mask). length p)") (auto dest: gc_entry_shorter)

declare gc_loop.simps [simp del]

definition unicode_general_category1 :: "'h char_range \<Rightarrow> u32 \<Rightarrow> ('h char_range \<times> int) option" where
  "unicode_general_category1 cr gc_mask = gc_loop cr unicode_gc_table 0 gc_mask"

definition gc_masks :: "nat list \<Rightarrow> u32" where
  "gc_masks ids = fold (\<lambda>i m. m OR gc_bit i) ids 0"

definition unicode_gc_mask_table :: "u32 list" where
  "unicode_gc_mask_table = map gc_masks
     [[UNICODE_GC_Lu, UNICODE_GC_Ll, UNICODE_GC_Lt],
      [UNICODE_GC_Lu, UNICODE_GC_Ll, UNICODE_GC_Lt, UNICODE_GC_Lm, UNICODE_GC_Lo],
      [UNICODE_GC_Mn, UNICODE_GC_Mc, UNICODE_GC_Me],
      [UNICODE_GC_Nd, UNICODE_GC_Nl, UNICODE_GC_No],
      [UNICODE_GC_Sm, UNICODE_GC_Sc, UNICODE_GC_Sk, UNICODE_GC_So],
      [UNICODE_GC_Pc, UNICODE_GC_Pd, UNICODE_GC_Ps, UNICODE_GC_Pe, UNICODE_GC_Pi, UNICODE_GC_Pf, UNICODE_GC_Po],
      [UNICODE_GC_Zs, UNICODE_GC_Zl, UNICODE_GC_Zp],
      [UNICODE_GC_Cc, UNICODE_GC_Cf, UNICODE_GC_Cs, UNICODE_GC_Co, UNICODE_GC_Cn]]"

definition unicode_general_category :: "'h char_range \<Rightarrow> string \<Rightarrow> ('h char_range \<times> int) option" where
  "unicode_general_category cr gc_name = do {
     gc_idx \<leftarrow> unicode_find_name unicode_gc_name_table gc_name;
     if gc_idx < 0 then Some (cr, -2)
     else do {
       gc_mask \<leftarrow> (if gc_idx \<le> int UNICODE_GC_Co then Some (push_bit (nat gc_idx) 1)
                  else rd unicode_gc_mask_table (nat (gc_idx - int UNICODE_GC_LC)));
       unicode_general_category1 cr gc_mask
     }
   }"

section \<open>Characters that a case conversion changes\<close>

definition CASE_U :: u32 where "CASE_U = 1"
definition CASE_L :: u32 where "CASE_L = 2"
definition CASE_F :: u32 where "CASE_F = 4"

definition run_masks :: "u32 list \<Rightarrow> u32" where
  "run_masks ts = fold (\<lambda>t m. m OR push_bit (unat t) 1) ts 0"

definition tab_run_mask :: "u32 list" where
  "tab_run_mask = map run_masks
     [[RUN_TYPE_U, RUN_TYPE_UF, RUN_TYPE_UL, RUN_TYPE_LSU, RUN_TYPE_U2L_399_EXT2, RUN_TYPE_UF_D20,
       RUN_TYPE_UF_D1_EXT, RUN_TYPE_U_EXT, RUN_TYPE_U_EXT2, RUN_TYPE_U_EXT3],
      [RUN_TYPE_L, RUN_TYPE_LF, RUN_TYPE_UL, RUN_TYPE_LSU, RUN_TYPE_U2L_399_EXT2, RUN_TYPE_LF_EXT,
       RUN_TYPE_L_EXT2],
      [RUN_TYPE_UF, RUN_TYPE_LF, RUN_TYPE_UL, RUN_TYPE_LSU, RUN_TYPE_U2L_399_EXT2, RUN_TYPE_LF_EXT,
       RUN_TYPE_UF_D20, RUN_TYPE_UF_D1_EXT, RUN_TYPE_LF_EXT]]"

definition case1_mask :: "u32 \<Rightarrow> u32" where
  "case1_mask case_mask = fold (\<lambda>i m. if drop_bit i case_mask AND 1 \<noteq> 0 then m OR tab_run_mask ! i else m) [0, 1, 2] 0"

partial_function (option) case_pairs :: "'h char_range \<Rightarrow> u32 \<Rightarrow> u32 \<Rightarrow> u32 \<Rightarrow> ('h char_range \<times> int) option" where
  "case_pairs cr code i len =
     (if i < len then do {
        (cr1, r) \<leftarrow> cr_add_interval cr (code + i) (code + i + 1);
        if r \<noteq> 0 then Some (cr1, -1) else case_pairs cr1 code (i + 2) len
      } else Some (cr, 0))"

definition case1_entry :: "'h char_range \<Rightarrow> u32 \<Rightarrow> u32 \<Rightarrow> ('h char_range \<times> int) option" where
  "case1_entry cr case_mask v =
     (let type = case_type v; code = case_code v; len = case_len v;
          upper = (case_mask AND CASE_U \<noteq> 0);
          both = (upper \<and> case_mask AND (CASE_L OR CASE_F) \<noteq> 0) in
      if type = RUN_TYPE_UL \<and> \<not> both then case_pairs cr (code + (if upper then 1 else 0)) 0 len
      else if type = RUN_TYPE_LSU \<and> \<not> both then 
        or_fail (add_when (\<not> upper) cr code (code + 1)) (\<lambda>cr1.
        or_fail (cr_add_interval cr1 (code + 1) (code + 2)) (\<lambda>cr2.
        add_when upper cr2 (code + 2) (code + 3)))
      else cr_add_interval cr code (code + len))"

fun case1_loop :: "'h char_range \<Rightarrow> u32 \<Rightarrow> u32 \<Rightarrow> u32 list \<Rightarrow> ('h char_range \<times> int) option" where
  "case1_loop cr case_mask rmask [] = Some (cr, 0)"
| "case1_loop cr case_mask rmask (v # vs) =
     (if drop_bit (unat (case_type v)) rmask AND 1 \<noteq> 0 then
        or_fail (case1_entry cr case_mask v) (\<lambda>cr1. case1_loop cr1 case_mask rmask vs)
      else case1_loop cr case_mask rmask vs)"

definition unicode_case1 :: "'h char_range \<Rightarrow> u32 \<Rightarrow> ('h char_range \<times> int) option" where
  "unicode_case1 cr case_mask =
     (if case_mask = 0 then Some (cr, 0)
      else case1_loop cr case_mask (case1_mask case_mask) case_conv_table1)"

section \<open>The stack machine\<close>

datatype prop_op = POP_GC u32 | POP_PROP nat | POP_CASE u32
  | POP_UNION | POP_INTER | POP_XOR | POP_INVERT | POP_END

definition POP_STACK_LEN_MAX :: nat where "POP_STACK_LEN_MAX = 4"

text \<open>The ranges of the stack share the allocator of the result: its state \<open>h\<close> goes from each call to
  the next. The first element of the list is the top of the stack.\<close>

definition using_state :: "'h \<Rightarrow> 'h char_range \<Rightarrow> 'h char_range" where
  "using_state h cr = cr\<lparr>cr_opaque := h\<rparr>"

fun free_ranges :: "'h \<Rightarrow> 'h char_range list \<Rightarrow> 'h" where
  "free_ranges h [] = h"
| "free_ranges h (cr # crs) = free_ranges (cr_free (using_state h cr)) crs"

text \<open>Put a new range on the stack and fill it; the outcome is the state, the stack and whether the
  operation failed.\<close>

definition push_range :: "'h points_realloc \<Rightarrow> ('h char_range \<Rightarrow> ('h char_range \<times> int) option) \<Rightarrow> 'h \<Rightarrow>
    'h char_range list \<Rightarrow> ('h \<times> 'h char_range list \<times> bool) option" where
  "push_range f fill h stack =
     (if length stack \<ge> POP_STACK_LEN_MAX then None
      else do {
        (cr, r) \<leftarrow> fill (cr_init f h (Some f));
        Some (cr_opaque cr, cr # stack, r \<noteq> 0)
      })"

definition combine_ranges :: "'h points_realloc \<Rightarrow> nat \<Rightarrow> 'h \<Rightarrow> 'h char_range list \<Rightarrow>
    ('h \<times> 'h char_range list \<times> bool) option" where
  "combine_ranges f op1 h stack = (case stack of
     cr2 # cr1 # rest \<Rightarrow>
       if length stack \<ge> POP_STACK_LEN_MAX then None
       else do {
         a \<leftarrow> points_used (cr_points cr1) (cr_len cr1);
         b \<leftarrow> points_used (cr_points cr2) (cr_len cr2);
         (cr3, r) \<leftarrow> cr_op (cr_init f h (Some f)) a (cr_len cr1) b (cr_len cr2) op1;
         if r \<noteq> 0 then Some (cr_opaque cr3, cr3 # stack, True)
         else do {
           let h1 = cr_free (using_state (cr_opaque cr3) cr1);
           let h2 = cr_free (using_state h1 cr2);
           Some (h2, cr3 # rest, False)
         }
       }
   | _ \<Rightarrow> None)"

fun prop_step :: "'h points_realloc \<Rightarrow> prop_op \<Rightarrow> 'h \<Rightarrow> 'h char_range list \<Rightarrow>
    ('h \<times> 'h char_range list \<times> bool) option" where
  "prop_step f (POP_GC a) h stack = push_range f (\<lambda>cr. unicode_general_category1 cr a) h stack"
| "prop_step f (POP_PROP a) h stack = push_range f (\<lambda>cr. unicode_prop1 cr a) h stack"
| "prop_step f (POP_CASE a) h stack = push_range f (\<lambda>cr. unicode_case1 cr a) h stack"
| "prop_step f POP_UNION h stack = combine_ranges f CR_OP_UNION h stack"
| "prop_step f POP_INTER h stack = combine_ranges f CR_OP_INTER h stack"
| "prop_step f POP_XOR h stack = combine_ranges f CR_OP_XOR h stack"
| "prop_step f POP_INVERT h stack = (case stack of
     [] \<Rightarrow> None
   | cr # rest \<Rightarrow> do {
       (cr1, r) \<leftarrow> cr_invert (using_state h cr);
       Some (cr_opaque cr1, cr1 # rest, r \<noteq> 0)
     })"
| "prop_step f POP_END h stack = None"

fun prop_run :: "'h points_realloc \<Rightarrow> prop_op list \<Rightarrow> 'h \<Rightarrow> 'h char_range list \<Rightarrow>
    ('h \<times> 'h char_range list \<times> bool) option" where
  "prop_run f [] h stack = None"
| "prop_run f (op1 # ops) h stack =
     (if op1 = POP_END then Some (h, stack, False)
      else do {
        (h1, stack1, failed) \<leftarrow> prop_step f op1 h stack;
        if failed then Some (h1, stack1, True) else prop_run f ops h1 stack1
      })"

definition unicode_prop_ops :: "'h char_range \<Rightarrow> prop_op list \<Rightarrow> ('h char_range \<times> int) option" where
  "unicode_prop_ops cr ops = do {
     (h, stack, failed) \<leftarrow> prop_run (cr_realloc_func cr) ops (cr_opaque cr) [];
     if failed then Some (using_state (free_ranges h (rev stack)) cr, -1)
     else (case stack of
         [cr0] \<Rightarrow> do {
           (cr1, r) \<leftarrow> cr_copy (using_state h cr) cr0;
           Some (using_state (cr_free (using_state (cr_opaque cr1) cr0)) cr1, r)
         }
       | _ \<Rightarrow> None)
   }"

section \<open>Properties by name\<close>

definition gc_op :: "nat list \<Rightarrow> prop_op" where
  "gc_op ids = POP_GC (gc_masks ids)"

definition alphabetic_gcs :: "nat list" where
  "alphabetic_gcs = [UNICODE_GC_Lu, UNICODE_GC_Ll, UNICODE_GC_Lt, UNICODE_GC_Lm, UNICODE_GC_Lo, UNICODE_GC_Nl]"

text \<open>The arguments of \<^verbatim>\<open>unicode_prop_ops\<close> for the properties that are computed.\<close>

definition prop_program :: "nat \<Rightarrow> prop_op list option" where
  "prop_program idx =
     (if idx = UNICODE_PROP_Assigned then Some [gc_op [UNICODE_GC_Cn], POP_INVERT, POP_END]
      else if idx = UNICODE_PROP_Math then
        Some [gc_op [UNICODE_GC_Sm], POP_PROP UNICODE_PROP_Other_Math, POP_UNION, POP_END]
      else if idx = UNICODE_PROP_Lowercase then
        Some [gc_op [UNICODE_GC_Ll], POP_PROP UNICODE_PROP_Other_Lowercase, POP_UNION, POP_END]
      else if idx = UNICODE_PROP_Uppercase then
        Some [gc_op [UNICODE_GC_Lu], POP_PROP UNICODE_PROP_Other_Uppercase, POP_UNION, POP_END]
      else if idx = UNICODE_PROP_Cased then
        Some [gc_op [UNICODE_GC_Lu, UNICODE_GC_Ll, UNICODE_GC_Lt],
          POP_PROP UNICODE_PROP_Other_Uppercase, POP_UNION,
          POP_PROP UNICODE_PROP_Other_Lowercase, POP_UNION, POP_END]
      else if idx = UNICODE_PROP_Alphabetic then
        Some [gc_op alphabetic_gcs, POP_PROP UNICODE_PROP_Other_Uppercase, POP_UNION,
          POP_PROP UNICODE_PROP_Other_Lowercase, POP_UNION,
          POP_PROP UNICODE_PROP_Other_Alphabetic, POP_UNION, POP_END]
      else if idx = UNICODE_PROP_Grapheme_Base then
        Some [gc_op [UNICODE_GC_Cc, UNICODE_GC_Cf, UNICODE_GC_Cs, UNICODE_GC_Co, UNICODE_GC_Cn,
            UNICODE_GC_Zl, UNICODE_GC_Zp, UNICODE_GC_Me, UNICODE_GC_Mn],
          POP_PROP UNICODE_PROP_Other_Grapheme_Extend, POP_UNION, POP_INVERT, POP_END]
      else if idx = UNICODE_PROP_Grapheme_Extend then
        Some [gc_op [UNICODE_GC_Me, UNICODE_GC_Mn],
          POP_PROP UNICODE_PROP_Other_Grapheme_Extend, POP_UNION, POP_END]
      else if idx = UNICODE_PROP_XID_Start then
        Some [gc_op alphabetic_gcs, POP_PROP UNICODE_PROP_Other_ID_Start, POP_UNION,
          POP_PROP UNICODE_PROP_Pattern_Syntax, POP_PROP UNICODE_PROP_Pattern_White_Space, POP_UNION,
          POP_PROP UNICODE_PROP_XID_Start1, POP_UNION, POP_INVERT, POP_INTER, POP_END]
      else if idx = UNICODE_PROP_XID_Continue then
        Some [gc_op (alphabetic_gcs @ [UNICODE_GC_Mn, UNICODE_GC_Mc, UNICODE_GC_Nd, UNICODE_GC_Pc]),
          POP_PROP UNICODE_PROP_Other_ID_Start, POP_UNION,
          POP_PROP UNICODE_PROP_Other_ID_Continue, POP_UNION,
          POP_PROP UNICODE_PROP_Pattern_Syntax, POP_PROP UNICODE_PROP_Pattern_White_Space, POP_UNION,
          POP_PROP UNICODE_PROP_XID_Continue1, POP_UNION, POP_INVERT, POP_INTER, POP_END]
      else if idx = UNICODE_PROP_Changes_When_Titlecased then
        Some [POP_CASE CASE_U, POP_PROP UNICODE_PROP_Changes_When_Titlecased1, POP_XOR, POP_END]
      else if idx = UNICODE_PROP_Changes_When_Casefolded then
        Some [POP_CASE CASE_F, POP_PROP UNICODE_PROP_Changes_When_Casefolded1, POP_XOR, POP_END]
      else if idx = UNICODE_PROP_Changes_When_NFKC_Casefolded then
        Some [POP_CASE CASE_F, POP_PROP UNICODE_PROP_Changes_When_NFKC_Casefolded1, POP_XOR, POP_END]
      else if idx = UNICODE_PROP_ID_Continue then
        Some [POP_PROP UNICODE_PROP_ID_Start, POP_PROP UNICODE_PROP_ID_Continue1, POP_XOR, POP_END]
      else None)"

definition prop_by_index :: "'h char_range \<Rightarrow> nat \<Rightarrow> ('h char_range \<times> int) option" where
  "prop_by_index cr idx =
     (if idx = UNICODE_PROP_ASCII \<or> idx = UNICODE_PROP_Any then do {
        (cr1, r) \<leftarrow> cr_add_interval cr 0 (if idx = UNICODE_PROP_ASCII then 0x7f + 1 else 0x10ffff + 1);
        Some (cr1, if r \<noteq> 0 then -1 else 0)
      }
      else if idx = UNICODE_PROP_Changes_When_Uppercased then unicode_case1 cr CASE_U
      else if idx = UNICODE_PROP_Changes_When_Lowercased then unicode_case1 cr CASE_L
      else if idx = UNICODE_PROP_Changes_When_Casemapped then
        unicode_case1 cr (CASE_U OR CASE_L OR CASE_F)
      else (case prop_program idx of
          Some ops \<Rightarrow> unicode_prop_ops cr ops
        | None \<Rightarrow> if idx \<ge> length unicode_prop_table then Some (cr, -2) else unicode_prop1 cr idx))"

definition unicode_prop :: "'h char_range \<Rightarrow> string \<Rightarrow> ('h char_range \<times> int) option" where
  "unicode_prop cr prop_name = do {
     i \<leftarrow> unicode_find_name unicode_prop_name_table prop_name;
     if i < 0 then Some (cr, -2) else prop_by_index cr (nat i + UNICODE_PROP_ASCII_Hex_Digit)
   }"

section \<open>Scripts\<close>

text \<open>The length less one and the script of the first run.\<close>

fun script_entry :: "u8 list \<Rightarrow> (u32 \<times> u32 \<times> u8 list) option" where
  "script_entry [] = None"
| "script_entry (b # p) = do {
     let B = (ucast b :: u32);
     let n0 = B AND 0x7f;
     (n, p1) \<leftarrow> (if n0 < 96 then Some (n0, p)
        else if n0 < 112 then (case p of
            x # p1 \<Rightarrow> Some ((push_bit 8 (n0 - 96) OR ucast x) + 96, p1)
          | [] \<Rightarrow> None)
        else (case p of
            x # y # p1 \<Rightarrow> Some ((push_bit 16 (n0 - 112) OR push_bit 8 (ucast x) OR ucast y) + (96 + push_bit 12 1), p1)
          | _ \<Rightarrow> None));
     if drop_bit 7 B = 0 then Some (n, 0, p1)
     else (case p1 of v # p2 \<Rightarrow> Some (n, ucast v, p2) | [] \<Rightarrow> None)
   }"

lemma script_entry_shorter: "script_entry p = Some (n, v, p1) \<Longrightarrow> length p1 < length p"
  by (cases p) (auto simp: Let_def split: if_splits list.splits Option.bind_splits)

function script_loop :: "'h char_range \<Rightarrow> u8 list \<Rightarrow> u32 \<Rightarrow> int \<Rightarrow> ('h char_range \<times> int) option" where
  "script_loop cr p c script_idx =
     (if p = [] then Some (cr, 0)
      else (case script_entry p of
          None \<Rightarrow> None
        | Some (n, v, p1) \<Rightarrow>
            let c1 = c + n + 1 in
            or_fail (add_when (uint v = script_idx) cr c c1) (\<lambda>cr1. script_loop cr1 p1 c1 script_idx)))"
  by pat_completeness auto
termination
  by (relation "measure (\<lambda>(cr, p, c, script_idx). length p)") (auto dest: script_entry_shorter)

text \<open>The length less one of the first run of the extensions, and the scripts listed for it.\<close>

fun ext_entry :: "u8 list \<Rightarrow> (u32 \<times> u8 list \<times> u8 list) option" where
  "ext_entry [] = None"
| "ext_entry (b # p) = do {
     let B = (ucast b :: u32);
     (n, p1) \<leftarrow> (if B < 128 then Some (B, p)
        else if B < 128 + 64 then (case p of
            x # p1 \<Rightarrow> Some ((push_bit 8 (B - 128) OR ucast x) + 128, p1)
          | [] \<Rightarrow> None)
        else (case p of
            x # y # p1 \<Rightarrow> Some ((push_bit 16 (B - 128 - 64) OR push_bit 8 (ucast x) OR ucast y) + (128 + push_bit 14 1), p1)
          | _ \<Rightarrow> None));
     (case p1 of
        v_len # p2 \<Rightarrow> if unat v_len \<le> length p2
                       then Some (n, take (unat v_len) p2, drop (unat v_len) p2) else None
      | [] \<Rightarrow> None)
   }"

lemma ext_entry_shorter: "ext_entry p = Some (n, vs, p1) \<Longrightarrow> length p1 < length p"
  by (cases p) (auto simp: Let_def split: if_splits list.splits Option.bind_splits)

function ext_loop :: "'h char_range \<Rightarrow> u8 list \<Rightarrow> u32 \<Rightarrow> int \<Rightarrow> bool \<Rightarrow> ('h char_range \<times> int) option" where
  "ext_loop cr p c script_idx is_common =
     (if p = [] then Some (cr, 0)
      else (case ext_entry p of
          None \<Rightarrow> None
        | Some (n, vs, p1) \<Rightarrow>
            let c1 = c + n + 1 in
            or_fail (add_when (if is_common then vs \<noteq> [] else list_ex (\<lambda>v. uint v = script_idx) vs) cr c c1)
              (\<lambda>cr1. ext_loop cr1 p1 c1 script_idx is_common)))"
  by pat_completeness auto
termination
  by (relation "measure (\<lambda>(cr, p, c, script_idx, is_common). length p)") (auto dest: ext_entry_shorter)

declare script_loop.simps [simp del] ext_loop.simps [simp del]

text \<open>The label \<^verbatim>\<open>fail\<close> ends with a jump to itself. The first time round it frees the two temporary
  ranges; the second time round a block that was freed is freed again, which ends the run with
  \<^verbatim>\<open>Double_free\<close>. Where there is no block to free the jump goes on for ever: \<^const>\<open>None\<close>.\<close>

datatype 'h script_end = Script_end "'h char_range" int | Double_free 'h

definition cr_free_again :: "bool \<Rightarrow> 'h char_range \<Rightarrow> 'h + 'h" where
  "cr_free_again freed cr = (if freed \<and> cr_points cr \<noteq> None then Inl (cr_opaque cr) else Inr (cr_free cr))"

partial_function (option) script_fail ::
    "bool \<Rightarrow> bool \<Rightarrow> 'h char_range \<Rightarrow> 'h char_range \<Rightarrow> 'h script_end option" where
  "script_fail is_ext freed cr1 cr2 =
     (if is_ext then
        (case cr_free_again freed cr1 of
           Inl h \<Rightarrow> Some (Double_free h)
         | Inr h1 \<Rightarrow> (case cr_free_again freed (using_state h1 cr2) of
             Inl h \<Rightarrow> Some (Double_free h)
           | Inr h2 \<Rightarrow> script_fail is_ext True (using_state h2 cr1) cr2))
      else script_fail is_ext freed cr1 cr2)"

definition script_with_extensions :: "'h char_range \<Rightarrow> int \<Rightarrow> 'h script_end option" where
  "script_with_extensions cr script_idx = do {
     let f = cr_realloc_func cr;
     let is_common = (script_idx = int UNICODE_SCRIPT_Common \<or> script_idx = int UNICODE_SCRIPT_Inherited);
     let cr2 = cr_init f (cr_opaque cr) (Some f);
     (cr1, r) \<leftarrow> script_loop (cr_init f (cr_opaque cr) (Some f)) unicode_script_table 0 script_idx;
     if r \<noteq> 0 then script_fail True False cr1 cr2
     else do {
       (cr2, r) \<leftarrow> ext_loop (using_state (cr_opaque cr1) cr2) unicode_script_ext_table 0 script_idx is_common;
       if r \<noteq> 0 then script_fail True False (using_state (cr_opaque cr2) cr1) cr2
       else do {
         (cr2, r) \<leftarrow> (if is_common then cr_invert cr2 else Some (cr2, 0));
         if r \<noteq> 0 then script_fail True False (using_state (cr_opaque cr2) cr1) cr2
         else do {
           a \<leftarrow> points_used (cr_points cr1) (cr_len cr1);
           b \<leftarrow> points_used (cr_points cr2) (cr_len cr2);
           (cr, r) \<leftarrow> cr_op (using_state (cr_opaque cr2) cr) a (cr_len cr1) b (cr_len cr2)
             (if is_common then CR_OP_INTER else CR_OP_UNION);
           if r \<noteq> 0 then script_fail True False (using_state (cr_opaque cr) cr1) cr2
           else do {
             let h1 = cr_free (using_state (cr_opaque cr) cr1);
             let h2 = cr_free (using_state h1 cr2);
             Some (Script_end (using_state h2 cr) 0)
           }
         }
       }
     }
   }"

definition unicode_script :: "'h char_range \<Rightarrow> string \<Rightarrow> bool \<Rightarrow> 'h script_end option" where
  "unicode_script cr script_name is_ext = do {
     i \<leftarrow> unicode_find_name unicode_script_name_table script_name;
     if i < 0 then Some (Script_end cr (-2))
     else do {
       let script_idx = i + int UNICODE_SCRIPT_Unknown + 1;
       if is_ext then script_with_extensions cr script_idx
       else do {
         (cr1, r) \<leftarrow> script_loop cr unicode_script_table 0 script_idx;
         if r \<noteq> 0 then script_fail False False cr1 cr1 else Some (Script_end cr1 0)
       }
     }
   }"

text \<open>It never comes back: with extensions and a block in either range it frees one a second time, and
  otherwise it jumps for ever.\<close>

lemma using_state_fields [simp]: "cr_points (using_state h cr) = cr_points cr" "cr_opaque (using_state h cr) = h"
  by (simp_all add: using_state_def)

lemma script_fail_runs:
  "script_fail is_ext freed cr1 cr2 = Some y \<Longrightarrow>
    is_ext \<and> (cr_points cr1 \<noteq> None \<or> cr_points cr2 \<noteq> None) \<and> (\<exists>h. y = Double_free h)"
proof (induction is_ext freed cr1 cr2 y rule: script_fail.raw_induct [rotated, consumes 1, case_names step])
  case (step f is_ext freed cr1 cr2 y)
  show ?case using step.hyps
    by (fastforce simp: cr_free_again_def split: if_splits sum.splits dest: step.IH)
qed

definition jumps_for_ever :: "bool \<Rightarrow> 'h char_range \<Rightarrow> 'h char_range \<Rightarrow> bool" where
  "jumps_for_ever is_ext cr1 cr2 \<longleftrightarrow> \<not> is_ext \<or> cr_points cr1 = None \<and> cr_points cr2 = None"

lemma script_fail_outcome:
  "jumps_for_ever is_ext cr1 cr2 \<Longrightarrow> script_fail is_ext freed cr1 cr2 = None"
  "\<not> jumps_for_ever is_ext cr1 cr2 \<Longrightarrow> \<exists>h. script_fail is_ext freed cr1 cr2 = Some (Double_free h)"
proof -
  show "jumps_for_ever is_ext cr1 cr2 \<Longrightarrow> script_fail is_ext freed cr1 cr2 = None"
    using script_fail_runs [of is_ext freed cr1 cr2]
    by (cases "script_fail is_ext freed cr1 cr2") (auto simp: jumps_for_ever_def)
  have again: "\<exists>h. script_fail True True c1 c2 = Some (Double_free h)"
    if "cr_points c1 \<noteq> None \<or> cr_points c2 \<noteq> None" for c1 c2 :: "'a char_range"
    using that by (subst script_fail.simps) (auto simp: cr_free_again_def)
  then show "\<not> jumps_for_ever is_ext cr1 cr2 \<Longrightarrow> \<exists>h. script_fail is_ext freed cr1 cr2 = Some (Double_free h)"
    by (subst script_fail.simps) (auto simp: cr_free_again_def jumps_for_ever_def)
qed

end
