(* ===== verification/Unicode_Ranges.thy ===== *)
theory Unicode_Ranges
  imports Unicode_Prop Index_Table
begin

text \<open>
  The loops of \<^verbatim>\<open>Unicode_Prop\<close> that go through a table, as lists of intervals: every one is a sequence
  of calls of \<^const>\<open>cr_add_interval\<close> for an increasing list, and the list holds the characters that
  the runs of the table describe.
\<close>

section \<open>Adding a list of intervals\<close>

fun add_all :: "'h char_range \<Rightarrow> (u32 \<times> u32) list \<Rightarrow> ('h char_range \<times> int) option" where
  "add_all cr [] = Some (cr, 0)"
| "add_all cr ((a, b) # ivs) = or_fail (cr_add_interval cr a b) (\<lambda>cr1. add_all cr1 ivs)"

definition iv_points :: "(u32 \<times> u32) list \<Rightarrow> u32 list" where
  "iv_points ivs = concat (map (\<lambda>(a, b). [a, b]) ivs)"

lemma iv_points_simps [simp]:
  "iv_points [] = []" "iv_points ((a, b) # ivs) = a # b # iv_points ivs"
  "iv_points (xs @ ys) = iv_points xs @ iv_points ys"
  by (simp_all add: iv_points_def)

lemma iv_points_length [simp]: "length (iv_points ivs) = 2 * length ivs"
  by (induction ivs) auto

definition in_ivs :: "(u32 \<times> u32) list \<Rightarrow> u32 \<Rightarrow> bool" where
  "in_ivs ivs c \<longleftrightarrow> (\<exists>(a, b)\<in>set ivs. a \<le> c \<and> c < b)"

lemma in_ivs_simps [simp]:
  "\<not> in_ivs [] c" "in_ivs ((a, b) # ivs) c \<longleftrightarrow> a \<le> c \<and> c < b \<or> in_ivs ivs c"
  "in_ivs (xs @ ys) c \<longleftrightarrow> in_ivs xs c \<or> in_ivs ys c"
  by (auto simp: in_ivs_def)

lemma iv_points_mem: "sorted (iv_points ivs) \<Longrightarrow> cr_mem (iv_points ivs) c = in_ivs ivs c"
proof (induction ivs)
  case (Cons iv ivs)
  obtain a b where iv: "iv = (a, b)" by (cases iv)
  then have o: "a \<le> b" "\<forall>p\<in>set (iv_points ivs). b \<le> p" using Cons.prems by auto
  have "b \<le> c" if "in_ivs ivs c"
    using o(2) that by (force simp: in_ivs_def iv_points_def intro: order.trans)
  then show ?case using Cons o(1) iv by auto
qed simp

lemma or_fail_simps [simp]: "or_fail (Some (cr, 0)) k = k cr" "or_fail None k = None"
  by (simp_all add: or_fail_def)

lemma or_fail_failed [simp]: "r \<noteq> 0 \<Longrightarrow> or_fail (Some (cr, r)) k = Some (cr, -1)"
  by (simp add: or_fail_def)

lemma or_fail_or_fail: "or_fail (or_fail m k) k1 = or_fail m (\<lambda>cr. or_fail (k cr) k1)"
  by (cases m) (auto simp: or_fail_def)

lemma add_all_append: "or_fail (add_all cr xs) (\<lambda>cr1. add_all cr1 ys) = add_all cr (xs @ ys)"
  by (induction cr xs rule: add_all.induct) (simp_all add: or_fail_or_fail cong: or_fail_cong)

lemma add_all_result:
  "cr_ok cr \<Longrightarrow> cr_len cr + 2 * int (length ivs) \<le> 2 ^ 28 \<Longrightarrow>
    \<exists>cr1 r. add_all cr ivs = Some (cr1, r) \<and> cr_ok cr1 \<and>
      (r = 0 \<and> points_of cr1 = points_of cr @ iv_points ivs \<or> r = -1)"
proof (induction cr ivs rule: add_all.induct)
  case (2 cr a b ivs)
  have "cr_len cr + 2 \<le> 2 ^ 28" using 2(3) by simp
  with 2(2) show ?case
  proof (cases rule: cr_add_interval_cases [where ?c1.0 = a and ?c2.0 = b])
    case (1 cr1)
    have "cr_len cr1 = cr_len cr + 2"
      using length_points_of [OF 1(2)] length_points_of [OF 2(2)] 1(3) by simp
    then show ?thesis using 2(1) [OF 1(1)] 1 2(3) by auto
  qed auto
qed simp

lemma add_all_served: "0 \<le> cr_size cr \<Longrightarrow> served (cr_realloc_func cr) (add_all cr ivs)"
proof (induction ivs arbitrary: cr)
  case (Cons iv ivs)
  obtain a b where iv: "iv = (a, b)" by (cases iv)
  have next_served: "served (cr_realloc_func cr) (add_all cr1 ivs)"
    if "cr_realloc_func cr1 = cr_realloc_func cr" "0 \<le> cr_size cr1" for cr1
    using Cons.IH [OF that(2)] unfolding that(1) .
  show ?case unfolding iv add_all.simps or_fail_def
    by (rule served_bind [OF cr_add_interval_served [OF Cons.prems]]) (rule next_served)
qed simp

lemma cr_add_interval_minus1: "cr_add_interval cr a b = Some (cr1, r) \<Longrightarrow> r = 0 \<or> r = -1"
  by (auto simp: cr_add_interval_def Let_def split: Option.bind_splits if_splits)

lemma or_fail_interval [simp]: "or_fail (cr_add_interval cr a b) (\<lambda>cr1. Some (cr1, 0)) = cr_add_interval cr a b"
  using cr_add_interval_minus1 [of cr a b] by (cases "cr_add_interval cr a b") (auto simp: or_fail_def)

lemma add_when_all: "add_when b1 cr c0 c = add_all cr (if b1 then [(c0, c)] else [])"
  by (simp add: add_when_def)

section \<open>Properties\<close>

fun run_ivs :: "bool \<Rightarrow> u32 \<Rightarrow> nat list \<Rightarrow> (u32 \<times> u32) list" where
  "run_ivs b1 c [] = []"
| "run_ivs b1 c (n # ns) =
     (if b1 then [(c, c + word_of_nat n)] else []) @ run_ivs (\<not> b1) (c + word_of_nat n) ns"

lemma word_of_run: "unat (v :: u32) = n \<Longrightarrow> word_of_nat n = v"
  by auto

lemma prop1_loop_adds:
  "table_runs p = Some rs \<Longrightarrow> prop1_loop cr p c b1 = add_all cr (run_ivs b1 c rs)"
proof (induction p arbitrary: cr c b1 rs rule: table_runs_induct)
  case (less p)
  show ?case
  proof (cases p)
    case (Cons b q)
    note ih = less.IH
    have "table_runs (b # q) = Some rs" using less.prems Cons by simp
    then show ?thesis
    proof (cases rule: table_runs_ConsE)
      case (two rs1)
      note w = byte_parts [of b, THEN word_of_run]
      show ?thesis using two(1) ih [OF _ two(2)] Cons
        by (simp add: byte_class Let_def add_when_all add_all_append w two(3) ac_simps)
    next
      case (short rs1)
      have B: "0x80 \<le> (ucast b :: u32)" using short(2) by (simp add: byte_class)
      show ?thesis using short(1,2) ih [OF _ short(3)] Cons
        by (simp only: prop1_loop.simps short(4) run_ivs.simps word_of_run [OF run_values(3) [OF B]]
            add_when_all add_all_append byte_class Let_def if_True if_False) (simp add: or_fail_or_fail)
    next
      case (medium x t rs1)
      have B: "0x40 \<le> (ucast b :: u32)" using medium(1) by (simp add: word_le_nat_alt word_less_nat_alt)
      show ?thesis using medium(1-4) ih [OF _ medium(5)] Cons
        by (simp only: prop1_loop.simps medium(6) run_ivs.simps word_of_run [OF run_values(4) [OF B]] list.case
            add_when_all add_all_append byte_class Let_def if_True if_False) (simp add: or_fail_or_fail)
    next
      case (long x y t rs1)
      have B: "0x60 \<le> (ucast b :: u32)" using long(3) by (simp add: word_le_nat_alt word_less_nat_alt)
      show ?thesis using long(1-4) ih [OF _ long(5)] Cons
        by (simp only: prop1_loop.simps long(6) run_ivs.simps word_of_run [OF run_values(5) [OF B]] list.case
            add_when_all add_all_append byte_class Let_def if_True if_False) (simp add: or_fail_or_fail)
    qed
  qed (use less.prems in simp)
qed

section \<open>General categories\<close>

text \<open>The runs of the table: length and category, where 31 stands for upper and lower case letters in
  turn.\<close>

function gc_runs :: "u8 list \<Rightarrow> (u32 \<times> u32) list option" where
  "gc_runs p =
     (if p = [] then Some []
      else (case gc_entry p of
          None \<Rightarrow> None
        | Some (n, v, p1) \<Rightarrow> map_option (\<lambda>rs. (n + 1, v) # rs) (gc_runs p1)))"
  by pat_completeness auto
termination
  by (relation "measure length") (auto dest: gc_entry_shorter)

declare gc_runs.simps [simp del]

definition run_category :: "u32 \<Rightarrow> u32 \<Rightarrow> nat" where
  "run_category v i = (if v = 31 then (if even i then UNICODE_GC_Lu else UNICODE_GC_Ll) else unat v)"

fun category_of :: "u32 \<Rightarrow> (u32 \<times> u32) list \<Rightarrow> u32 \<Rightarrow> nat option" where
  "category_of c [] x = None"
| "category_of c ((n, v) # rs) x = (if x < c + n then Some (run_category v (x - c)) else category_of (c + n) rs x)"

definition alternate_ivs :: "u32 \<Rightarrow> u32 \<Rightarrow> (u32 \<times> u32) list" where
  "alternate_ivs c0 c = map (\<lambda>i. (c0 + 2 * word_of_nat i, c0 + 2 * word_of_nat i + 1)) [0..<(unat c + 1 - unat c0) div 2]"

definition gc_run_ivs :: "u32 \<Rightarrow> u32 \<Rightarrow> u32 \<Rightarrow> u32 \<Rightarrow> (u32 \<times> u32) list" where
  "gc_run_ivs gc_mask v c0 c =
     (if v = 31 then
        (case (bit gc_mask UNICODE_GC_Lu, bit gc_mask UNICODE_GC_Ll) of
           (False, False) \<Rightarrow> []
         | (True, True) \<Rightarrow> [(c0, c)]
         | (True, False) \<Rightarrow> alternate_ivs c0 c
         | (False, True) \<Rightarrow> alternate_ivs (c0 + 1) c)
      else if bit gc_mask (unat v) then [(c0, c)] else [])"

fun gc_ivs :: "u32 \<Rightarrow> u32 \<Rightarrow> (u32 \<times> u32) list \<Rightarrow> (u32 \<times> u32) list" where
  "gc_ivs gc_mask c [] = []"
| "gc_ivs gc_mask c ((n, v) # rs) = gc_run_ivs gc_mask v c (c + n) @ gc_ivs gc_mask (c + n) rs"

lemma alternate_ivs_step:
  assumes "c0 < c" and "unat c + 2 < 2 ^ 32"
  shows "alternate_ivs c0 c = (c0, c0 + 1) # alternate_ivs (c0 + 2) c"
proof -
  have lt: "unat c0 < unat c" using assms(1) by (simp add: word_less_nat_alt)
  then have u: "unat (c0 + 2) = unat c0 + 2" using assms(2) by (simp add: unat_word_ariths)
  have k: "(unat c + 1 - unat c0) div 2 = Suc ((unat c + 1 - unat (c0 + 2)) div 2)" using lt u by simp
  show ?thesis unfolding alternate_ivs_def k by (simp add: map_upt_Suc algebra_simps del: upt_Suc)
qed

lemma alternate_ivs_end: "c \<le> c0 \<Longrightarrow> alternate_ivs c0 c = []"
  by (simp add: alternate_ivs_def word_le_nat_alt)

lemma add_alternate_adds:
  fixes cr :: "'h char_range"
  assumes "unat c + 2 < 2 ^ 32"
  shows "add_alternate cr c0 c = add_all cr (alternate_ivs c0 c)"
proof (induction "unat c - unat c0" arbitrary: cr c0 rule: less_induct)
  case less
  show ?case
  proof (cases "c0 < c")
    case True
    then have "unat (c0 + 2) = unat c0 + 2" using assms by (simp add: word_less_nat_alt unat_word_ariths)
    then have "add_alternate cr1 (c0 + 2) c = add_all cr1 (alternate_ivs (c0 + 2) c)" for cr1 :: "'h char_range"
      using True less [of "c0 + 2" cr1] by (simp add: word_less_nat_alt)
    then show ?thesis using True
      by (subst add_alternate.simps) (simp add: alternate_ivs_step [OF True assms] or_fail_def cong: if_cong)
  next
    case False
    then show ?thesis by (subst add_alternate.simps) (simp add: alternate_ivs_end)
  qed
qed

lemma gc_bit_test: "gc_mask AND gc_bit k \<noteq> 0 \<longleftrightarrow> bit gc_mask k"
  by (simp add: gc_bit_def push_bit_of_1 and_exp_eq_0_iff_not_bit)

lemma drop_bit_test: "drop_bit k (x :: u32) AND 1 \<noteq> 0 \<longleftrightarrow> bit x k"
  by (simp add: and_one_eq bit_iff_odd_drop_bit odd_iff_mod_2_eq_one)

lemma gc_bit_iff: "bit (gc_bit k) n \<longleftrightarrow> n = k \<and> k < 32"
  by (auto simp: gc_bit_def push_bit_of_1 bit_exp_iff)

lemma gc_lu_ll:
  "gc_mask AND (gc_bit UNICODE_GC_Lu OR gc_bit UNICODE_GC_Ll) = 0 \<longleftrightarrow>
    \<not> bit gc_mask UNICODE_GC_Lu \<and> \<not> bit gc_mask UNICODE_GC_Ll"
  "gc_mask AND (gc_bit UNICODE_GC_Lu OR gc_bit UNICODE_GC_Ll) = gc_bit UNICODE_GC_Lu OR gc_bit UNICODE_GC_Ll \<longleftrightarrow>
    bit gc_mask UNICODE_GC_Lu \<and> bit gc_mask UNICODE_GC_Ll"
proof -
  have lt: "UNICODE_GC_Lu < 32" "UNICODE_GC_Ll < 32" by (simp_all add: UNICODE_GC_Lu_def UNICODE_GC_Ll_def)
  have b: "bit (gc_bit UNICODE_GC_Lu OR gc_bit UNICODE_GC_Ll) n \<longleftrightarrow> n = UNICODE_GC_Lu \<or> n = UNICODE_GC_Ll" for n
    by (simp only: bit_or_iff gc_bit_iff) (auto simp: UNICODE_GC_Lu_def UNICODE_GC_Ll_def)
  show "gc_mask AND (gc_bit UNICODE_GC_Lu OR gc_bit UNICODE_GC_Ll) = 0 \<longleftrightarrow>
      \<not> bit gc_mask UNICODE_GC_Lu \<and> \<not> bit gc_mask UNICODE_GC_Ll"
    using lt by (auto simp: bit_eq_iff [where 'a = "32 word"] bit_and_iff b)
  show "gc_mask AND (gc_bit UNICODE_GC_Lu OR gc_bit UNICODE_GC_Ll) = gc_bit UNICODE_GC_Lu OR gc_bit UNICODE_GC_Ll \<longleftrightarrow>
      bit gc_mask UNICODE_GC_Lu \<and> bit gc_mask UNICODE_GC_Ll"
    using lt by (auto simp: bit_eq_iff [where 'a = "32 word"] bit_and_iff b)
qed

lemma gc_add_adds:
  assumes "unat c + 2 < 2 ^ 32"
  shows "gc_add cr gc_mask v c0 c = add_all cr (gc_run_ivs gc_mask v c0 c)"
proof (cases "v = 31")
  case True
  then show ?thesis
    unfolding gc_add_def gc_run_ivs_def Let_def gc_lu_ll gc_bit_test
    by (cases "bit gc_mask UNICODE_GC_Lu"; cases "bit gc_mask UNICODE_GC_Ll")
      (simp_all add: add_alternate_adds [OF assms])
qed (simp add: gc_add_def gc_run_ivs_def drop_bit_test)

text \<open>The runs end at \<open>fin\<close>, are not empty, and have one of the categories of the enumeration.\<close>

fun gc_runs_ok :: "nat \<Rightarrow> nat \<Rightarrow> (u32 \<times> u32) list \<Rightarrow> bool" where
  "gc_runs_ok fin c [] \<longleftrightarrow> c = fin"
| "gc_runs_ok fin c ((n, v) # rs) \<longleftrightarrow> 0 < n \<and> gc_runs_ok fin (c + unat n) rs"

lemma gc_runs_ok_le: "gc_runs_ok fin c rs \<Longrightarrow> c \<le> fin"
  by (induction fin c rs rule: gc_runs_ok.induct) auto

lemma gc_loop_adds:
  "gc_runs p = Some rs \<Longrightarrow> gc_runs_ok fin (unat c) rs \<Longrightarrow> fin + 2 < 2 ^ 32 \<Longrightarrow>
    gc_loop cr p c gc_mask = add_all cr (gc_ivs gc_mask c rs)"
proof (induction p arbitrary: cr c rs rule: gc_runs.induct)
  case (1 p)
  show ?case
  proof (cases "p = []")
    case True
    then show ?thesis using 1(2) by (simp add: gc_loop.simps gc_runs.simps)
  next
    case False
    obtain n v p1 rs1 where e: "gc_entry p = Some (n, v, p1)" "gc_runs p1 = Some rs1" "rs = (n + 1, v) # rs1"
      using 1(2) False by (auto simp: gc_runs.simps [of p] split: option.splits)
    have fin: "unat c + unat (n + 1) \<le> fin" "gc_runs_ok fin (unat c + unat (n + 1)) rs1"
      using 1(3) gc_runs_ok_le unfolding e(3) by auto
    then have u: "unat (c + (n + 1)) = unat c + unat (n + 1)" using 1(4) by (intro unat_plus_small) simp
    have "unat (c + (n + 1)) + 2 < 2 ^ 32" using u fin(1) 1(4) by simp
    note add = gc_add_adds [OF this]
    have "gc_loop cr1 p1 (c + (n + 1)) gc_mask = add_all cr1 (gc_ivs gc_mask (c + (n + 1)) rs1)" for cr1 :: "'a char_range"
      by (rule 1(1) [OF False e(1) refl refl e(2) _ 1(4)]) (use fin(2) u in simp)
    then show ?thesis using False e
      by (subst gc_loop.simps) (simp add: Let_def add add_all_append)
  qed
qed

section \<open>Ordered lists of intervals\<close>

text \<open>Points from \<open>a\<close> to \<open>b\<close> in increasing order.\<close>

definition ivs_between :: "u32 \<Rightarrow> (u32 \<times> u32) list \<Rightarrow> u32 \<Rightarrow> bool" where
  "ivs_between a ivs b \<longleftrightarrow> sorted (a # iv_points ivs @ [b]) \<and> list_all (\<lambda>(x, y). x < y) ivs"

lemma ivs_between_nil [simp]: "ivs_between a [] b \<longleftrightarrow> a \<le> b"
  by (simp add: ivs_between_def)

lemma ivs_between_one [simp]: "ivs_between a [(x, y)] b \<longleftrightarrow> a \<le> x \<and> x < y \<and> y \<le> b"
  by (auto simp: ivs_between_def)

lemma ivs_between_append:
  "ivs_between a xs b \<Longrightarrow> ivs_between b ys c \<Longrightarrow> ivs_between a (xs @ ys) c"
  by (auto simp: ivs_between_def sorted_append intro: order.trans)

lemma ivs_between_cons: "a \<le> x \<Longrightarrow> x < y \<Longrightarrow> ivs_between y ivs c \<Longrightarrow> ivs_between a ((x, y) # ivs) c"
  by (auto simp: ivs_between_def intro: order.trans less_imp_le)

lemma ivs_between_weaken: "ivs_between b ivs c \<Longrightarrow> a \<le> b \<Longrightarrow> ivs_between a ivs c"
  by (auto simp: ivs_between_def intro: order.trans)

lemma ivs_between_count: "ivs_between a ivs b \<Longrightarrow> length ivs \<le> unat b - unat a"
proof (induction ivs arbitrary: a)
  case (Cons iv ivs)
  obtain x y where iv: "iv = (x, y)" by (cases iv)
  then have "ivs_between y ivs b" "a \<le> x" "x < y" "y \<le> b"
    using Cons.prems by (auto simp: ivs_between_def)
  then show ?case using Cons.IH [of y] by (auto simp: word_le_nat_alt word_less_nat_alt)
qed simp

lemma ivs_between_outside:
  assumes "ivs_between a ivs b" and "in_ivs ivs c"
  shows "a \<le> c \<and> c < b"
proof -
  obtain x y where xy: "(x, y) \<in> set ivs" "x \<le> c" "c < y" using assms(2) by (auto simp: in_ivs_def)
  then have "x \<in> set (iv_points ivs)" "y \<in> set (iv_points ivs)" by (force simp: iv_points_def)+
  then have "a \<le> x" "y \<le> b" using assms(1) by (auto simp: ivs_between_def sorted_append)
  then show ?thesis using xy(2,3) by auto
qed

lemma even_from_two:
  fixes a c x :: nat
  assumes "a < c"
  shows "x = a \<or> a + 2 \<le> x \<and> x < c \<and> even (x - (a + 2)) \<longleftrightarrow> a \<le> x \<and> x < c \<and> even (x - a)"
  using assms by presburger

lemma alternate_ivs_props:
  "c0 \<le> c \<Longrightarrow> unat c + 2 < 2 ^ 32 \<Longrightarrow> ivs_between c0 (alternate_ivs c0 c) c \<and>
    (\<forall>x. in_ivs (alternate_ivs c0 c) x \<longleftrightarrow> c0 \<le> x \<and> x < c \<and> even (unat x - unat c0))"
proof (induction "unat c - unat c0" arbitrary: c0 rule: less_induct)
  case less
  show ?case
  proof (cases "c0 < c")
    case True
    have u: "unat (c0 + 1) = unat c0 + 1" "unat (c0 + 2) = unat c0 + 2"
      using True less.prems(2) by (simp_all add: word_less_nat_alt unat_word_ariths)
    have step: "alternate_ivs c0 c = (c0, c0 + 1) # alternate_ivs (c0 + 2) c"
      by (rule alternate_ivs_step [OF True less.prems(2)])
    have rest: "ivs_between (c0 + 1) (alternate_ivs (c0 + 2) c) c \<and>
        (\<forall>x. in_ivs (alternate_ivs (c0 + 2) c) x \<longleftrightarrow>
          unat c0 + 2 \<le> unat x \<and> unat x < unat c \<and> even (unat x - (unat c0 + 2)))"
    proof (cases "c0 + 2 \<le> c")
      case le: True
      have "unat c - unat (c0 + 2) < unat c - unat c0" using True u by (simp add: word_less_nat_alt)
      note ih = less.hyps [OF this le less.prems(2)]
      have "ivs_between (c0 + 1) (alternate_ivs (c0 + 2) c) c"
        by (rule ivs_between_weaken [of "c0 + 2"]) (use ih u in \<open>simp_all add: word_le_nat_alt\<close>)
      then show ?thesis using ih u(2) by (simp add: word_le_nat_alt word_less_nat_alt)
    next
      case False
      then have "unat c = unat c0 + 1" using True u by (simp add: word_le_nat_alt word_less_nat_alt)
      moreover from this have "alternate_ivs (c0 + 2) c = []" using u by (intro alternate_ivs_end) (simp add: word_le_nat_alt)
      ultimately show ?thesis using u by (auto simp: word_le_nat_alt)
    qed
    have "c0 < c0 + 1" using u by (simp add: word_less_nat_alt)
    then have "ivs_between c0 (alternate_ivs c0 c) c" unfolding step using rest by (intro ivs_between_cons) simp_all
    moreover have "in_ivs (alternate_ivs c0 c) x \<longleftrightarrow> c0 \<le> x \<and> x < c \<and> even (unat x - unat c0)" for x
    proof -
      have "c0 \<le> x \<and> x < c0 + 1 \<longleftrightarrow> unat x = unat c0"
        using u(1) by (auto simp: word_le_nat_alt word_less_nat_alt)
      then show ?thesis
        unfolding step in_ivs_simps
        using even_from_two [of "unat c0" "unat c" "unat x"] True rest by (simp add: word_le_nat_alt word_less_nat_alt)
    qed
    ultimately show ?thesis by blast
  next
    case False
    then show ?thesis using less.prems(1) by (auto simp: alternate_ivs_end)
  qed
qed

lemma even_word: "even (x :: u32) \<longleftrightarrow> even (unat x)"
proof -
  have "odd x \<longleftrightarrow> odd (unat x)" unfolding bit_0 [symmetric] by (simp only: bit_unsigned_iff) simp
  then show ?thesis by blast
qed

lemma even_word_diff: "c0 \<le> x \<Longrightarrow> even (x - c0 :: u32) \<longleftrightarrow> even (unat x - unat c0)"
proof -
  assume "c0 \<le> x"
  then have d: "unat (x - c0) = unat x - unat c0" by (simp add: unat_sub)
  show ?thesis unfolding even_word [of "x - c0"] d by blast
qed

text \<open>One run gives the intervals of the characters whose category is in the mask.\<close>

lemma gc_run_ivs_props:
  assumes "unat c0 + unat n + 2 < 2 ^ 32" and "0 < n"
  shows "ivs_between c0 (gc_run_ivs gc_mask v c0 (c0 + n)) (c0 + n)"
    and "c0 \<le> x \<Longrightarrow> x < c0 + n \<Longrightarrow>
      in_ivs (gc_run_ivs gc_mask v c0 (c0 + n)) x \<longleftrightarrow> bit gc_mask (run_category v (x - c0))"
proof -
  have u: "unat (c0 + n) = unat c0 + unat n" "unat (c0 + 1) = unat c0 + 1"
    using assms(1) by (simp_all add: unat_word_ariths)
  have n: "0 < unat n" using assms(2) by (simp add: word_less_nat_alt)
  have le: "c0 \<le> c0 + n" "c0 + 1 \<le> c0 + n" "c0 \<le> c0 + 1" "c0 < c0 + n"
    using u n by (simp_all add: word_le_nat_alt word_less_nat_alt)
  have small: "unat (c0 + n) + 2 < 2 ^ 32" using u assms(1) by simp
  note lu = alternate_ivs_props [OF le(1) small] and ll = alternate_ivs_props [OF le(2) small]
  have ll': "ivs_between c0 (alternate_ivs (c0 + 1) (c0 + n)) (c0 + n)"
    using ivs_between_weaken [OF _ le(3)] ll by blast
  show "ivs_between c0 (gc_run_ivs gc_mask v c0 (c0 + n)) (c0 + n)"
    using conjunct1 [OF lu] ll' le
    by (cases "bit gc_mask UNICODE_GC_Lu"; cases "bit gc_mask UNICODE_GC_Ll") (simp_all add: gc_run_ivs_def)
  assume x: "c0 \<le> x" "x < c0 + n"
  have odd: "c0 + 1 \<le> x \<and> even (unat x - unat (c0 + 1)) \<longleftrightarrow> odd (unat x - unat c0)"
    using x(1) u(2) by (cases "unat x = unat c0") (auto simp: word_le_nat_alt)
  have in_lu: "in_ivs (alternate_ivs c0 (c0 + n)) x \<longleftrightarrow> even (x - c0)" using lu x even_word_diff [OF x(1)] by blast
  have in_ll: "in_ivs (alternate_ivs (c0 + 1) (c0 + n)) x \<longleftrightarrow> odd (x - c0)" using ll x odd even_word_diff [OF x(1)] by blast
  show "in_ivs (gc_run_ivs gc_mask v c0 (c0 + n)) x \<longleftrightarrow> bit gc_mask (run_category v (x - c0))"
    using x by (cases "bit gc_mask UNICODE_GC_Lu"; cases "bit gc_mask UNICODE_GC_Ll")
      (simp_all add: gc_run_ivs_def run_category_def in_lu in_ll)
qed

lemma gc_ivs_props:
  "gc_runs_ok fin (unat c) rs \<Longrightarrow> fin + 2 < 2 ^ 32 \<Longrightarrow>
    ivs_between c (gc_ivs gc_mask c rs) (word_of_nat fin) \<and>
    (\<forall>x\<ge>c. in_ivs (gc_ivs gc_mask c rs) x \<longleftrightarrow> (\<exists>k. category_of c rs x = Some k \<and> bit gc_mask k))"
proof (induction gc_mask c rs rule: gc_ivs.induct)
  case (1 gc_mask c)
  then have "word_of_nat fin = c" by auto
  then show ?case by simp
next
  case (2 gc_mask c n v rs)
  have fin: "unat c + unat n \<le> fin" "0 < n" "gc_runs_ok fin (unat c + unat n) rs"
    using 2(2) gc_runs_ok_le by auto
  then have small: "unat c + unat n + 2 < 2 ^ 32" using 2(3) by simp
  then have u: "unat (c + n) = unat c + unat n" by (intro unat_plus_small) simp
  note run = gc_run_ivs_props [OF small fin(2)]
  have ih: "ivs_between (c + n) (gc_ivs gc_mask (c + n) rs) (word_of_nat fin)"
    "\<And>x. c + n \<le> x \<Longrightarrow> in_ivs (gc_ivs gc_mask (c + n) rs) x \<longleftrightarrow> (\<exists>k. category_of (c + n) rs x = Some k \<and> bit gc_mask k)"
    using 2(1) [OF _ 2(3)] fin(3) u by auto
  have "in_ivs (gc_ivs gc_mask c ((n, v) # rs)) x \<longleftrightarrow> (\<exists>k. category_of c ((n, v) # rs) x = Some k \<and> bit gc_mask k)"
    if "c \<le> x" for x
  proof (cases "x < c + n")
    case True
    then have "\<not> in_ivs (gc_ivs gc_mask (c + n) rs) x" using ivs_between_outside [OF ih(1)] by fastforce
    then show ?thesis using run(2) [OF that True, of gc_mask v] True by simp
  next
    case False
    then have "\<not> in_ivs (gc_run_ivs gc_mask v c (c + n)) x" using ivs_between_outside [OF run(1)] by blast
    then show ?thesis using ih(2) [of x] False by simp
  qed
  moreover have "ivs_between c (gc_ivs gc_mask c ((n, v) # rs)) (word_of_nat fin)"
    using ivs_between_append [OF run(1) ih(1)] by simp
  ultimately show ?case by blast
qed

section \<open>Runs of a property\<close>

lemma table_runs_bounds:
  "table_runs p = Some rs \<Longrightarrow> list_all (\<lambda>n. 0 < n) rs \<and> sum_list rs \<le> length p * 2 ^ 21 \<and>
    length rs \<le> 2 * length p"
proof (induction p arbitrary: rs rule: table_runs_induct)
  case (less p)
  show ?case
  proof (cases p)
    case (Cons b q)
    note bd = u8_bound [of b]
    have "table_runs (b # q) = Some rs" using less.prems Cons by simp
    then show ?thesis
    proof (cases rule: table_runs_ConsE)
      case (two rs1)
      then show ?thesis using less.IH [OF _ two(2)] Cons bd by auto
    next
      case (short rs1)
      then show ?thesis using less.IH [OF _ short(3)] Cons bd by auto
    next
      case (medium x t rs1)
      then show ?thesis using less.IH [OF _ medium(5)] Cons bd u8_bound [of x] by auto
    next
      case (long x y t rs1)
      have "unat b < 128" using long(2) by (simp add: word_le_nat_alt)
      then show ?thesis using less.IH [OF _ long(5)] long Cons u8_bound [of x] u8_bound [of y] by auto
    qed
  qed (use less.prems in simp)
qed

lemma run_ivs_length: "length (run_ivs b1 c rs) \<le> length rs"
  by (induction b1 c rs rule: run_ivs.induct) auto

lemma run_ivs_props:
  "list_all (\<lambda>n. 0 < n) rs \<Longrightarrow> unat c + sum_list rs < 2 ^ 32 \<Longrightarrow>
    ivs_between c (run_ivs b1 c rs) (word_of_nat (unat c + sum_list rs)) \<and>
    (\<forall>x\<ge>c. in_ivs (run_ivs b1 c rs) x \<longleftrightarrow> runs_mem b1 rs (unat x - unat c))"
proof (induction b1 c rs rule: run_ivs.induct)
  case (2 b1 c n ns)
  have n: "unat (word_of_nat n :: u32) = n" using 2(3) by (simp add: unat_of_nat)
  then have u: "unat (c + word_of_nat n) = unat c + n" using 2(3) by (subst unat_plus_small) simp_all
  let ?rest = "run_ivs (\<not> b1) (c + word_of_nat n) ns"
  have ih: "ivs_between (c + word_of_nat n) ?rest (word_of_nat (unat c + sum_list (n # ns)))"
    "\<And>x. c + word_of_nat n \<le> x \<Longrightarrow> in_ivs ?rest x \<longleftrightarrow> runs_mem (\<not> b1) ns (unat x - (unat c + n))"
    using 2(1) 2(2,3) u by (auto simp: add.assoc)
  have one: "ivs_between c (if b1 then [(c, c + word_of_nat n)] else []) (c + word_of_nat n)"
    using 2(2) u by (auto simp: word_le_nat_alt word_less_nat_alt)
  have "in_ivs (run_ivs b1 c (n # ns)) x \<longleftrightarrow> runs_mem b1 (n # ns) (unat x - unat c)" if "c \<le> x" for x
  proof (cases "x < c + word_of_nat n")
    case True
    then have "\<not> in_ivs ?rest x" using ivs_between_outside [OF ih(1)] by fastforce
    then show ?thesis using True that u by (auto simp: word_le_nat_alt word_less_nat_alt)
  next
    case False
    then have "\<not> in_ivs (if b1 then [(c, c + word_of_nat n)] else []) x"
      using ivs_between_outside [OF one] by blast
    then show ?thesis using ih(2) [of x] False that u by (auto simp: word_le_nat_alt word_less_nat_alt)
  qed
  then show ?case using ivs_between_append [OF one ih(1)] by simp
qed simp

text \<open>The intervals of a table, and the characters in them.\<close>

definition prop_ivs :: "nat \<Rightarrow> (u32 \<times> u32) list" where
  "prop_ivs i = run_ivs False 0 (the (table_runs (unicode_prop_table ! i)))"

lemma prop_ivs_props:
  assumes "i < length unicode_prop_table" and "table_runs (unicode_prop_table ! i) = Some rs"
    and "length (unicode_prop_table ! i) \<le> 2000"
  shows "unicode_prop1 cr i = add_all cr (prop_ivs i)"
    and "ivs_between 0 (prop_ivs i) (word_of_nat (sum_list rs))"
    and "in_ivs (prop_ivs i) x \<longleftrightarrow> table_mem (unicode_prop_table ! i) x"
    and "length (prop_ivs i) \<le> 4000"
proof -
  have "sum_list rs \<le> length (unicode_prop_table ! i) * 2 ^ 21" using table_runs_bounds [OF assms(2)] by blast
  then have "sum_list rs < 2 ^ 32" using assms(3) by simp
  then show "ivs_between 0 (prop_ivs i) (word_of_nat (sum_list rs))"
      "in_ivs (prop_ivs i) x \<longleftrightarrow> table_mem (unicode_prop_table ! i) x"
    using run_ivs_props [OF conjunct1 [OF table_runs_bounds [OF assms(2)]], of 0 False] assms(2)
    by (simp_all add: prop_ivs_def table_mem_def)
  show "unicode_prop1 cr i = add_all cr (prop_ivs i)"
    using assms(1) prop1_loop_adds [OF assms(2), of cr 0 False]
    by (simp add: unicode_prop1_def rd_in prop_ivs_def assms(2))
  have "length (prop_ivs i) \<le> length rs" by (simp add: prop_ivs_def assms(2) run_ivs_length)
  then show "length (prop_ivs i) \<le> 4000" using table_runs_bounds [OF assms(2)] assms(3) by simp
qed

section \<open>Case conversion\<close>

definition case_entry_ivs :: "u32 \<Rightarrow> u32 \<Rightarrow> (u32 \<times> u32) list" where
  "case_entry_ivs case_mask v =
     (let code = case_code v; len = case_len v;
          upper = (case_mask AND CASE_U \<noteq> 0);
          both = (upper \<and> case_mask AND (CASE_L OR CASE_F) \<noteq> 0) in
      if case_type v = RUN_TYPE_UL \<and> \<not> both then
        alternate_ivs (code + (if upper then 1 else 0)) (code + (if upper then 1 else 0) + len)
      else if case_type v = RUN_TYPE_LSU \<and> \<not> both then
        (if upper then [] else [(code, code + 1)]) @ (code + 1, code + 2) #
        (if upper then [(code + 2, code + 3)] else [])
      else [(code, code + len)])"

definition case_ivs :: "u32 \<Rightarrow> (u32 \<times> u32) list" where
  "case_ivs case_mask = (if case_mask = 0 then []
     else concat (map (case_entry_ivs case_mask)
       (filter (\<lambda>v. bit (case1_mask case_mask) (unat (case_type v))) case_conv_table1)))"

lemma case_pairs_alternate:
  fixes cr :: "'h char_range"
  assumes "unat code + unat len + 2 < 2 ^ 32"
  shows "unat i \<le> unat len + 1 \<Longrightarrow> case_pairs cr code i len = add_alternate cr (code + i) (code + len)"
proof (induction "unat len + 2 - unat i" arbitrary: cr i rule: less_induct)
  case less
  have u: "unat (code + i) = unat code + unat i" "unat (code + len) = unat code + unat len"
    using assms less.prems by (simp_all add: unat_word_ariths)
  then have lt: "code + i < code + len \<longleftrightarrow> i < len" by (simp add: word_less_nat_alt)
  show ?case
  proof (cases "i < len")
    case True
    then have i2: "unat (i + 2) = unat i + 2" using assms by (simp add: word_less_nat_alt unat_word_ariths)
    have "case_pairs cr1 code (i + 2) len = add_alternate cr1 (code + i + 2) (code + len)" for cr1 :: "'h char_range"
      using less.hyps [of "i + 2" cr1] i2 True by (simp add: word_less_nat_alt add.assoc)
    then show ?thesis using True lt
      by (subst case_pairs.simps, subst add_alternate.simps) (simp cong: if_cong)
  next
    case False
    then show ?thesis using lt by (subst case_pairs.simps, subst add_alternate.simps) simp
  qed
qed

definition entry_fits :: "u32 \<Rightarrow> bool" where
  "entry_fits v \<longleftrightarrow> 0 < case_len v \<and> (case_type v = RUN_TYPE_UL \<longrightarrow> even (case_len v)) \<and>
     (case_type v = RUN_TYPE_LSU \<longrightarrow> case_len v = 3)"

lemma entries_fit: "list_all entry_fits case_conv_table1"
  unfolding case_conv_table1_def by (simp add: entry_fits_def case_len_def case_type_def RUN_TYPE_UL_def RUN_TYPE_LSU_def)

lemma case_bounds: "unat (case_code v) < 2 ^ 17" "unat (case_len v) < 2 ^ 7"
proof -
  have "unat v < 2 ^ 32" using unsigned_less [of v, where ?'a = nat] by simp
  then show "unat (case_code v) < 2 ^ 17" by (simp add: case_code_def unat_drop div_less_iff_less_mult)
  show "unat (case_len v) < 2 ^ 7"
    using low_bits_value [of "drop_bit 8 v" 7] by (simp add: case_len_def mask_eq_exp_minus_1)
qed

lemma case1_entry_adds: "case1_entry cr case_mask v = add_all cr (case_entry_ivs case_mask v)"
proof -
  have small: "unat (case_code v) + 1 + unat (case_len v) + 2 < 2 ^ 32" using case_bounds [of v] by simp
  have "unat (case_code v + (if up then 1 else 0)) + unat (case_len v) + 2 < 2 ^ 32"
      "unat (case_code v + (if up then 1 else 0) + case_len v) + 2 < 2 ^ 32" for up
    using small by (auto simp: unat_word_ariths)
  note pairs = case_pairs_alternate [OF this(1), of 0] add_alternate_adds [OF this(2)]
  show ?thesis
    by (auto simp: case1_entry_def case_entry_ivs_def Let_def pairs add_when_all add_all_append)
qed

lemma unicode_case1_adds: "unicode_case1 cr case_mask = add_all cr (case_ivs case_mask)"
proof -
  have "case1_loop cr case_mask m vs =
      add_all cr (concat (map (case_entry_ivs case_mask) (filter (\<lambda>v. bit m (unat (case_type v))) vs)))" for m vs
    by (induction vs arbitrary: cr) (simp_all add: drop_bit_test case1_entry_adds add_all_append)
  then show ?thesis by (simp add: unicode_case1_def case_ivs_def)
qed

lemma case_entry_between:
  assumes "entry_fits v"
  shows "ivs_between (case_code v) (case_entry_ivs case_mask v) (case_code v + case_len v)"
proof -
  define code len where "code = case_code v" and "len = case_len v"
  have small: "unat code < 2 ^ 17" "unat len < 2 ^ 7" unfolding code_def len_def by (rule case_bounds)+
  have u: "unat (code + k) = unat code + unat k" if "unat k < 2 ^ 8" for k
    using small that by (simp add: unat_word_ariths)
  have len: "0 < unat len" using assms by (simp add: entry_fits_def len_def word_less_nat_alt)
  have big: "unat (code + len) + 2 < 2 ^ 32" "unat (code + len) = unat code + unat len" "unat (code + 1) = unat code + 1"
    using small u [of len] u [of 1] by simp_all
  have le: "code \<le> code + len" "code < code + len" "code + 1 \<le> code + len" "code \<le> code + 1"
    using big len by (simp_all add: word_le_nat_alt word_less_nat_alt)
  show ?thesis
  proof (cases "case_type v = RUN_TYPE_UL \<and> \<not> (case_mask AND CASE_U \<noteq> 0 \<and> case_mask AND (CASE_L OR CASE_F) \<noteq> 0)")
    case True
    then have ev: "even (unat len)" using assms by (simp add: entry_fits_def len_def even_word [symmetric])
    have shorter: "alternate_ivs (code + 1) (code + 1 + len) = alternate_ivs (code + 1) (code + len)"
      using ev big(2,3) u [of "1 + len"] small by (auto simp: alternate_ivs_def add.assoc unat_word_ariths elim!: evenE)
    have "ivs_between code (alternate_ivs code (code + len)) (code + len)"
        "ivs_between code (alternate_ivs (code + 1) (code + len)) (code + len)"
      using alternate_ivs_props [OF le(1) big(1)] alternate_ivs_props [OF le(3) big(1)]
        ivs_between_weaken [OF _ le(4)] by blast+
    then show ?thesis using True shorter
      unfolding case_entry_ivs_def Let_def code_def [symmetric] len_def [symmetric] by simp
  next
    case not_ul: False
    show ?thesis
    proof (cases "case_type v = RUN_TYPE_LSU \<and> \<not> (case_mask AND CASE_U \<noteq> 0 \<and> case_mask AND (CASE_L OR CASE_F) \<noteq> 0)")
      case True
      then have "len = 3" using assms by (simp add: entry_fits_def len_def)
      then show ?thesis using not_ul True u [of 1] u [of 2] u [of 3]
        unfolding case_entry_ivs_def Let_def code_def [symmetric] len_def [symmetric]
        by (auto simp: ivs_between_def word_le_nat_alt word_less_nat_alt)
    next
      case False
      then show ?thesis using not_ul le
        unfolding case_entry_ivs_def Let_def code_def [symmetric] len_def [symmetric] by auto
    qed
  qed
qed

lemma case_entries_between:
  "ranges_sorted case_code case_len vs \<Longrightarrow> list_all entry_fits vs \<Longrightarrow> (vs \<noteq> [] \<Longrightarrow> a \<le> case_code (hd vs)) \<Longrightarrow>
    a \<le> 0x30000 \<Longrightarrow> ivs_between a (concat (map (case_entry_ivs cm) (filter P vs))) 0x30000"
proof (induction vs arbitrary: a)
  case (Cons v vs)
  let ?fin = "case_code v + case_len v"
  have e: "?fin \<le> 0x30000" using case_bounds [of v] by (simp add: word_le_nat_alt unat_word_ariths)
  have "ivs_between ?fin (concat (map (case_entry_ivs cm) (filter P vs))) 0x30000"
    using Cons by (intro Cons.IH e) (cases vs; simp)+
  moreover have one: "ivs_between (case_code v) (case_entry_ivs cm v) ?fin" using Cons.prems(2) by (intro case_entry_between) simp
  moreover have "ivs_between a (case_entry_ivs cm v) ?fin"
    using one by (rule ivs_between_weaken) (use Cons.prems(3) in simp)
  ultimately show ?case using ivs_between_append [of a "case_entry_ivs cm v" ?fin]
      ivs_between_weaken [of ?fin _ "0x30000" a] Cons.prems(1,3) by (cases vs; cases "P v"; fastforce)
qed simp

lemma case_ivs_between: "ivs_between 0 (case_ivs cm) 0x30000"
  unfolding case_ivs_def
  using case_entries_between [OF case_conv_table1_sorted entries_fit, of 0 cm] by simp

end
