(* ===== verification/Unicode_Sets.thy ===== *)
theory Unicode_Sets
  imports Unicode_Ranges
begin

text \<open>
  What the functions of \<^verbatim>\<open>Unicode_Prop\<close> compute with the generated tables, as sets of characters.
\<close>

section \<open>The table of categories\<close>

text \<open>One pass over the bytes that computes the end of the last run.\<close>

fun gc_total :: "nat \<Rightarrow> u8 list \<Rightarrow> nat option" where
  "gc_total c [] = Some c"
| "gc_total c (b # p) =
     (if unat b div 32 = 7 then (case p of
          [] \<Rightarrow> None
        | x # p1 \<Rightarrow>
            if x < 128 then gc_total (c + (unat x + 8)) p1
            else if x < 192 then (case p1 of
                y # p2 \<Rightarrow> gc_total (c + ((unat x - 128) * 256 + unat y + 136)) p2
              | [] \<Rightarrow> None)
            else (case p1 of
                y # z # p2 \<Rightarrow> gc_total (c + ((unat x - 192) * 65536 + unat y * 256 + unat z + 16520)) p2
              | _ \<Rightarrow> None))
      else gc_total (c + (unat b div 32 + 1)) p)"

lemma gc_total_append: "gc_total c p = Some d \<Longrightarrow> gc_total c (p @ q) = gc_total d q"
  by (induction c p rule: gc_total.induct) (auto split: if_split_asm list.split_asm)

lemma gc_total_runs:
  "gc_total c p = Some fin \<Longrightarrow> \<exists>rs. gc_runs p = Some rs \<and> gc_runs_ok fin c rs"
proof (induction c p rule: gc_total.induct)
  case (2 c b p)
  have entry: ?case
    if "gc_entry (b # p) = Some (n, v, q)" "unat (n + 1) = k" "0 < k"
      "\<exists>rs. gc_runs q = Some rs \<and> gc_runs_ok fin (c + k) rs" for n v q k
    using that by (auto simp: gc_runs.simps [of "b # p"] word_less_nat_alt)
  note bd = u8_bound [of b]
  have n: "unat (drop_bit 5 (ucast b) :: u32) = unat b div 32" by (simp add: unat_drop)
  then have seven: "(drop_bit 5 (ucast b) :: u32) = 7 \<longleftrightarrow> unat b div 32 = 7" by (simp add: word_unat_eq_iff)
  show ?case
  proof (cases "unat b div 32 = 7")
    case False
    show ?thesis
      by (rule entry [of "drop_bit 5 (ucast b)" "ucast b AND 0x1f" p "unat b div 32 + 1"])
        (use False seven n bd 2 in \<open>simp_all add: Let_def unat_word_ariths\<close>)
  next
    case True
    then obtain x p1 where p: "p = x # p1" using 2(5) by (cases p) auto
    note xb = u8_bound [of x]
    have cl: "(ucast x :: u32) < 128 \<longleftrightarrow> x < 128" "(ucast x :: u32) < 192 \<longleftrightarrow> x < 192"
      by (simp_all add: word_less_nat_alt)
    consider "x < 128" | "\<not> x < 128" "x < 192" | "\<not> x < 128" "\<not> x < 192" by blast
    then show ?thesis
    proof cases
      case 1
      show ?thesis
        by (rule entry [of "ucast x + 7" "ucast b AND 0x1f" p1 "unat x + 8"])
          (use True seven 1 2(1) [OF True p 1] 2(5) p xb in \<open>simp_all add: Let_def cl unat_word_ariths\<close>)
    next
      case 2: 2
      then obtain y p2 where p1: "p1 = y # p2" using "2.prems" True p by (cases p1) auto
      have nx: "unat (ucast x - 128 :: u32) = unat x - 128" using 2(1) by (simp add: unat_sub word_le_nat_alt word_less_nat_alt)
      have "unat (push_bit 8 (ucast x - 128) OR ucast y :: u32) = (unat x - 128) * 256 + unat y"
        using unat_shifted_or [of "ucast y" 8 "ucast x - 128"] u8_bound [of y] xb nx by simp
      then have k: "unat ((push_bit 8 (ucast x - 128) OR ucast y :: u32) + (7 + 128) + 1) = (unat x - 128) * 256 + unat y + 136"
        using xb u8_bound [of y] by (simp add: unat_word_ariths)
      show ?thesis
        by (rule entry [OF _ k, of "ucast b AND 0x1f" p2])
          (use True seven 2 "2.IH"(2) [OF True p 2 p1] "2.prems" p p1 cl in \<open>simp_all add: Let_def\<close>)
    next
      case 3
      then obtain y z p2 where p1: "p1 = y # z # p2" using "2.prems" True p by (cases p1 rule: list.exhaust; cases "tl p1") auto
      have nx: "unat (ucast x - 128 - 64 :: u32) = unat x - 192"
        using 3(2) by (simp add: unat_sub word_le_nat_alt word_less_nat_alt)
      have lo: "unat (push_bit 8 (ucast y) OR ucast z :: u32) = unat y * 256 + unat z"
        using unat_shifted_or [of "ucast z" 8 "ucast y"] u8_bound [of y] u8_bound [of z] by simp
      have "unat (push_bit 16 (ucast x - 128 - 64) OR (push_bit 8 (ucast y) OR ucast z) :: u32) =
          (unat x - 192) * 65536 + (unat y * 256 + unat z)"
        using unat_shifted_or [of "push_bit 8 (ucast y) OR ucast z" 16 "ucast x - 128 - 64"] u8_bound [of y] u8_bound [of z] xb nx
        unfolding lo by simp
      then have k: "unat ((push_bit 16 (ucast x - 128 - 64) OR push_bit 8 (ucast y) OR ucast z :: u32) + (7 + 128 + push_bit 14 1) + 1) =
          (unat x - 192) * 65536 + unat y * 256 + unat z + 16520"
        using xb u8_bound [of y] u8_bound [of z] by (simp add: unat_word_ariths or.assoc)
      show ?thesis
        by (rule entry [OF _ k, of "ucast b AND 0x1f" p2])
          (use True seven 3 "2.IH"(3) [OF True p 3 p1 refl] "2.prems" p p1 cl in \<open>simp_all add: Let_def\<close>)
    qed
  qed
qed (simp add: gc_runs.simps)

lemma gc_total_1: "gc_total 0 unicode_gc_table_1 = Some 454"
  by (simp add: unicode_gc_table_1_def)

lemma gc_total_2: "gc_total 454 unicode_gc_table_2 = Some 1369"
  by (simp add: unicode_gc_table_2_def)

lemma gc_total_3: "gc_total 1369 unicode_gc_table_3 = Some 2088"
  by (simp add: unicode_gc_table_3_def)

lemma gc_total_4: "gc_total 2088 unicode_gc_table_4 = Some 2602"
  by (simp add: unicode_gc_table_4_def)

lemma gc_total_5: "gc_total 2602 unicode_gc_table_5 = Some 2918"
  by (simp add: unicode_gc_table_5_def)

lemma gc_total_6: "gc_total 2918 unicode_gc_table_6 = Some 3273"
  by (simp add: unicode_gc_table_6_def)

lemma gc_total_7: "gc_total 3273 unicode_gc_table_7 = Some 3749"
  by (simp add: unicode_gc_table_7_def)

lemma gc_total_8: "gc_total 3749 unicode_gc_table_8 = Some 4240"
  by (simp add: unicode_gc_table_8_def)

lemma gc_total_9: "gc_total 4240 unicode_gc_table_9 = Some 5984"
  by (simp add: unicode_gc_table_9_def)

lemma gc_total_10: "gc_total 5984 unicode_gc_table_10 = Some 6754"
  by (simp add: unicode_gc_table_10_def)

lemma gc_total_11: "gc_total 6754 unicode_gc_table_11 = Some 7393"
  by (simp add: unicode_gc_table_11_def)

lemma gc_total_12: "gc_total 7393 unicode_gc_table_12 = Some 8188"
  by (simp add: unicode_gc_table_12_def)

lemma gc_total_13: "gc_total 8188 unicode_gc_table_13 = Some 8524"
  by (simp add: unicode_gc_table_13_def)

lemma gc_total_14: "gc_total 8524 unicode_gc_table_14 = Some 10214"
  by (simp add: unicode_gc_table_14_def)

lemma gc_total_15: "gc_total 10214 unicode_gc_table_15 = Some 11647"
  by (simp add: unicode_gc_table_15_def)

lemma gc_total_16: "gc_total 11647 unicode_gc_table_16 = Some 12318"
  by (simp add: unicode_gc_table_16_def)

lemma gc_total_17: "gc_total 12318 unicode_gc_table_17 = Some 42607"
  by (simp add: unicode_gc_table_17_def)

lemma gc_total_18: "gc_total 42607 unicode_gc_table_18 = Some 43310"
  by (simp add: unicode_gc_table_18_def)

lemma gc_total_19: "gc_total 43310 unicode_gc_table_19 = Some 43867"
  by (simp add: unicode_gc_table_19_def)

lemma gc_total_20: "gc_total 43867 unicode_gc_table_20 = Some 65081"
  by (simp add: unicode_gc_table_20_def)

lemma gc_total_21: "gc_total 65081 unicode_gc_table_21 = Some 65548"
  by (simp add: unicode_gc_table_21_def)

lemma gc_total_22: "gc_total 65548 unicode_gc_table_22 = Some 66928"
  by (simp add: unicode_gc_table_22_def)

lemma gc_total_23: "gc_total 66928 unicode_gc_table_23 = Some 68327"
  by (simp add: unicode_gc_table_23_def)

lemma gc_total_24: "gc_total 68327 unicode_gc_table_24 = Some 69821"
  by (simp add: unicode_gc_table_24_def)

lemma gc_total_25: "gc_total 69821 unicode_gc_table_25 = Some 70449"
  by (simp add: unicode_gc_table_25_def)

lemma gc_total_26: "gc_total 70449 unicode_gc_table_26 = Some 71350"
  by (simp add: unicode_gc_table_26_def)

lemma gc_total_27: "gc_total 71350 unicode_gc_table_27 = Some 72281"
  by (simp add: unicode_gc_table_27_def)

lemma gc_total_28: "gc_total 72281 unicode_gc_table_28 = Some 73714"
  by (simp add: unicode_gc_table_28_def)

lemma gc_total_29: "gc_total 73714 unicode_gc_table_29 = Some 100344"
  by (simp add: unicode_gc_table_29_def)

lemma gc_total_30: "gc_total 100344 unicode_gc_table_30 = Some 119966"
  by (simp add: unicode_gc_table_30_def)

lemma gc_total_31: "gc_total 119966 unicode_gc_table_31 = Some 121344"
  by (simp add: unicode_gc_table_31_def)

lemma gc_total_32: "gc_total 121344 unicode_gc_table_32 = Some 126515"
  by (simp add: unicode_gc_table_32_def)

lemma gc_total_33: "gc_total 126515 unicode_gc_table_33 = Some 127995"
  by (simp add: unicode_gc_table_33_def)

lemma gc_total_34: "gc_total 127995 unicode_gc_table_34 = Some 191457"
  by (simp add: unicode_gc_table_34_def)

lemma gc_total_35: "gc_total 191457 unicode_gc_table_35 = Some 1114112"
  by (simp add: unicode_gc_table_35_def)

lemma gc_table_total: "gc_total 0 unicode_gc_table = Some 0x110000"
  unfolding unicode_gc_table_def
  by (simp only: append_assoc gc_total_append [OF gc_total_1] gc_total_append [OF gc_total_2] gc_total_append [OF gc_total_3]
    gc_total_append [OF gc_total_4] gc_total_append [OF gc_total_5] gc_total_append [OF gc_total_6]
    gc_total_append [OF gc_total_7] gc_total_append [OF gc_total_8] gc_total_append [OF gc_total_9]
    gc_total_append [OF gc_total_10] gc_total_append [OF gc_total_11]
    gc_total_append [OF gc_total_12] gc_total_append [OF gc_total_13]
    gc_total_append [OF gc_total_14] gc_total_append [OF gc_total_15]
    gc_total_append [OF gc_total_16] gc_total_append [OF gc_total_17]
    gc_total_append [OF gc_total_18] gc_total_append [OF gc_total_19]
    gc_total_append [OF gc_total_20] gc_total_append [OF gc_total_21]
    gc_total_append [OF gc_total_22] gc_total_append [OF gc_total_23]
    gc_total_append [OF gc_total_24] gc_total_append [OF gc_total_25]
    gc_total_append [OF gc_total_26] gc_total_append [OF gc_total_27]
    gc_total_append [OF gc_total_28] gc_total_append [OF gc_total_29]
    gc_total_append [OF gc_total_30] gc_total_append [OF gc_total_31]
    gc_total_append [OF gc_total_32] gc_total_append [OF gc_total_33]
    gc_total_append [OF gc_total_34] gc_total_35)

definition gc_table_runs :: "(u32 \<times> u32) list" where
  "gc_table_runs = the (gc_runs unicode_gc_table)"

text \<open>The category of a character in the table; every code up to 0x10ffff has one.\<close>

definition char_category :: "u32 \<Rightarrow> nat option" where
  "char_category c = category_of 0 gc_table_runs c"

lemma gc_table_facts: "gc_runs unicode_gc_table = Some gc_table_runs" "gc_runs_ok 0x110000 0 gc_table_runs"
  using gc_total_runs [OF gc_table_total] by (auto simp: gc_table_runs_def)

lemma unicode_general_category1_adds:
  "unicode_general_category1 cr gc_mask = add_all cr (gc_ivs gc_mask 0 gc_table_runs)"
  unfolding unicode_general_category1_def
  by (rule gc_loop_adds [OF gc_table_facts(1), where fin = "0x110000"]) (simp_all add: gc_table_facts(2))

lemma gc_ivs_of_table:
  "ivs_between 0 (gc_ivs gc_mask 0 gc_table_runs) 0x110000"
  "in_ivs (gc_ivs gc_mask 0 gc_table_runs) c \<longleftrightarrow> (\<exists>k. char_category c = Some k \<and> bit gc_mask k)"
  using gc_ivs_props [of "0x110000" 0 gc_table_runs gc_mask] gc_table_facts(2)
  by (auto simp: char_category_def)

end
