(* ===== verification/Case_Changes.thy ===== *)
theory Case_Changes
  imports Unicode_Ranges
begin

text \<open>
  Which characters the case conversion of \<^verbatim>\<open>lre_case_conv\<close> changes, and that the ranges which
  \<^verbatim>\<open>unicode_case1\<close> takes from the same table by the type of each run, with tables of masks of its
  own, are exactly those characters, for every combination of the three conversions.
\<close>

section \<open>What an entry of the table changes\<close>

text \<open>The characters that the conversions in the mask \<open>m\<close> (bit 0: to upper case, bit 1: to lower
  case, bit 2: folding) change.\<close>

definition case_changes :: "u32 \<Rightarrow> u32 \<Rightarrow> bool" where
  "case_changes m c \<longleftrightarrow>
     bit m 0 \<and> lre_case_conv c 0 \<noteq> Some [c] \<or> bit m 1 \<and> lre_case_conv c 1 \<noteq> Some [c] \<or>
     bit m 2 \<and> lre_case_conv c 2 \<noteq> Some [c]"

definition entry_data :: "u32 \<Rightarrow> u8 \<Rightarrow> u32" where
  "entry_data v d = push_bit 8 (v AND 0xf) OR ucast d"

text \<open>By the type of its run: does conversion \<open>k\<close> change the character at offset \<open>a\<close>?\<close>

definition type_changes :: "u32 \<Rightarrow> u32 \<Rightarrow> u32 \<Rightarrow> bool" where
  "type_changes type k a \<longleftrightarrow>
     (if type = RUN_TYPE_U \<or> type = RUN_TYPE_U_EXT \<or> type = RUN_TYPE_U_EXT2 \<or> type = RUN_TYPE_U_EXT3 then k = 0
      else if type = RUN_TYPE_L \<or> type = RUN_TYPE_L_EXT2 then k = 1
      else if type = RUN_TYPE_UF \<or> type = RUN_TYPE_UF_D20 \<or> type = RUN_TYPE_UF_D1_EXT then k \<noteq> 1
      else if type = RUN_TYPE_LF \<or> type = RUN_TYPE_LF_EXT then k \<noteq> 0
      else if type = RUN_TYPE_UL then (k = 0 \<longleftrightarrow> odd (unat a))
      else if type = RUN_TYPE_LSU then a = 1 \<or> a = (if k = 0 then 2 else 0)
      else True)"

text \<open>The entry at index \<open>i\<close> does not send a character to itself.\<close>

definition entry_moves :: "nat \<Rightarrow> u32 \<Rightarrow> u8 \<Rightarrow> bool" where
  "entry_moves i v d \<longleftrightarrow>
     (let data = entry_data v d; type = case_type v; code = case_code v;
          outside = (\<lambda>x. x < code \<or> code + case_len v \<le> x) in
      type \<le> 13 \<and>
      (if type \<le> 3 then unat data \<noteq> i
       else if type = 6 then ext (data AND 0x3f) \<noteq> Some code
       else if type = 7 then outside data \<and> outside (data + 0x20)
       else if type = 8 then (case ext data of None \<Rightarrow> True | Some x \<Rightarrow> outside x \<and> outside (x + 1))
       else if type = 9 \<or> type = 10 then (case ext data of None \<Rightarrow> True | Some x \<Rightarrow> outside x)
       else True))"

fun all_move :: "nat \<Rightarrow> u32 list \<Rightarrow> u8 list \<Rightarrow> bool" where
  "all_move i (v # vs) (d # ds) \<longleftrightarrow> entry_moves i v d \<and> all_move (Suc i) vs ds"
| "all_move i _ _ \<longleftrightarrow> True"

lemma all_move_nth:
  "all_move i vs ds \<Longrightarrow> k < length vs \<Longrightarrow> length ds = length vs \<Longrightarrow> entry_moves (i + k) (vs ! k) (ds ! k)"
proof (induction i vs ds arbitrary: k rule: all_move.induct)
  case (1 i v vs d ds)
  then show ?case by (cases k) auto
qed auto

lemma case_entries_move: "all_move 0 case_conv_table1 case_conv_table2"
  unfolding case_conv_table1_def case_conv_table2_def
  by (simp add: entry_moves_def entry_data_def case_type_def case_code_def case_len_def Let_def
      ext_def rd_def case_conv_ext_def)

text \<open>Two entries with the same first code are the same entry.\<close>

lemma case_code_inj:
  assumes "i < 361" and "j < 361" and "case_code (case_conv_table1 ! i) = case_code (case_conv_table1 ! j)"
  shows "i = j"
proof -
  have less: False if "a < b" "b < 361" "case_code (case_conv_table1 ! a) = case_code (case_conv_table1 ! b)" for a b
  proof -
    let ?v = "case_conv_table1 ! a"
    have "entry_fits ?v" using entries_fit that by (simp add: list_all_length length_case_tables)
    then have "0 < unat (case_len ?v)" by (simp add: entry_fits_def word_less_nat_alt)
    moreover have "unat (case_code ?v + case_len ?v) = unat (case_code ?v) + unat (case_len ?v)"
      using case_bounds [of ?v] by (simp add: unat_word_ariths)
    moreover have "case_code ?v + case_len ?v \<le> case_code (case_conv_table1 ! b)"
      using case_ranges.apart [of a b] that by (simp add: length_case_tables)
    ultimately show False using that(3) by (simp add: word_le_nat_alt)
  qed
  show ?thesis using less [of i j] less [of j i] assms by (cases i j rule: linorder_cases) auto
qed

lemma type_cases:
  "(t :: u32) \<le> 13 \<Longrightarrow> t = 0 \<or> t = 1 \<or> t = 2 \<or> t = 3 \<or> t = 4 \<or> t = 5 \<or> t = 6 \<or> t = 7 \<or> t = 8 \<or> t = 9 \<or>
    t = 10 \<or> t = 11 \<or> t = 12 \<or> t = 13"
  by (simp add: word_le_nat_alt word_unat_eq_iff) arith

lemma type_cases3: "(t :: u32) \<le> 3 \<Longrightarrow> t = 0 \<or> t = 1 \<or> t = 2 \<or> t = 3"
  by (simp add: word_le_nat_alt word_unat_eq_iff) arith

lemma xor_one_neq: "(a :: u32) XOR 1 \<noteq> a"
proof
  assume "a XOR 1 = a"
  then have "a XOR (a XOR 1) = a XOR a" by simp
  then show False by (simp flip: xor.assoc)
qed

text \<open>Each kind of entry by itself; \<open>a\<close> is the offset of the character.\<close>

lemma shifted_run_changes:
  assumes t: "type \<le> 3" and k: "k \<in> {0, 1, 2}"
    and moves: "\<And>w. rd case_conv_table1 (unat data) = Some w \<Longrightarrow> drop_bit 15 w \<noteq> code"
  shows "case_entry k c code type data \<noteq> Some [c] \<longleftrightarrow> type_changes type k a"
proof -
  have "c - code + drop_bit 15 w = c \<longleftrightarrow> drop_bit 15 w = code" for w by (auto simp: algebra_simps)
  then have "Option.bind (rd case_conv_table1 (unat data)) (\<lambda>v. Some [c - code + drop_bit 15 v]) \<noteq> Some [c]"
    using moves by (cases "rd case_conv_table1 (unat data)") auto
  moreover have "type \<in> {0, 1, 2, 3}" using type_cases3 [OF t] by simp
  moreover have "\<not> (2 :: u32) \<le> 1" by (simp add: word_le_nat_alt)
  ultimately show ?thesis using k
    by (elim insertE emptyE; simp add: case_entry_def type_changes_def run_types Let_def)
qed

lemma alternating_run_changes:
  assumes k: "k \<in> {0, 1, 2}"
  shows "case_entry k c code 4 data \<noteq> Some [c] \<longleftrightarrow> type_changes 4 k (c - code)"
proof -
  have x: "(c - code XOR 1) + code \<noteq> c"
    using xor_one_neq [of "c - code"] by (metis add_diff_cancel_right')
  have "a AND 1 = (if odd (unat a) then 1 else 0)" for a :: u32
    by (simp add: and_one_eq mod_2_eq_odd even_word)
  from this [of "c - code"] show ?thesis using k x by (auto simp: case_entry_def type_changes_def run_types Let_def)
qed

lemma triple_changes:
  assumes k: "k \<in> {0, 1, 2}"
  shows "case_entry k c code 5 data \<noteq> Some [c] \<longleftrightarrow> type_changes 5 k (c - code)"
  using k by (auto simp: case_entry_def type_changes_def run_types Let_def)

lemma other_run_changes:
  assumes t: "type \<in> {6, 7, 8, 9, 10, 11, 12, 13}" and k: "k \<in> {0, 1, 2}"
    and moves: "type = 6 \<Longrightarrow> ext (data AND 0x3f) \<noteq> Some code"
      "type = 7 \<Longrightarrow> c \<noteq> data \<and> c \<noteq> data + 0x20"
      "type = 8 \<Longrightarrow> case ext data of None \<Rightarrow> True | Some x \<Rightarrow> c \<noteq> x \<and> c \<noteq> x + 1"
      "type = 9 \<or> type = 10 \<Longrightarrow> ext data \<noteq> Some c"
  shows "case_entry k c code type data \<noteq> Some [c] \<longleftrightarrow> type_changes type k a"
proof -
  have s: "c - code + x = c \<longleftrightarrow> x = code" for x by (auto simp: algebra_simps)
  consider "type = 6" | "type = 7" | "type = 8" | "type = 9" | "type = 10" | "type = 11" | "type = 12" | "type = 13"
    using t by blast
  then show ?thesis
  proof cases
    case 1
    then show ?thesis using k moves(1)
      by (auto simp: case_entry_def type_changes_def run_types Let_def s split: Option.bind_splits)
  next
    case 2
    then show ?thesis using k moves(2) by (auto simp: case_entry_def type_changes_def run_types Let_def)
  next
    case 3
    then show ?thesis using k moves(3)
      by (auto simp: case_entry_def type_changes_def run_types Let_def split: Option.bind_splits)
  next
    case 4
    then show ?thesis using k moves(4)
      by (auto simp: case_entry_def type_changes_def run_types Let_def split: Option.bind_splits)
  next
    case 5
    then show ?thesis using k moves(4)
      by (auto simp: case_entry_def type_changes_def run_types Let_def split: Option.bind_splits)
  qed (use k in \<open>auto simp: case_entry_def type_changes_def run_types Let_def split: Option.bind_splits\<close>)
qed

lemma case_entry_changes:
  assumes i: "i < 361" and v: "v = case_conv_table1 ! i" and d: "d = case_conv_table2 ! i"
    and c: "case_code v \<le> c" "c < case_code v + case_len v" and k: "k \<in> {0, 1, 2}"
  shows "case_entry k c (case_code v) (case_type v) (entry_data v d) \<noteq> Some [c] \<longleftrightarrow>
    type_changes (case_type v) k (c - case_code v)"
proof -
  have move: "entry_moves i v d"
    using all_move_nth [OF case_entries_move, of i] i v d by (simp add: length_case_tables)
  have inside: "\<not> c < case_code v" "\<not> case_code v + case_len v \<le> c" using c by simp_all
  have "case_type v \<le> 13" using move by (simp add: entry_moves_def Let_def)
  then consider "case_type v \<le> 3" | "case_type v = 4" | "case_type v = 5"
    | "case_type v \<in> {6, 7, 8, 9, 10, 11, 12, 13}"
    using type_cases [of "case_type v"] by fastforce
  then show ?thesis
  proof cases
    case 1
    have "drop_bit 15 w \<noteq> case_code v" if w: "rd case_conv_table1 (unat (entry_data v d)) = Some w" for w
    proof -
      have "unat (entry_data v d) < 361" "w = case_conv_table1 ! unat (entry_data v d)"
        using w by (auto simp: rd_def length_case_tables split: if_splits)
      then show ?thesis using case_code_inj [of "unat (entry_data v d)" i] move 1 i v
        by (auto simp: entry_moves_def Let_def case_code_def)
    qed
    then show ?thesis by (rule shifted_run_changes [OF 1 k])
  next
    case 2
    then show ?thesis using alternating_run_changes [OF k] by simp
  next
    case 3
    then show ?thesis using triple_changes [OF k] by simp
  next
    case 4
    show ?thesis
      by (rule other_run_changes [OF 4 k])
        (use move inside in \<open>auto simp: entry_moves_def Let_def split: option.splits\<close>)
  qed
qed

section \<open>What the masks say of an entry\<close>

lemma run_masks_bit: "bit (run_masks ts) n \<longleftrightarrow> n < 32 \<and> n \<in> unat ` set ts"
proof -
  have step: "bit (x OR push_bit k 1) n \<longleftrightarrow> bit x n \<or> n < 32 \<and> n = k" for x :: u32 and k
    by (auto simp: bit_or_iff bit_exp_iff push_bit_of_1)
  have "bit (fold (\<lambda>t m. m OR push_bit (unat t) 1) ts x) n \<longleftrightarrow> bit x n \<or> n < 32 \<and> n \<in> unat ` set ts" for x :: u32
  proof (induction ts arbitrary: x)
    case (Cons t ts)
    have "bit (fold (\<lambda>t m. m OR push_bit (unat t) 1) (t # ts) x) n \<longleftrightarrow>
        bit (x OR push_bit (unat t) 1) n \<or> n < 32 \<and> n \<in> unat ` set ts"
      by (simp only: fold_Cons comp_apply Cons.IH)
    then show ?case unfolding step by auto
  qed simp
  from this [of 0] show ?thesis by (simp add: run_masks_def)
qed

lemma tab_run_mask_bits:
  "bit (tab_run_mask ! 0) n \<longleftrightarrow> n \<in> {0, 2, 4, 5, 6, 7, 8, 9, 11, 13}"
  "bit (tab_run_mask ! 1) n \<longleftrightarrow> n \<in> {1, 3, 4, 5, 6, 10, 12}"
  "bit (tab_run_mask ! 2) n \<longleftrightarrow> n \<in> {2, 3, 4, 5, 6, 7, 8, 10}"
  by (auto simp: tab_run_mask_def run_masks_bit run_types)

lemma case1_mask_bit:
  "bit (case1_mask m) n \<longleftrightarrow> bit m 0 \<and> bit (tab_run_mask ! 0) n \<or> bit m 1 \<and> bit (tab_run_mask ! 1) n \<or>
    bit m 2 \<and> bit (tab_run_mask ! 2) n"
proof -
  define step where "step i x = (if drop_bit i m AND 1 \<noteq> 0 then x OR tab_run_mask ! i else x)" for i and x :: u32
  have b: "bit (step i x) n \<longleftrightarrow> bit x n \<or> bit m i \<and> bit (tab_run_mask ! i) n" for i x
    unfolding step_def drop_bit_test by (simp add: bit_or_iff)
  have "case1_mask m = step 2 (step 1 (step 0 0))"
    unfolding case1_mask_def step_def [symmetric] by simp
  then show ?thesis by (simp only: b bit_0_eq bot_apply) auto
qed

lemma case_mask_tests:
  "m AND CASE_U \<noteq> 0 \<longleftrightarrow> bit m 0" "m AND (CASE_L OR CASE_F) \<noteq> 0 \<longleftrightarrow> bit m 1 \<or> bit m 2"
proof -
  show "m AND CASE_U \<noteq> 0 \<longleftrightarrow> bit m 0"
    by (simp add: CASE_U_def and_one_eq bit_0 odd_iff_mod_2_eq_one)
  have "m AND CASE_L \<noteq> 0 \<longleftrightarrow> bit m 1" "m AND CASE_F \<noteq> 0 \<longleftrightarrow> bit m 2"
    using and_exp_eq_0_iff_not_bit [of m 1] and_exp_eq_0_iff_not_bit [of m 2]
    by (simp_all add: CASE_L_def CASE_F_def)
  moreover have "m AND (CASE_L OR CASE_F) = (m AND CASE_L) OR (m AND CASE_F)"
    by (rule bit.conj_disj_distrib)
  ultimately show "m AND (CASE_L OR CASE_F) \<noteq> 0 \<longleftrightarrow> bit m 1 \<or> bit m 2"
    by (simp add: or_eq_0_iff)
qed

text \<open>Membership in an entry's ranges, by the offset in its run.\<close>

lemma offset_value:
  fixes c code :: u32
  assumes "code \<le> c"
  shows "unat (c - code) = unat c - unat code"
  using assms by (rule unat_sub)

lemma case_entry_ivs_mem:
  assumes fits: "entry_fits v" and t: "case_type v \<le> 13"
    and c: "case_code v \<le> c" "c < case_code v + case_len v"
  shows "in_ivs (case_entry_ivs m v) c \<and> bit (case1_mask m) (unat (case_type v)) \<longleftrightarrow>
    bit m 0 \<and> type_changes (case_type v) 0 (c - case_code v) \<or>
    bit m 1 \<and> type_changes (case_type v) 1 (c - case_code v) \<or>
    bit m 2 \<and> type_changes (case_type v) 2 (c - case_code v)"
proof -
  define code len a where "code = case_code v" and "len = case_len v" and "a = c - code"
  have small: "unat code < 2 ^ 17" "unat len < 2 ^ 7" unfolding code_def len_def by (rule case_bounds)+
  have u: "unat (code + k) = unat code + unat k" if "unat k < 2 ^ 8" for k
    using small that by (simp add: unat_word_ariths)
  have ul: "unat (code + len) = unat code + unat len" "unat (code + 1) = unat code + 1"
      "unat (code + 1 + len) = unat code + 1 + unat len"
    using u [of len] u [of 1] u [of "1 + len"] small by (simp_all add: add.assoc unat_word_ariths)
  have a: "unat a = unat c - unat code" "unat code \<le> unat c" "unat a < unat len"
    using c offset_value [of code c] ul(1)
    by (simp_all add: a_def code_def [symmetric] len_def [symmetric] word_le_nat_alt word_less_nat_alt)
  define up lo fo where "up = bit m 0" and "lo = bit m 1" and "fo = bit m 2"
  note flags = up_def [symmetric] lo_def [symmetric] fo_def [symmetric]
  have len_ul: "case_type v = 4 \<Longrightarrow> even (unat len)" and len_lsu: "case_type v = 5 \<Longrightarrow> len = 3"
    using fits by (simp_all add: entry_fits_def len_def even_word [symmetric] RUN_TYPE_UL_def RUN_TYPE_LSU_def)
  have all: "in_ivs [(code, code + len)] c" using c by (simp add: code_def len_def)
  have ivs: "case_entry_ivs m v =
     (if case_type v = 4 \<and> \<not> (up \<and> (lo \<or> fo)) then
        alternate_ivs (code + (if up then 1 else 0)) (code + (if up then 1 else 0) + len)
      else if case_type v = 5 \<and> \<not> (up \<and> (lo \<or> fo)) then
        (if up then [] else [(code, code + 1)]) @ (code + 1, code + 2) # (if up then [(code + 2, code + 3)] else [])
      else [(code, code + len)])"
    unfolding case_entry_ivs_def Let_def case_mask_tests flags code_def [symmetric] len_def [symmetric]
      RUN_TYPE_UL_def RUN_TYPE_LSU_def ..
  note mask = case1_mask_bit [of m, unfolded flags tab_run_mask_bits]
  consider "case_type v = 4" | "case_type v = 5" | "case_type v \<notin> {4, 5}" by blast
  then show ?thesis unfolding flags code_def [symmetric] a_def [symmetric]
  proof cases
    case 1
    have alt: "in_ivs (alternate_ivs code (code + len)) c \<longleftrightarrow> even (unat a)"
        "in_ivs (alternate_ivs (code + 1) (code + 1 + len)) c \<longleftrightarrow> odd (unat a)"
    proof -
      obtain n where n: "unat c = unat code + n" using a(2) le_Suc_ex by blast
      have na: "unat a = n" "n < unat len" using a n by simp_all
      have "code \<le> code + len" "unat (code + len) + 2 < 2 ^ 32" "code + 1 \<le> code + 1 + len"
          "unat (code + 1 + len) + 2 < 2 ^ 32"
        using ul small by (simp_all add: word_le_nat_alt)
      then have m: "in_ivs (alternate_ivs code (code + len)) c \<longleftrightarrow>
            code \<le> c \<and> c < code + len \<and> even (unat c - unat code)"
          "in_ivs (alternate_ivs (code + 1) (code + 1 + len)) c \<longleftrightarrow>
            code + 1 \<le> c \<and> c < code + 1 + len \<and> even (unat c - unat (code + 1))"
        using alternate_ivs_props by blast+
      show "in_ivs (alternate_ivs code (code + len)) c \<longleftrightarrow> even (unat a)"
        using n na m(1) ul(1) by (simp add: word_le_nat_alt word_less_nat_alt)
      have "odd n \<longleftrightarrow> 1 \<le> n \<and> even (n - 1)" by (cases n) simp_all
      then show "in_ivs (alternate_ivs (code + 1) (code + 1 + len)) c \<longleftrightarrow> odd (unat a)"
        using n na m(2) ul(2,3) by (auto simp: word_le_nat_alt word_less_nat_alt)
    qed
    show "in_ivs (case_entry_ivs m v) c \<and> bit (case1_mask m) (unat (case_type v)) \<longleftrightarrow>
        up \<and> type_changes (case_type v) 0 a \<or> lo \<and> type_changes (case_type v) 1 a \<or>
        fo \<and> type_changes (case_type v) 2 a"
      using alt all unfolding ivs mask 1
      by (cases up; cases lo; cases fo) (simp_all add: type_changes_def run_types)
  next
    case 2
    then have len: "len = 3" by (rule len_lsu)
    show "in_ivs (case_entry_ivs m v) c \<and> bit (case1_mask m) (unat (case_type v)) \<longleftrightarrow>
        up \<and> type_changes (case_type v) 0 a \<or> lo \<and> type_changes (case_type v) 1 a \<or>
        fo \<and> type_changes (case_type v) 2 a"
    proof -
      have ends: "unat (code + 2) = unat code + 2" "unat (code + 3) = unat code + 3"
        using u [of 2] u [of 3] by simp_all
      have vals: "a = 0 \<longleftrightarrow> unat a = 0" "a = 1 \<longleftrightarrow> unat a = 1" "a = 2 \<longleftrightarrow> unat a = 2"
        by (simp_all add: word_unat_eq_iff)
      have three: "a = 0 \<or> a = 1 \<or> a = 2" using a(3) len unfolding vals by simp arith
      have at: "c < code + 1 \<longleftrightarrow> a = 0" "code + 1 \<le> c \<longleftrightarrow> a \<noteq> 0" "c < code + 2 \<longleftrightarrow> a \<noteq> 2"
          "code + 2 \<le> c \<longleftrightarrow> a = 2" "c < code + 3" "code \<le> c"
        using a ul(2) ends len unfolding vals by (auto simp: word_le_nat_alt word_less_nat_alt)
      show ?thesis
        using three unfolding ivs mask 2 type_changes_def run_types
        by (elim disjE) (simp_all add: at len)
    qed
  next
    case 3
    show "in_ivs (case_entry_ivs m v) c \<and> bit (case1_mask m) (unat (case_type v)) \<longleftrightarrow>
        up \<and> type_changes (case_type v) 0 a \<or> lo \<and> type_changes (case_type v) 1 a \<or>
        fo \<and> type_changes (case_type v) 2 a"
      using 3 all type_cases [OF t] unfolding ivs mask
      by (elim disjE; simp add: type_changes_def run_types)
  qed
qed

section \<open>The ranges are the characters that change\<close>

text \<open>Below 128 the conversion does not look at the table.\<close>

lemma ascii_changes:
  assumes "c < 128" and k: "k \<in> {0, 1, 2}"
  shows "lre_case_conv c k \<noteq> Some [c] \<longleftrightarrow>
    (if k = 0 then 0x61 \<le> c \<and> c \<le> 0x7a else 0x41 \<le> c \<and> c \<le> 0x5a)"
proof -
  have "c - x + y = c \<longleftrightarrow> y = x" for x y :: u32 by (auto simp: algebra_simps)
  from this [of "0x61" "0x41"] this [of "0x41" "0x61"]
  have "c - 0x61 + 0x41 \<noteq> c" "c - 0x41 + 0x61 \<noteq> c" by simp_all
  then show ?thesis using assms by (auto simp: lre_case_conv_def)
qed

lemma ascii_entries:
  "case_code (case_conv_table1 ! 0) = 0x41" "case_len (case_conv_table1 ! 0) = 26"
  "case_type (case_conv_table1 ! 0) = RUN_TYPE_LF"
  "case_code (case_conv_table1 ! 1) = 0x61" "case_len (case_conv_table1 ! 1) = 26"
  "case_type (case_conv_table1 ! 1) = RUN_TYPE_U"
  "128 \<le> case_code (case_conv_table1 ! 2)"
  by (simp_all add: case_conv_table1_def case_code_def case_len_def case_type_def run_types word_le_nat_alt)

lemma conv_types: "(0 :: u32) \<in> {0, 1, 2}" "(1 :: u32) \<in> {0, 1, 2}" "(2 :: u32) \<in> {0, 1, 2}"
  by simp_all

abbreviation covers_code :: "nat \<Rightarrow> u32 \<Rightarrow> bool" where
  "covers_code \<equiv> range_covers case_conv_table1 case_code case_len"

lemma covers_ascii:
  assumes "covers_code i c" and "c < 128"
  shows "i = 0 \<or> i = 1"
proof (rule ccontr)
  assume "\<not> (i = 0 \<or> i = 1)"
  then have i: "2 \<le> i" "i < 361" using assms(1) by (auto simp: range_covers_def length_case_tables)
  have "case_code (case_conv_table1 ! 2) \<le> case_code (case_conv_table1 ! i)"
  proof (cases "i = 2")
    case False
    then show ?thesis
      using case_ranges.apart [of 2 i] case_ranges.no_wrap [of 2] i
      by (simp add: length_case_tables)
  qed simp
  then have "128 \<le> case_code (case_conv_table1 ! i)" using ascii_entries(7) by (rule order.trans [rotated])
  also have "\<dots> \<le> c" using assms(1) by (simp add: range_covers_def)
  finally show False using assms(2) by simp
qed

text \<open>The conversion changes a character just when the entry that covers it does.\<close>

lemma lre_case_conv_changes:
  assumes k: "k \<in> {0, 1, 2}"
  shows "lre_case_conv c k \<noteq> Some [c] \<longleftrightarrow> (\<exists>i. covers_code i c \<and>
    type_changes (case_type (case_conv_table1 ! i)) k (c - case_code (case_conv_table1 ! i)))"
proof (cases "c < 128")
  case True
  have "covers_code 0 c \<longleftrightarrow> 0x41 \<le> c \<and> c < 0x5b" "covers_code 1 c \<longleftrightarrow> 0x61 \<le> c \<and> c < 0x7b"
    by (simp_all only: range_covers_def length_case_tables ascii_entries) simp_all
  then have two: "covers_code 0 c \<longleftrightarrow> 0x41 \<le> c \<and> c \<le> 0x5a" "covers_code 1 c \<longleftrightarrow> 0x61 \<le> c \<and> c \<le> 0x7a"
    by (simp_all add: word_le_nat_alt word_less_nat_alt) arith+
  have tc: "type_changes (case_type (case_conv_table1 ! 0)) k x \<longleftrightarrow> k \<noteq> 0"
      "type_changes (case_type (case_conv_table1 ! 1)) k x \<longleftrightarrow> k = 0" for x
    unfolding ascii_entries(3,6) by (simp_all add: type_changes_def run_types)
  have "(\<exists>i. covers_code i c \<and>
      type_changes (case_type (case_conv_table1 ! i)) k (c - case_code (case_conv_table1 ! i))) \<longleftrightarrow>
      covers_code 0 c \<and> k \<noteq> 0 \<or> covers_code 1 c \<and> k = 0"
    using covers_ascii [OF _ True] tc by metis
  then show ?thesis unfolding two ascii_changes [OF True k] by simp
next
  case False
  then have big: "128 \<le> c" by simp
  show ?thesis
  proof (cases "\<exists>i. covers_code i c")
    case False
    then show ?thesis using lre_case_conv_entry [OF big, of k] by simp
  next
    case True
    then obtain i where i: "covers_code i c" by blast
    have uniq: "covers_code j c \<Longrightarrow> j = i" for j using case_ranges.covers_unique i by blast
    then have the: "(THE j. covers_code j c) = i" using i by blast
    have "i < 361" "case_code (case_conv_table1 ! i) \<le> c"
        "c < case_code (case_conv_table1 ! i) + case_len (case_conv_table1 ! i)"
      using i by (simp_all add: range_covers_def length_case_tables)
    note ch = case_entry_changes [OF this(1) refl refl this(2,3) k]
    have "lre_case_conv c k = case_entry k c (case_code (case_conv_table1 ! i)) (case_type (case_conv_table1 ! i))
        (entry_data (case_conv_table1 ! i) (case_conv_table2 ! i))"
      using lre_case_conv_entry [OF big, of k] True the by (simp add: Let_def entry_data_def)
    then have "lre_case_conv c k \<noteq> Some [c] \<longleftrightarrow>
        type_changes (case_type (case_conv_table1 ! i)) k (c - case_code (case_conv_table1 ! i))"
      using ch by (simp only:)
    then show ?thesis using i uniq by blast
  qed
qed

lemma in_ivs_concat: "in_ivs (concat xss) c \<longleftrightarrow> (\<exists>xs\<in>set xss. in_ivs xs c)"
  by (induction xss) auto

lemma case_ivs_changes: "in_ivs (case_ivs m) c = case_changes m c"
proof (cases "m = 0")
  case True
  then show ?thesis by (simp add: case_ivs_def case_changes_def)
next
  case False
  define v where "v i = case_conv_table1 ! i" for i
  have fits: "entry_fits (v i)" "case_type (v i) \<le> 13" if "i < 361" for i
  proof -
    show "entry_fits (v i)" using entries_fit that by (simp add: list_all_length length_case_tables v_def)
    show "case_type (v i) \<le> 13" using all_move_nth [OF case_entries_move, of i] that
      by (simp add: length_case_tables v_def entry_moves_def Let_def)
  qed
  have inside: "covers_code i c" if "i < 361" "in_ivs (case_entry_ivs m (v i)) c" for i
    using ivs_between_outside [OF case_entry_between [OF fits(1) [OF that(1)]] that(2)] that(1)
    by (simp add: range_covers_def length_case_tables v_def)
  have "in_ivs (case_ivs m) c \<longleftrightarrow>
      (\<exists>i<361. in_ivs (case_entry_ivs m (v i)) c \<and> bit (case1_mask m) (unat (case_type (v i))))"
    using False by (auto simp: case_ivs_def in_ivs_concat in_set_conv_nth length_case_tables v_def)
  also have "\<dots> \<longleftrightarrow> (\<exists>i. covers_code i c \<and>
      in_ivs (case_entry_ivs m (v i)) c \<and> bit (case1_mask m) (unat (case_type (v i))))"
    using inside by (auto simp: range_covers_def length_case_tables)
  also have "\<dots> \<longleftrightarrow> (\<exists>i. covers_code i c \<and>
      (bit m 0 \<and> type_changes (case_type (v i)) 0 (c - case_code (v i)) \<or>
       bit m 1 \<and> type_changes (case_type (v i)) 1 (c - case_code (v i)) \<or>
       bit m 2 \<and> type_changes (case_type (v i)) 2 (c - case_code (v i))))"
    using case_entry_ivs_mem [OF fits, of _ c m]
    by (intro ex_cong1 conj_cong refl) (simp add: range_covers_def length_case_tables v_def)
  also have "\<dots> \<longleftrightarrow> case_changes m c"
    unfolding case_changes_def conv_types [THEN lre_case_conv_changes] v_def by blast
  finally show ?thesis .
qed

lemma case_ivs_set: "in_ivs (case_ivs m) = case_changes m"
  by (simp add: fun_eq_iff case_ivs_changes)

end
