(* ===== verification/Unicode_Stack.thy ===== *)
theory Unicode_Stack
  imports Unicode_Sets Case_Changes Index_Table
begin

text \<open>
  The stack machine of \<^verbatim>\<open>unicode_prop_ops\<close> evaluates set expressions. The locale \<open>range_source\<close> is the
  contract of a function that fills a range from a table; it is interpreted for the general
  categories and the case changes, and used for every table of a property. A program that is the
  postfix form of an expression leaves the range of the characters of the expression, unless an
  allocation fails; the programs of the computed properties are such forms.
\<close>

section \<open>Sources of ranges\<close>

text \<open>What the stack machine asks of a function that fills a range: it adds an increasing list of
  intervals that is not too long.\<close>

lemma cr_ok_size: "cr_ok cr \<Longrightarrow> 0 \<le> cr_size cr"
  by (simp add: cr_ok_def)

locale range_source =
  fixes fill :: "'h char_range \<Rightarrow> ('h char_range \<times> int) option" and ivs :: "(u32 \<times> u32) list"
  assumes fills: "fill cr = add_all cr ivs"
    and ordered: "sorted (iv_points ivs)"
    and short: "length ivs \<le> 2 ^ 21"
begin

lemma fill_result:
  assumes "cr_ok cr" and "points_of cr = []"
  shows "\<exists>cr1 r. fill cr = Some (cr1, r) \<and> cr_ok cr1 \<and>
    (r = 0 \<and> sorted (points_of cr1) \<and> even (length (points_of cr1)) \<and> length (points_of cr1) \<le> 2 ^ 22 \<and>
       cr_realloc_func cr1 = cr_realloc_func cr \<and> (\<forall>c. cr_mem (points_of cr1) c = in_ivs ivs c) \<or>
     r = -1 \<and> \<not> grants (cr_realloc_func cr))"
proof -
  have "cr_len cr + 2 * int (length ivs) \<le> 2 ^ 28"
    using length_points_of [OF assms(1)] assms(2) short by simp
  from add_all_result [OF assms(1) this] obtain cr1 r where a: "add_all cr ivs = Some (cr1, r)" "cr_ok cr1"
      "r = 0 \<and> points_of cr1 = points_of cr @ iv_points ivs \<or> r = -1" by blast
  have "served (cr_realloc_func cr) (Some (cr1, r))"
    using add_all_served [OF cr_ok_size [OF assms(1)], of ivs] a(1) by simp
  then have "cr_realloc_func cr1 = cr_realloc_func cr" "grants (cr_realloc_func cr) \<longrightarrow> r = 0" by (auto simp: served_def)
  moreover have "length (iv_points ivs) \<le> 2 ^ 22" using short by simp
  ultimately have "r = 0 \<Longrightarrow> sorted (points_of cr1) \<and> even (length (points_of cr1)) \<and> length (points_of cr1) \<le> 2 ^ 22 \<and>
      (\<forall>c. cr_mem (points_of cr1) c = in_ivs ivs c)"
    using a(3) assms(2) ordered iv_points_mem [OF ordered] by (simp del: iv_points_length) simp
  then show ?thesis
    using a \<open>cr_realloc_func cr1 = _\<close> \<open>grants _ \<longrightarrow> _\<close> unfolding fills by blast
qed

end

lemma ivs_between_source: "ivs_between 0 ivs b \<Longrightarrow> b \<le> 0x200000 \<Longrightarrow> sorted (iv_points ivs) \<and> length ivs \<le> 2 ^ 21"
  using ivs_between_count [of 0 ivs b] by (auto simp: ivs_between_def sorted_append word_le_nat_alt)

interpretation gc: range_source "\<lambda>cr. unicode_general_category1 cr gc_mask" "gc_ivs gc_mask 0 gc_table_runs" for gc_mask
  by unfold_locales (use ivs_between_source [OF gc_ivs_of_table(1)] unicode_general_category1_adds in auto)

interpretation changes: range_source "\<lambda>cr. unicode_case1 cr case_mask" "case_ivs case_mask" for case_mask
  by unfold_locales (use ivs_between_source [OF case_ivs_between] unicode_case1_adds in auto)

text \<open>The tables of the properties decode; the three with an index have been gone through already.\<close>

fun runs_parse :: "u8 list \<Rightarrow> bool" where
  "runs_parse [] \<longleftrightarrow> True"
| "runs_parse (b # r) \<longleftrightarrow>
     (if b < 64 \<or> b \<ge> 0x80 then runs_parse r
      else if b < 0x60 then (case r of x # r1 \<Rightarrow> runs_parse r1 | [] \<Rightarrow> False)
      else (case r of x # y # r1 \<Rightarrow> runs_parse r1 | _ \<Rightarrow> False))"

lemma runs_parse_runs: "runs_parse p \<Longrightarrow> \<exists>rs. table_runs p = Some rs"
  by (induction p rule: runs_parse.induct) (auto split: if_split_asm list.split_asm)

lemma small_tables_1:
  "list_all (\<lambda>t. runs_parse t \<and> length t \<le> 2000)
    [unicode_prop_Hyphen_table, unicode_prop_Other_Math_table]"
  by (simp add:
      unicode_prop_Hyphen_table_def unicode_prop_Other_Math_table_def)

lemma small_tables_2:
  "list_all (\<lambda>t. runs_parse t \<and> length t \<le> 2000)
    [unicode_prop_Other_Alphabetic_table, unicode_prop_Other_Lowercase_table,
    unicode_prop_Other_Uppercase_table]"
  by (simp add:
      unicode_prop_Other_Alphabetic_table_def unicode_prop_Other_Lowercase_table_def
      unicode_prop_Other_Uppercase_table_def)

lemma small_tables_3:
  "list_all (\<lambda>t. runs_parse t \<and> length t \<le> 2000)
    [unicode_prop_Other_Grapheme_Extend_table,
    unicode_prop_Other_Default_Ignorable_Code_Point_table, unicode_prop_Other_ID_Start_table,
    unicode_prop_Other_ID_Continue_table, unicode_prop_Prepended_Concatenation_Mark_table,
    unicode_prop_XID_Start1_table, unicode_prop_XID_Continue1_table,
    unicode_prop_Changes_When_Titlecased1_table, unicode_prop_Changes_When_Casefolded1_table]"
  by (simp add:
      unicode_prop_Other_Grapheme_Extend_table_def
      unicode_prop_Other_Default_Ignorable_Code_Point_table_def
      unicode_prop_Other_ID_Start_table_def unicode_prop_Other_ID_Continue_table_def
      unicode_prop_Prepended_Concatenation_Mark_table_def unicode_prop_XID_Start1_table_def
      unicode_prop_XID_Continue1_table_def unicode_prop_Changes_When_Titlecased1_table_def
      unicode_prop_Changes_When_Casefolded1_table_def)

lemma small_tables_4:
  "list_all (\<lambda>t. runs_parse t \<and> length t \<le> 2000)
    [unicode_prop_Changes_When_NFKC_Casefolded1_table, unicode_prop_ASCII_Hex_Digit_table,
    unicode_prop_Bidi_Control_table]"
  by (simp add:
      unicode_prop_Changes_When_NFKC_Casefolded1_table_def
      unicode_prop_ASCII_Hex_Digit_table_def unicode_prop_Bidi_Control_table_def)

lemma small_tables_5:
  "list_all (\<lambda>t. runs_parse t \<and> length t \<le> 2000)
    [unicode_prop_Dash_table, unicode_prop_Deprecated_table, unicode_prop_Diacritic_table]"
  by (simp add:
      unicode_prop_Dash_table_def unicode_prop_Deprecated_table_def
      unicode_prop_Diacritic_table_def)

lemma small_tables_6:
  "list_all (\<lambda>t. runs_parse t \<and> length t \<le> 2000)
    [unicode_prop_Extender_table, unicode_prop_Hex_Digit_table,
    unicode_prop_IDS_Binary_Operator_table, unicode_prop_IDS_Trinary_Operator_table,
    unicode_prop_Ideographic_table, unicode_prop_Join_Control_table,
    unicode_prop_Logical_Order_Exception_table, unicode_prop_Noncharacter_Code_Point_table,
    unicode_prop_Pattern_Syntax_table, unicode_prop_Pattern_White_Space_table,
    unicode_prop_Quotation_Mark_table, unicode_prop_Radical_table,
    unicode_prop_Regional_Indicator_table]"
  by (simp add:
      unicode_prop_Extender_table_def unicode_prop_Hex_Digit_table_def
      unicode_prop_IDS_Binary_Operator_table_def unicode_prop_IDS_Trinary_Operator_table_def
      unicode_prop_Ideographic_table_def unicode_prop_Join_Control_table_def
      unicode_prop_Logical_Order_Exception_table_def
      unicode_prop_Noncharacter_Code_Point_table_def unicode_prop_Pattern_Syntax_table_def
      unicode_prop_Pattern_White_Space_table_def unicode_prop_Quotation_Mark_table_def
      unicode_prop_Radical_table_def unicode_prop_Regional_Indicator_table_def)

lemma small_tables_7:
  "list_all (\<lambda>t. runs_parse t \<and> length t \<le> 2000)
    [unicode_prop_Sentence_Terminal_table, unicode_prop_Soft_Dotted_table,
    unicode_prop_Terminal_Punctuation_table]"
  by (simp add:
      unicode_prop_Sentence_Terminal_table_def unicode_prop_Soft_Dotted_table_def
      unicode_prop_Terminal_Punctuation_table_def)

lemma small_tables_8:
  "list_all (\<lambda>t. runs_parse t \<and> length t \<le> 2000)
    [unicode_prop_Unified_Ideograph_table, unicode_prop_Variation_Selector_table,
    unicode_prop_White_Space_table, unicode_prop_Bidi_Mirrored_table, unicode_prop_Emoji_table]"
  by (simp add:
      unicode_prop_Unified_Ideograph_table_def unicode_prop_Variation_Selector_table_def
      unicode_prop_White_Space_table_def unicode_prop_Bidi_Mirrored_table_def
      unicode_prop_Emoji_table_def)

lemma small_tables_9:
  "list_all (\<lambda>t. runs_parse t \<and> length t \<le> 2000)
    [unicode_prop_Emoji_Component_table, unicode_prop_Emoji_Modifier_table,
    unicode_prop_Emoji_Modifier_Base_table, unicode_prop_Emoji_Presentation_table,
    unicode_prop_Extended_Pictographic_table, unicode_prop_Default_Ignorable_Code_Point_table]"
  by (simp add:
      unicode_prop_Emoji_Component_table_def unicode_prop_Emoji_Modifier_table_def
      unicode_prop_Emoji_Modifier_Base_table_def unicode_prop_Emoji_Presentation_table_def
      unicode_prop_Extended_Pictographic_table_def
      unicode_prop_Default_Ignorable_Code_Point_table_def)

lemma indexed_tables_short:
  "length unicode_prop_ID_Start_table \<le> 2000" "length unicode_prop_ID_Continue1_table \<le> 2000"
  "length unicode_prop_Case_Ignorable_table \<le> 2000"
  by (simp_all add: unicode_prop_ID_Start_table_def unicode_prop_ID_Continue1_table_def
      unicode_prop_Case_Ignorable_table_def unicode_prop_ID_Start_pieces
      unicode_prop_ID_Continue1_pieces unicode_prop_Case_Ignorable_pieces)

lemma prop_tables_decode:
  "list_all (\<lambda>t. (\<exists>rs. table_runs t = Some rs) \<and> length t \<le> 2000) unicode_prop_table"
proof -
  have "\<exists>rs. table_runs unicode_prop_ID_Start_table = Some rs"
      "\<exists>rs. table_runs unicode_prop_ID_Continue1_table = Some rs"
      "\<exists>rs. table_runs unicode_prop_Case_Ignorable_table = Some rs"
    using id_start.table_facts id_continue1.table_facts case_ignorable.table_facts by blast+
  then show ?thesis
    unfolding unicode_prop_table_def
    using small_tables_1 small_tables_2 small_tables_3 small_tables_4 small_tables_5 small_tables_6
      small_tables_7 small_tables_8 small_tables_9 indexed_tables_short
    by (simp add: runs_parse_runs)
qed

lemma prop_ivs_source:
  assumes "i < length unicode_prop_table"
  shows "unicode_prop1 cr i = add_all cr (prop_ivs i)" and "sorted (iv_points (prop_ivs i))"
    and "length (prop_ivs i) \<le> 4000" and "in_ivs (prop_ivs i) c \<longleftrightarrow> table_mem (unicode_prop_table ! i) c"
proof -
  obtain rs where "table_runs (unicode_prop_table ! i) = Some rs" "length (unicode_prop_table ! i) \<le> 2000"
    using prop_tables_decode assms by (auto simp: list_all_length)
  note p = prop_ivs_props [OF assms this]
  show "unicode_prop1 cr i = add_all cr (prop_ivs i)" "length (prop_ivs i) \<le> 4000"
      "in_ivs (prop_ivs i) c \<longleftrightarrow> table_mem (unicode_prop_table ! i) c" by (rule p)+
  show "sorted (iv_points (prop_ivs i))" using p(2) by (auto simp: ivs_between_def sorted_append)
qed

section \<open>The stack machine evaluates set expressions\<close>

datatype prop_expr = Gc u32 | Prop nat | Case u32
  | Unite prop_expr prop_expr | Intersect prop_expr prop_expr | SymDiff prop_expr prop_expr | Complement prop_expr

fun expr_ops :: "prop_expr \<Rightarrow> prop_op list" where
  "expr_ops (Gc m) = [POP_GC m]"
| "expr_ops (Prop i) = [POP_PROP i]"
| "expr_ops (Case m) = [POP_CASE m]"
| "expr_ops (Unite a b) = expr_ops a @ expr_ops b @ [POP_UNION]"
| "expr_ops (Intersect a b) = expr_ops a @ expr_ops b @ [POP_INTER]"
| "expr_ops (SymDiff a b) = expr_ops a @ expr_ops b @ [POP_XOR]"
| "expr_ops (Complement a) = expr_ops a @ [POP_INVERT]"

text \<open>The characters an expression stands for.\<close>

fun expr_mem :: "prop_expr \<Rightarrow> u32 \<Rightarrow> bool" where
  "expr_mem (Gc m) c \<longleftrightarrow> (\<exists>k. char_category c = Some k \<and> bit m k)"
| "expr_mem (Prop i) c \<longleftrightarrow> table_mem (unicode_prop_table ! i) c"
| "expr_mem (Case m) c \<longleftrightarrow> case_changes m c"
| "expr_mem (Unite a b) c \<longleftrightarrow> expr_mem a c \<or> expr_mem b c"
| "expr_mem (Intersect a b) c \<longleftrightarrow> expr_mem a c \<and> expr_mem b c"
| "expr_mem (SymDiff a b) c \<longleftrightarrow> expr_mem a c \<noteq> expr_mem b c"
| "expr_mem (Complement a) c \<longleftrightarrow> \<not> expr_mem a c"

text \<open>The cells of the stack it needs, where a binary operation needs one for its result, and a bound
  for the points of a range, in units of the largest source.\<close>

fun expr_cells :: "prop_expr \<Rightarrow> nat" where
  "expr_cells (Unite a b) = max (expr_cells a) (max (expr_cells b + 1) 3)"
| "expr_cells (Intersect a b) = max (expr_cells a) (max (expr_cells b + 1) 3)"
| "expr_cells (SymDiff a b) = max (expr_cells a) (max (expr_cells b + 1) 3)"
| "expr_cells (Complement a) = expr_cells a"
| "expr_cells _ = 1"

fun expr_weight :: "prop_expr \<Rightarrow> nat" where
  "expr_weight (Unite a b) = expr_weight a + expr_weight b"
| "expr_weight (Intersect a b) = expr_weight a + expr_weight b"
| "expr_weight (SymDiff a b) = expr_weight a + expr_weight b"
| "expr_weight (Complement a) = expr_weight a + 1"
| "expr_weight _ = 1"

fun expr_ok :: "prop_expr \<Rightarrow> bool" where
  "expr_ok (Unite a b) \<longleftrightarrow> expr_ok a \<and> expr_ok b"
| "expr_ok (Intersect a b) \<longleftrightarrow> expr_ok a \<and> expr_ok b"
| "expr_ok (SymDiff a b) \<longleftrightarrow> expr_ok a \<and> expr_ok b"
| "expr_ok (Complement a) \<longleftrightarrow> expr_ok a"
| "expr_ok (Prop i) \<longleftrightarrow> i < length unicode_prop_table"
| "expr_ok _ \<longleftrightarrow> True"

text \<open>A range with allocation function \<open>f\<close> that denotes the expression; the largest 32-bit number is never a
  character.\<close>

definition denotes :: "'h points_realloc \<Rightarrow> 'h char_range \<Rightarrow> prop_expr \<Rightarrow> bool" where
  "denotes f cr e \<longleftrightarrow> cr_ok cr \<and> cr_realloc_func cr = f \<and> sorted (points_of cr) \<and> even (length (points_of cr)) \<and>
     length (points_of cr) \<le> expr_weight e * 2 ^ 22 \<and>
     (\<forall>c. c \<noteq> 0xffffffff \<longrightarrow> cr_mem (points_of cr) c = expr_mem e c)"

lemma denotes_state [simp]: "denotes f (using_state h cr) e = denotes f cr e"
  by (simp add: denotes_def using_state_def)

lemma cr_init_some:
  "lawful_points f \<Longrightarrow> cr_ok (cr_init f h (Some f)) \<and> points_of (cr_init f h (Some f)) = []"
  "cr_realloc_func (cr_init f h (Some f)) = f"
  by (simp_all add: cr_ok_def cr_init_def points_of_def)

text \<open>One step: either the range for the expression is on the stack, or an allocation failed.\<close>

definition reaches :: "'h points_realloc \<Rightarrow> ('h \<times> 'h char_range list \<times> bool) option \<Rightarrow> 'h char_range list \<Rightarrow> prop_expr \<Rightarrow> bool" where
  "reaches f out stack e \<longleftrightarrow> (\<exists>h cr. out = Some (h, cr # stack, False) \<and> denotes f cr e) \<or>
     (\<not> grants f \<and> (\<exists>h st. out = Some (h, st, True)))"

context range_source
begin

lemma push_reaches:
  assumes "lawful_points f" and "length stack < POP_STACK_LEN_MAX" and "\<And>c. expr_mem e c = in_ivs ivs c"
    and "1 \<le> expr_weight e"
  shows "reaches f (push_range f fill h stack) stack e"
proof -
  obtain cr1 r where r: "fill (cr_init f h (Some f)) = Some (cr1, r)" "cr_ok cr1"
      "r = 0 \<and> sorted (points_of cr1) \<and> even (length (points_of cr1)) \<and> length (points_of cr1) \<le> 2 ^ 22 \<and>
       cr_realloc_func cr1 = f \<and> (\<forall>c. cr_mem (points_of cr1) c = in_ivs ivs c) \<or> r = -1 \<and> \<not> grants f"
    using fill_result [of "cr_init f h (Some f)"] cr_init_some(1) [OF assms(1)] cr_init_some(2) [of f] by (simp only:) blast
  have "(2 :: nat) ^ 22 \<le> expr_weight e * 2 ^ 22" using assms(4) by simp
  then have "r = 0 \<Longrightarrow> denotes f cr1 e" using r(2,3) assms(3) unfolding denotes_def by (auto intro: order.trans)
  then show ?thesis using r(1,3) assms(2) by (auto simp: push_range_def reaches_def)
qed

end

lemma combine_reaches:
  assumes f: "lawful_points f" and a: "denotes f cr1 a" and b: "denotes f cr2 b"
    and room: "length rest + 2 < POP_STACK_LEN_MAX"
    and op: "\<And>x y. cr_is_in op1 x y = Some (g x y)" "g False False = False"
    and mem: "\<And>c. expr_mem e c = g (expr_mem a c) (expr_mem b c)"
    and weight: "expr_weight e = expr_weight a + expr_weight b" "expr_weight e \<le> 32"
  shows "reaches f (combine_ranges f op1 h (cr2 # cr1 # rest)) rest e"
proof -
  define A B where "A = points_of cr1" and "B = points_of cr2"
  have ab: "cr_ok cr1" "cr_ok cr2" "sorted A" "sorted B" "even (length A)" "even (length B)"
      "length A + length B \<le> expr_weight e * 2 ^ 22"
    using a b weight(1) by (auto simp: denotes_def A_def B_def algebra_simps)
  have len: "cr_len cr1 = int (length A)" "cr_len cr2 = int (length B)"
    by (simp_all add: A_def B_def length_points_of ab(1,2))
  have used: "points_used (cr_points cr1) (int (length A)) = Some A" "points_used (cr_points cr2) (int (length B)) = Some B"
    using points_used_of [OF ab(1)] points_used_of [OF ab(2)] len by (auto simp: A_def B_def)
  have small: "length A + length B < 2 ^ 28" using ab(7) weight(2) by simp
  have srv: "served f (cr_op (cr_init f h (Some f)) A (int (length A)) B (int (length B)) op1)"
    using cr_op_served [OF cr_ok_size [OF conjunct1 [OF cr_init_some(1) [OF f]]]] unfolding cr_init_some(2) .
  note init = cr_init_some(1) [OF f, of h, THEN conjunct1] cr_init_some(1) [OF f, of h, THEN conjunct2]
  from cr_op_combines [OF init ab(3-6) small op] show ?thesis
  proof cases
    case (1 cr3)
    have "cr_realloc_func cr3 = f" using srv 1(1) by (simp add: served_def)
    then have "denotes f cr3 e"
      using 1(2-5) ab(7) a b mem by (auto simp: denotes_def A_def B_def cr_wf_def strict_sorted_imp_sorted)
    then show ?thesis using 1(1) used room by (simp add: combine_ranges_def len reaches_def Let_def)
  next
    case (2 cr3)
    then have "\<not> grants f" using srv by (auto simp: served_def)
    then show ?thesis using 2(1) used room by (simp add: combine_ranges_def len reaches_def Let_def)
  qed
qed

lemma invert_reaches:
  assumes a: "denotes f cr a" and weight: "expr_weight a < 32"
  shows "reaches f (prop_step f POP_INVERT h (cr # rest)) rest (Complement a)"
proof -
  have ok: "cr_ok (using_state h cr)" "points_of (using_state h cr) = points_of cr"
    using a by (simp_all add: denotes_def using_state_def)
  have srv: "served f (cr_invert (using_state h cr))"
    using cr_invert_served [OF cr_ok_size [OF ok(1)]] a by (simp add: denotes_def using_state_def)
  have "cr_len (using_state h cr) + 2 \<le> 2 ^ 28"
    using length_points_of [OF ok(1)] ok(2) a weight by (simp add: denotes_def)
  note inv = cr_invert_complements [OF ok(1) _ _ this, unfolded ok(2)]
  have "sorted (points_of cr)" "even (length (points_of cr))" using a by (simp_all add: denotes_def)
  from inv [OF this] show ?thesis
  proof cases
    case (1 cr1)
    have "cr_realloc_func cr1 = f" using srv 1(1) by (simp add: served_def)
    then have "denotes f cr1 (Complement a)"
      using 1(2-5) a by (auto simp: denotes_def cr_wf_def strict_sorted_imp_sorted)
    then show ?thesis using 1(1) by (simp add: reaches_def)
  next
    case (2 cr1)
    then have "\<not> grants f" using srv by (auto simp: served_def)
    then show ?thesis using 2(1) by (simp add: reaches_def)
  qed
qed

lemma prop_run_then:
  assumes "reaches f (prop_step f op1 h st) stack e" and "op1 \<noteq> POP_END"
  shows "(\<exists>h1 cr. prop_run f (op1 # ops) h st = prop_run f ops h1 (cr # stack) \<and> denotes f cr e) \<or>
    \<not> grants f \<and> (\<exists>h1 st1. prop_run f (op1 # ops) h st = Some (h1, st1, True))"
  using assms by (auto simp: reaches_def)

lemma expr_weight_positive: "1 \<le> expr_weight e"
  by (induction e) auto

definition runs_to :: "'h points_realloc \<Rightarrow> prop_expr \<Rightarrow> 'h char_range list \<Rightarrow> bool" where
  "runs_to f e stack \<longleftrightarrow> (\<forall>h ops.
     (\<exists>h1 cr. prop_run f (expr_ops e @ ops) h stack = prop_run f ops h1 (cr # stack) \<and> denotes f cr e) \<or>
     \<not> grants f \<and> (\<exists>h1 st. prop_run f (expr_ops e @ ops) h stack = Some (h1, st, True)))"

lemma runs_to_step:
  assumes "expr_ops e = [op1]" and "op1 \<noteq> POP_END" and "\<And>h. reaches f (prop_step f op1 h stack) stack e"
  shows "runs_to f e stack"
  unfolding runs_to_def using prop_run_then [OF assms(3,2)] assms(1) by simp

lemma runs_to_unary:
  assumes "runs_to f a stack" and "expr_ops e = expr_ops a @ [op1]" and "op1 \<noteq> POP_END"
    and "\<And>h cr. denotes f cr a \<Longrightarrow> reaches f (prop_step f op1 h (cr # stack)) stack e"
  shows "runs_to f e stack"
  unfolding runs_to_def
proof (intro allI)
  fix h ops
  consider h1 cr where "prop_run f (expr_ops a @ op1 # ops) h stack = prop_run f (op1 # ops) h1 (cr # stack)" "denotes f cr a"
    | h1 st where "prop_run f (expr_ops a @ op1 # ops) h stack = Some (h1, st, True)" "\<not> grants f"
    using assms(1) unfolding runs_to_def by blast
  then show "(\<exists>h1 cr. prop_run f (expr_ops e @ ops) h stack = prop_run f ops h1 (cr # stack) \<and> denotes f cr e) \<or>
     \<not> grants f \<and> (\<exists>h1 st. prop_run f (expr_ops e @ ops) h stack = Some (h1, st, True))"
  proof cases
    case 1
    from prop_run_then [OF assms(4) [OF 1(2)] assms(3)] show ?thesis using 1(1) assms(2) by fastforce
  qed (use assms(2) in auto)
qed

lemma runs_to_binary:
  assumes "runs_to f a stack" and "\<And>cr. runs_to f b (cr # stack)"
    and "expr_ops e = expr_ops a @ expr_ops b @ [op1]" and "op1 \<noteq> POP_END"
    and "\<And>h cr2 cr1. denotes f cr1 a \<Longrightarrow> denotes f cr2 b \<Longrightarrow> reaches f (prop_step f op1 h (cr2 # cr1 # stack)) stack e"
  shows "runs_to f e stack"
  unfolding runs_to_def
proof (intro allI)
  fix h ops
  let ?goal = "(\<exists>h1 cr. prop_run f (expr_ops e @ ops) h stack = prop_run f ops h1 (cr # stack) \<and> denotes f cr e) \<or>
     \<not> grants f \<and> (\<exists>h1 st. prop_run f (expr_ops e @ ops) h stack = Some (h1, st, True))"
  let ?rest = "expr_ops b @ op1 # ops"
  have e: "prop_run f (expr_ops e @ ops) h stack = prop_run f (expr_ops a @ ?rest) h stack" using assms(3) by simp
  consider h1 cr1 where "prop_run f (expr_ops a @ ?rest) h stack = prop_run f ?rest h1 (cr1 # stack)" "denotes f cr1 a"
    | h1 st where "prop_run f (expr_ops a @ ?rest) h stack = Some (h1, st, True)" "\<not> grants f"
    using assms(1) unfolding runs_to_def by blast
  then show ?goal
  proof cases
    case a: (1 h1 cr1)
    consider h2 cr2 where "prop_run f ?rest h1 (cr1 # stack) = prop_run f (op1 # ops) h2 (cr2 # cr1 # stack)" "denotes f cr2 b"
      | h2 st where "prop_run f ?rest h1 (cr1 # stack) = Some (h2, st, True)" "\<not> grants f"
      using assms(2) [of cr1] unfolding runs_to_def by blast
    then show ?thesis
    proof cases
      case b: (1 h2 cr2)
      from prop_run_then [OF assms(5) [OF a(2) b(2)] assms(4)] show ?thesis using a(1) b(1) e by fastforce
    qed (use a(1) e in auto)
  qed (use e in auto)
qed

lemma prop_run_expr:
  assumes f: "lawful_points f"
  shows "expr_ok e \<Longrightarrow> length stack + expr_cells e \<le> POP_STACK_LEN_MAX \<Longrightarrow> expr_weight e \<le> 32 \<Longrightarrow> runs_to f e stack"
proof (induction e arbitrary: stack)
  case (Gc m)
  show ?case
    by (rule runs_to_step, simp, simp, unfold prop_step.simps, rule gc.push_reaches [OF f])
      (use Gc gc_ivs_of_table(2) in auto)
next
  case (Case m)
  show ?case
    by (rule runs_to_step, simp, simp, unfold prop_step.simps, rule changes.push_reaches [OF f])
      (use Case case_ivs_changes in auto)
next
  case (Prop i)
  then have i: "i < length unicode_prop_table" by simp
  have src: "range_source (\<lambda>cr. unicode_prop1 cr i) (prop_ivs i)"
    by unfold_locales (use prop_ivs_source(1-3) [OF i] in auto)
  show ?case
    by (rule runs_to_step, simp, simp, unfold prop_step.simps, rule range_source.push_reaches [OF src f])
      (use Prop prop_ivs_source(4) [OF i] in auto)
next
  case (Complement a)
  then show ?case by (intro runs_to_unary [OF Complement.IH _ _ invert_reaches]) auto
next
  case (Unite a b)
  show ?case
    by (rule runs_to_binary [OF Unite.IH(1) Unite.IH(2)], (use Unite.prems in auto)[8], unfold prop_step.simps,
        rule combine_reaches [OF f, where g = "(\<or>)"]) (use Unite.prems in \<open>auto simp: cr_is_in_simps POP_STACK_LEN_MAX_def\<close>)
next
  case (Intersect a b)
  show ?case
    by (rule runs_to_binary [OF Intersect.IH(1) Intersect.IH(2)], (use Intersect.prems in auto)[8], unfold prop_step.simps,
        rule combine_reaches [OF f, where g = "(\<and>)"]) (use Intersect.prems in \<open>auto simp: cr_is_in_simps POP_STACK_LEN_MAX_def\<close>)
next
  case (SymDiff a b)
  show ?case
    by (rule runs_to_binary [OF SymDiff.IH(1) SymDiff.IH(2)], (use SymDiff.prems in auto)[8], unfold prop_step.simps,
        rule combine_reaches [OF f, where g = "(\<noteq>)"]) (use SymDiff.prems in \<open>auto simp: cr_is_in_simps POP_STACK_LEN_MAX_def\<close>)
qed

lemma unicode_prop_ops_expr:
  assumes cr: "cr_ok cr" and e: "expr_ok e" "expr_cells e \<le> POP_STACK_LEN_MAX" "expr_weight e \<le> 32"
  shows "\<exists>cr1 r. unicode_prop_ops cr (expr_ops e @ [POP_END]) = Some (cr1, r) \<and> 
    (r = 0 \<and> denotes (cr_realloc_func cr) cr1 e \<or> r = -1 \<and> \<not> grants (cr_realloc_func cr))"
proof -
  have f: "lawful_points (cr_realloc_func cr)" using cr by (simp add: cr_ok_def)
  have "runs_to (cr_realloc_func cr) e ([] :: 'a char_range list)" using prop_run_expr [OF f e(1), of "[]"] e(2,3) by simp
  then consider h cr0 where "prop_run (cr_realloc_func cr) (expr_ops e @ [POP_END]) (cr_opaque cr) [] =
        prop_run (cr_realloc_func cr) [POP_END] h [cr0]" "denotes (cr_realloc_func cr) cr0 e"
    | h st where "prop_run (cr_realloc_func cr) (expr_ops e @ [POP_END]) (cr_opaque cr) [] = Some (h, st, True)" "\<not> grants (cr_realloc_func cr)"
    unfolding runs_to_def by blast
  then show ?thesis
  proof cases
    case run: (1 h cr0)
    have ok: "cr_ok (using_state h cr)" "cr_ok cr0" using cr run(2) by (simp_all add: using_state_def denotes_def)
    have "cr_len cr0 \<le> 2 ^ 28"
      using length_points_of [OF ok(2)] run(2) e(3) by (simp add: denotes_def)
    then have "served (cr_realloc_func cr) (cr_copy (using_state h cr) cr0)"
      using cr_copy_served [OF cr_ok_size [OF ok(1)], of cr0] by (simp add: using_state_def)
    then have srv: "cr_copy (using_state h cr) cr0 = Some (cr2, r) \<Longrightarrow>
        cr_realloc_func cr2 = cr_realloc_func cr \<and> (grants (cr_realloc_func cr) \<longrightarrow> r = 0)" for cr2 r
      by (simp add: served_def)
    from cr_copy_copies [OF ok \<open>cr_len cr0 \<le> 2 ^ 28\<close>] show ?thesis
    proof cases
      case (1 cr2)
      then have "denotes (cr_realloc_func cr) (using_state h2 cr2) e" for h2
        using run(2) srv [OF 1(1)] by (simp add: denotes_def using_state_def)
      then show ?thesis using 1(1) run(1) by (simp add: unicode_prop_ops_def)
    next
      case (2 cr2)
      then show ?thesis using run(1) srv [OF 2(1)] by (simp add: unicode_prop_ops_def)
    qed
  qed (simp add: unicode_prop_ops_def)
qed

section \<open>The computed properties\<close>

definition gc_set :: "nat list \<Rightarrow> prop_expr" where
  "gc_set ids = Gc (gc_masks ids)"

definition not_pattern :: "nat \<Rightarrow> prop_expr" where
  "not_pattern extra = Complement (Unite (Unite (Prop UNICODE_PROP_Pattern_Syntax) (Prop UNICODE_PROP_Pattern_White_Space))
     (Prop extra))"

text \<open>The properties as set expressions.\<close>

definition prop_definitions :: "(nat \<times> prop_expr) list" where
  "prop_definitions =
     [(UNICODE_PROP_Assigned, Complement (gc_set [UNICODE_GC_Cn])),
      (UNICODE_PROP_Math, Unite (gc_set [UNICODE_GC_Sm]) (Prop UNICODE_PROP_Other_Math)),
      (UNICODE_PROP_Lowercase, Unite (gc_set [UNICODE_GC_Ll]) (Prop UNICODE_PROP_Other_Lowercase)),
      (UNICODE_PROP_Uppercase, Unite (gc_set [UNICODE_GC_Lu]) (Prop UNICODE_PROP_Other_Uppercase)),
      (UNICODE_PROP_Cased, Unite (Unite (gc_set [UNICODE_GC_Lu, UNICODE_GC_Ll, UNICODE_GC_Lt])
         (Prop UNICODE_PROP_Other_Uppercase)) (Prop UNICODE_PROP_Other_Lowercase)),
      (UNICODE_PROP_Alphabetic, Unite (Unite (Unite (gc_set alphabetic_gcs) (Prop UNICODE_PROP_Other_Uppercase))
         (Prop UNICODE_PROP_Other_Lowercase)) (Prop UNICODE_PROP_Other_Alphabetic)),
      (UNICODE_PROP_Grapheme_Base, Complement (Unite (gc_set [UNICODE_GC_Cc, UNICODE_GC_Cf, UNICODE_GC_Cs, UNICODE_GC_Co,
           UNICODE_GC_Cn, UNICODE_GC_Zl, UNICODE_GC_Zp, UNICODE_GC_Me, UNICODE_GC_Mn])
         (Prop UNICODE_PROP_Other_Grapheme_Extend))),
      (UNICODE_PROP_Grapheme_Extend, Unite (gc_set [UNICODE_GC_Me, UNICODE_GC_Mn])
         (Prop UNICODE_PROP_Other_Grapheme_Extend)),
      (UNICODE_PROP_XID_Start, Intersect (Unite (gc_set alphabetic_gcs) (Prop UNICODE_PROP_Other_ID_Start))
         (not_pattern UNICODE_PROP_XID_Start1)),
      (UNICODE_PROP_XID_Continue, Intersect (Unite (Unite
           (gc_set (alphabetic_gcs @ [UNICODE_GC_Mn, UNICODE_GC_Mc, UNICODE_GC_Nd, UNICODE_GC_Pc]))
           (Prop UNICODE_PROP_Other_ID_Start)) (Prop UNICODE_PROP_Other_ID_Continue))
         (not_pattern UNICODE_PROP_XID_Continue1)),
      (UNICODE_PROP_Changes_When_Titlecased, SymDiff (Case CASE_U) (Prop UNICODE_PROP_Changes_When_Titlecased1)),
      (UNICODE_PROP_Changes_When_Casefolded, SymDiff (Case CASE_F) (Prop UNICODE_PROP_Changes_When_Casefolded1)),
      (UNICODE_PROP_Changes_When_NFKC_Casefolded,
         SymDiff (Case CASE_F) (Prop UNICODE_PROP_Changes_When_NFKC_Casefolded1)),
      (UNICODE_PROP_ID_Continue, SymDiff (Prop UNICODE_PROP_ID_Start) (Prop UNICODE_PROP_ID_Continue1))]"

definition prop_definition :: "nat \<Rightarrow> prop_expr option" where
  "prop_definition idx = map_of prop_definitions idx"

lemma prop_program_compiles: "prop_program idx = map_option (\<lambda>e. expr_ops e @ [POP_END]) (prop_definition idx)"
  unfolding prop_program_def prop_definition_def prop_definitions_def
  by (simp add: gc_set_def gc_op_def not_pattern_def)

lemmas prop_ids =
  UNICODE_PROP_Alphabetic_def UNICODE_PROP_Assigned_def UNICODE_PROP_Cased_def
  UNICODE_PROP_Changes_When_Casefolded_def UNICODE_PROP_Changes_When_Casefolded1_def
  UNICODE_PROP_Changes_When_NFKC_Casefolded_def UNICODE_PROP_Changes_When_NFKC_Casefolded1_def
  UNICODE_PROP_Changes_When_Titlecased_def UNICODE_PROP_Changes_When_Titlecased1_def
  UNICODE_PROP_Grapheme_Base_def UNICODE_PROP_Grapheme_Extend_def UNICODE_PROP_ID_Continue_def
  UNICODE_PROP_ID_Continue1_def UNICODE_PROP_ID_Start_def UNICODE_PROP_Lowercase_def
  UNICODE_PROP_Math_def UNICODE_PROP_Other_Alphabetic_def UNICODE_PROP_Other_Grapheme_Extend_def
  UNICODE_PROP_Other_ID_Continue_def UNICODE_PROP_Other_ID_Start_def
  UNICODE_PROP_Other_Lowercase_def UNICODE_PROP_Other_Math_def UNICODE_PROP_Other_Uppercase_def
  UNICODE_PROP_Pattern_Syntax_def UNICODE_PROP_Pattern_White_Space_def UNICODE_PROP_Uppercase_def
  UNICODE_PROP_XID_Continue_def UNICODE_PROP_XID_Continue1_def UNICODE_PROP_XID_Start_def
  UNICODE_PROP_XID_Start1_def

lemma prop_definitions_fit:
  "list_all (\<lambda>(_, e). expr_ok e \<and> expr_cells e \<le> POP_STACK_LEN_MAX \<and> expr_weight e \<le> 32) prop_definitions"
  unfolding prop_definitions_def
  by (simp add: gc_set_def not_pattern_def POP_STACK_LEN_MAX_def unicode_prop_table_def prop_ids)

lemma prop_definition_fits:
  "prop_definition idx = Some e \<Longrightarrow> expr_ok e \<and> expr_cells e \<le> POP_STACK_LEN_MAX \<and> expr_weight e \<le> 32"
  using prop_definitions_fit by (auto simp: prop_definition_def list_all_iff dest: map_of_SomeD)

end
