(* ===== verification/Unicode_Names.thy ===== *)
theory Unicode_Names
  imports Unicode_Stack
begin

text \<open>
  Properties and general categories by name. A table of names is searched for the first entry that
  has the name among its aliases; the number of the entry selects what \<^verbatim>\<open>unicode_prop\<close> and
  \<^verbatim>\<open>unicode_general_category\<close> do. The outcome is stated as the set of characters of the range.
\<close>

section \<open>Names\<close>

text \<open>The names of an entry, and the number of the first entry with a name.\<close>

function aliases :: "string \<Rightarrow> string list" where
  "aliases s = (let len = length (takeWhile (\<lambda>c. c \<noteq> CHR '','') s) in
     if len < length s then take len s # aliases (drop (len + 1) s) else [s])"
  by pat_completeness auto
termination
  by (relation "measure length") auto

declare aliases.simps [simp del]

fun alias_index :: "string \<Rightarrow> string list \<Rightarrow> int \<Rightarrow> int" where
  "alias_index name [] i = -1"
| "alias_index name (e # es) i = (if name \<in> set (aliases e) then i else alias_index name es (i + 1))"

lemma find_alias_entry:
  "NUL \<notin> set s \<Longrightarrow> (\<exists>q. find_alias name (s @ NUL # t) = Some (True, q)) \<and> name \<in> set (aliases s) \<or>
    find_alias name (s @ NUL # t) = Some (False, t) \<and> name \<notin> set (aliases s)"
proof (induction s rule: aliases.induct)
  case (1 s)
  define len where "len = length (takeWhile (\<lambda>c. c \<noteq> CHR '','') s)"
  have le: "len \<le> length s" unfolding len_def by (rule length_takeWhile_le)
  have eq: "len = length name \<and> take len (s @ NUL # t) = name \<longleftrightarrow> take len s = name" using le by auto
  have step: "find_alias name (s @ NUL # t) =
      (if take len s = name then Some (True, s @ NUL # t)
       else if len < length s then find_alias name (drop (len + 1) s @ NUL # t)
       else Some (False, t))"
    using 1(2) le eq by (subst find_alias.simps) (auto simp: Let_def len_def [symmetric])
  show ?case
  proof (cases "len < length s")
    case True
    have al: "aliases s = take len s # aliases (drop (len + 1) s)"
      using True by (subst aliases.simps) (simp add: len_def Let_def)
    have "NUL \<notin> set (drop (len + 1) s)" using 1(2) by (meson in_set_dropD)
    from 1(1) [OF len_def True this] show ?thesis unfolding step al using True by auto
  next
    case False
    then have "aliases s = [s]" "take len s = s" by (simp_all add: aliases.simps [of s] len_def Let_def)
    then show ?thesis using False step by auto
  qed
qed

lemma find_name_from_table:
  "\<forall>e\<in>set es. e \<noteq> [] \<and> NUL \<notin> set e \<Longrightarrow> find_name_from name (name_table es) i = Some (alias_index name es (int i))"
proof (induction es arbitrary: i)
  case Nil
  then show ?case by (simp add: name_table_def find_name_from.simps)
next
  case (Cons e es)
  have t: "name_table (e # es) = e @ NUL # name_table es" by (simp add: name_table_def)
  have e: "e \<noteq> []" "NUL \<notin> set e" using Cons.prems by auto
  then have hd: "\<exists>c r. e @ NUL # name_table es = c # r \<and> c \<noteq> NUL" by (cases e) auto
  have ih: "find_name_from name (name_table es) (i + 1) = Some (alias_index name es (int i + 1))"
    using Cons.IH [of "i + 1"] Cons.prems by (simp add: algebra_simps)
  from find_alias_entry [OF e(2), of name "name_table es"] show ?case
    using hd ih unfolding t by (subst find_name_from.simps) auto
qed

lemma unicode_find_name_table:
  assumes "\<forall>e\<in>set es. e \<noteq> [] \<and> NUL \<notin> set e"
  shows "unicode_find_name (name_table es) name = Some (alias_index (c_str name) es 0)"
  using find_name_from_table [OF assms, of "c_str name" 0] by (simp add: unicode_find_name_def)

lemma alias_index_range: "i \<ge> 0 \<Longrightarrow> alias_index name es i = -1 \<or> i \<le> alias_index name es i \<and> alias_index name es i < i + int (length es)"
  by (induction name es i rule: alias_index.induct) auto

section \<open>Properties by number\<close>

definition prop_chars :: "nat \<Rightarrow> u32 \<Rightarrow> bool" where
  "prop_chars idx c =
     (if idx = UNICODE_PROP_ASCII then c < 0x80
      else if idx = UNICODE_PROP_Any then c < 0x110000
      else if idx = UNICODE_PROP_Changes_When_Uppercased then case_changes CASE_U c
      else if idx = UNICODE_PROP_Changes_When_Lowercased then case_changes CASE_L c
      else if idx = UNICODE_PROP_Changes_When_Casemapped then case_changes (CASE_U OR CASE_L OR CASE_F) c
      else (case prop_definition idx of Some e \<Rightarrow> expr_mem e c | None \<Rightarrow> table_mem (unicode_prop_table ! idx) c))"

text \<open>The outcome with the allocation function \<open>f\<close>: a range of exactly these characters, or -1, and that only
  if \<open>f\<close> can fail.\<close>

definition gives :: "'h points_realloc \<Rightarrow> ('h char_range \<times> int) option \<Rightarrow> (u32 \<Rightarrow> bool) \<Rightarrow> bool" where
  "gives f out P \<longleftrightarrow> (\<exists>cr r. out = Some (cr, r) \<and>
     (r = 0 \<and> cr_ok cr \<and> sorted (points_of cr) \<and> even (length (points_of cr)) \<and>
        (\<forall>c. c \<noteq> 0xffffffff \<longrightarrow> cr_mem (points_of cr) c = P c) \<or> r = -1 \<and> \<not> grants f))"

context range_source
begin

lemma fill_gives: "cr_ok cr \<Longrightarrow> points_of cr = [] \<Longrightarrow> gives (cr_realloc_func cr) (fill cr) (in_ivs ivs)"
  using fill_result [of cr] unfolding gives_def by blast

end

lemma add_interval_gives:
  assumes "cr_ok cr" and "points_of cr = []"
  shows "gives (cr_realloc_func cr) (do { (cr1, r) \<leftarrow> cr_add_interval cr 0 b; Some (cr1, if r \<noteq> 0 then -1 else 0) }) (\<lambda>c. c < b)"
proof -
  have "cr_len cr + 2 \<le> 2 ^ 28" using length_points_of [OF assms(1)] assms(2) by simp
  have srv: "cr_add_interval cr 0 b = Some (cr1, r) \<Longrightarrow> grants (cr_realloc_func cr) \<Longrightarrow> r = 0" for cr1 r
    using cr_add_interval_served [OF cr_ok_size [OF assms(1)], of 0 b] by (auto simp: served_def)
  from cr_add_interval_cases [OF assms(1) \<open>cr_len cr + 2 \<le> 2 ^ 28\<close>, where ?c1.0 = 0 and ?c2.0 = b] show ?thesis
  proof cases
    case (1 cr1)
    then show ?thesis using assms(2) by (auto simp: gives_def not_less)
  next
    case (2 cr1)
    then show ?thesis using srv [OF 2(1)] by (auto simp: gives_def)
  qed
qed

lemma prop_ops_gives:
  "cr_ok cr \<Longrightarrow> prop_definition idx = Some e \<Longrightarrow>
    gives (cr_realloc_func cr) (unicode_prop_ops cr (expr_ops e @ [POP_END])) (expr_mem e)"
proof -
  assume cr: "cr_ok cr" and idx: "prop_definition idx = Some e"
  note fits = prop_definition_fits [OF idx]
  show ?thesis
    using unicode_prop_ops_expr [OF cr conjunct1 [OF fits] conjunct1 [OF conjunct2 [OF fits]] conjunct2 [OF conjunct2 [OF fits]]]
    unfolding gives_def denotes_def by blast
qed

lemmas direct_ids = UNICODE_PROP_ASCII_def UNICODE_PROP_Any_def UNICODE_PROP_Changes_When_Uppercased_def
  UNICODE_PROP_Changes_When_Lowercased_def UNICODE_PROP_Changes_When_Casemapped_def

definition direct_indices :: "nat list" where
  "direct_indices = [UNICODE_PROP_ASCII, UNICODE_PROP_Any, UNICODE_PROP_Changes_When_Uppercased,
     UNICODE_PROP_Changes_When_Lowercased, UNICODE_PROP_Changes_When_Casemapped]"

lemma computed_indices: "list_all (\<lambda>i. prop_definition i \<noteq> None \<or> i \<in> set direct_indices) [50..<69]"
  by (simp add: upt_rec prop_definition_def prop_definitions_def prop_ids direct_indices_def direct_ids)

lemma named_indices:
  assumes "idx \<le> 68"
  shows "idx < length unicode_prop_table \<or> prop_definition idx \<noteq> None \<or> idx \<in> set direct_indices"
proof (cases "idx < 50")
  case True
  then show ?thesis by (simp add: unicode_prop_table_def)
next
  case False
  then have "idx \<in> set [50..<69]" using assms by (simp only: set_upt) simp
  then show ?thesis using computed_indices unfolding list_all_iff by blast
qed

lemma prop_by_index_direct:
  assumes cr: "cr_ok cr" "points_of cr = []" and idx: "idx \<in> set direct_indices"
  shows "gives (cr_realloc_func cr) (prop_by_index cr idx) (prop_chars idx)"
proof -
  note fill = add_interval_gives [OF cr] changes.fill_gives [OF cr, unfolded case_ivs_set]
  have ext: "prop_chars UNICODE_PROP_ASCII = (\<lambda>c. c < 0x80)" "prop_chars UNICODE_PROP_Any = (\<lambda>c. c < 0x110000)"
      "prop_chars UNICODE_PROP_Changes_When_Uppercased = case_changes CASE_U"
      "prop_chars UNICODE_PROP_Changes_When_Lowercased = case_changes CASE_L"
      "prop_chars UNICODE_PROP_Changes_When_Casemapped = case_changes (CASE_U OR CASE_L OR CASE_F)"
    by (simp_all add: fun_eq_iff prop_chars_def direct_ids)
  have "prop_by_index cr UNICODE_PROP_Changes_When_Uppercased = unicode_case1 cr CASE_U"
      "prop_by_index cr UNICODE_PROP_Changes_When_Lowercased = unicode_case1 cr CASE_L"
      "prop_by_index cr UNICODE_PROP_Changes_When_Casemapped = unicode_case1 cr (CASE_U OR CASE_L OR CASE_F)"
    by (simp_all add: prop_by_index_def direct_ids)
  moreover have "prop_by_index cr UNICODE_PROP_ASCII = do { (cr1, r) \<leftarrow> cr_add_interval cr 0 0x80; Some (cr1, if r \<noteq> 0 then -1 else 0) }"
      "prop_by_index cr UNICODE_PROP_Any = do { (cr1, r) \<leftarrow> cr_add_interval cr 0 0x110000; Some (cr1, if r \<noteq> 0 then -1 else 0) }"
    by (simp_all add: prop_by_index_def direct_ids)
  ultimately show ?thesis using idx fill unfolding direct_indices_def by (auto simp: ext)
qed

lemma prop_by_index_table:
  assumes cr: "cr_ok cr" "points_of cr = []" and idx: "idx < length unicode_prop_table"
  shows "gives (cr_realloc_func cr) (unicode_prop1 cr idx) (table_mem (unicode_prop_table ! idx))"
proof -
  have "range_source (\<lambda>cr. unicode_prop1 cr idx) (prop_ivs idx)"
    by unfold_locales (use prop_ivs_source(1-3) [OF idx] in auto)
  from range_source.fill_gives [OF this cr] show ?thesis using prop_ivs_source(4) [OF idx] by (simp add: gives_def)
qed

lemma prop_by_index_gives:
  assumes cr: "cr_ok cr" "points_of cr = []" and idx: "idx \<le> 68"
  shows "gives (cr_realloc_func cr) (prop_by_index cr idx) (prop_chars idx)"
proof (cases "idx \<in> set direct_indices")
  case False
  then have other: "idx \<noteq> UNICODE_PROP_ASCII" "idx \<noteq> UNICODE_PROP_Any" "idx \<noteq> UNICODE_PROP_Changes_When_Uppercased"
      "idx \<noteq> UNICODE_PROP_Changes_When_Lowercased" "idx \<noteq> UNICODE_PROP_Changes_When_Casemapped"
    by (simp_all add: direct_indices_def)
  show ?thesis
  proof (cases "prop_definition idx")
    case None
    then have "prop_chars idx = table_mem (unicode_prop_table ! idx)" using other by (simp add: fun_eq_iff prop_chars_def)
    then show ?thesis using None other False named_indices [OF idx] prop_by_index_table [OF cr]
      by (simp add: prop_by_index_def prop_program_compiles)
  next
    case (Some e)
    then have "prop_chars idx = expr_mem e" using other by (simp add: fun_eq_iff prop_chars_def)
    then show ?thesis using Some other prop_ops_gives [OF cr(1) Some] by (simp add: prop_by_index_def prop_program_compiles)
  qed
qed (rule prop_by_index_direct [OF cr])

section \<open>By name\<close>

lemma prop_names_ok: "list_all (\<lambda>e. e \<noteq> [] \<and> NUL \<notin> set e) unicode_prop_names"
  by (simp add: unicode_prop_names_def)

lemma gc_names_ok: "list_all (\<lambda>e. e \<noteq> [] \<and> NUL \<notin> set e) unicode_gc_names"
  by (simp add: unicode_gc_names_def)

lemma prop_names_count: "length unicode_prop_names = 53"
  by (simp add: unicode_prop_names_def)

lemma gc_names_count: "length unicode_gc_names = 38"
  by (simp add: unicode_gc_names_def)

lemma unicode_find_prop:
  "unicode_find_name unicode_prop_name_table name = Some (alias_index (c_str name) unicode_prop_names 0)"
  unfolding unicode_prop_name_table_def using prop_names_ok by (intro unicode_find_name_table) (simp add: list_all_iff)

lemma unicode_find_gc:
  "unicode_find_name unicode_gc_name_table name = Some (alias_index (c_str name) unicode_gc_names 0)"
  unfolding unicode_gc_name_table_def using gc_names_ok by (intro unicode_find_name_table) (simp add: list_all_iff)

text \<open>The number of a property and the mask of a category by name.\<close>

definition prop_number :: "string \<Rightarrow> nat option" where
  "prop_number name = (let i = alias_index (c_str name) unicode_prop_names 0 in
     if i < 0 then None else Some (nat i + UNICODE_PROP_ASCII_Hex_Digit))"

lemma unicode_prop_by_name:
  assumes "cr_ok cr" and "points_of cr = []"
  shows "case prop_number name of
      None \<Rightarrow> unicode_prop cr name = Some (cr, -2)
    | Some idx \<Rightarrow> gives (cr_realloc_func cr) (unicode_prop cr name) (prop_chars idx)"
  using alias_index_range [of 0 "c_str name" unicode_prop_names] prop_by_index_gives [OF assms]
  by (auto simp: unicode_prop_def unicode_find_prop prop_number_def Let_def prop_names_count UNICODE_PROP_ASCII_Hex_Digit_def)

definition gc_number :: "string \<Rightarrow> nat option" where
  "gc_number name = (let i = alias_index (c_str name) unicode_gc_names 0 in if i < 0 then None else Some (nat i))"

definition gc_chars :: "nat \<Rightarrow> u32 \<Rightarrow> bool" where
  "gc_chars i c = (\<exists>k. char_category c = Some k \<and>
     (if i \<le> UNICODE_GC_Co then k = i else bit (unicode_gc_mask_table ! (i - UNICODE_GC_LC)) k))"

lemma unicode_general_category_by_name:
  assumes "cr_ok cr" and "points_of cr = []"
  shows "case gc_number name of
      None \<Rightarrow> unicode_general_category cr name = Some (cr, -2)
    | Some i \<Rightarrow> gives (cr_realloc_func cr) (unicode_general_category cr name) (gc_chars i)"
proof (cases "gc_number name")
  case (Some i)
  then have i: "alias_index (c_str name) unicode_gc_names 0 = int i" "i < 38"
    using alias_index_range [of 0 "c_str name" unicode_gc_names] by (auto simp: gc_number_def Let_def gc_names_count split: if_splits)
  define m where "m = (if i \<le> UNICODE_GC_Co then push_bit i 1 else unicode_gc_mask_table ! (i - UNICODE_GC_LC))"
  have "unicode_general_category cr name = unicode_general_category1 cr m"
    using i by (auto simp: unicode_general_category_def unicode_find_gc m_def rd_def nat_diff_distrib' UNICODE_GC_Co_def
       UNICODE_GC_LC_def unicode_gc_mask_table_def)
  moreover have "in_ivs (gc_ivs m 0 gc_table_runs) = gc_chars i"
    using i(2) by (auto simp: fun_eq_iff gc_ivs_of_table(2) gc_chars_def m_def bit_simps UNICODE_GC_Co_def)
  ultimately show ?thesis using Some gc.fill_gives [OF assms, of m] by simp
qed (auto simp: gc_number_def Let_def unicode_general_category_def unicode_find_gc split: if_splits)

end
