(* ===== verification/Unicode_Scripts.thy ===== *)
theory Unicode_Scripts
  imports Unicode_Names
begin

text \<open>
  Scripts. The tables of scripts and of script extensions are decoded entry by entry; the locale
  \<open>run_decoder\<close> is the contract of the two decoders, and one pass over the bytes shows that the
  generated tables decode. \<^verbatim>\<open>unicode_script\<close> is then the set of characters with a script, and with
  extensions the one with the script listed; after a failed allocation it does not return.
\<close>

section \<open>Tables of labelled runs\<close>

text \<open>The runs of a table: its entries are decoded one after another, each to the length less one of a
  run and its label.\<close>

fun decodes :: "(u8 list \<Rightarrow> (u32 \<times> 'v \<times> u8 list) option) \<Rightarrow> u8 list \<Rightarrow> (u32 \<times> 'v) list \<Rightarrow> bool" where
  "decodes entry p [] \<longleftrightarrow> p = []"
| "decodes entry p ((n, v) # rs) \<longleftrightarrow> p \<noteq> [] \<and> (\<exists>q. entry p = Some (n, v, q) \<and> decodes entry q rs)"

fun label_of :: "u32 \<Rightarrow> (u32 \<times> 'v) list \<Rightarrow> u32 \<Rightarrow> 'v option" where
  "label_of c [] x = None"
| "label_of c ((n, v) # rs) x = (if x < c + n + 1 then Some v else label_of (c + n + 1) rs x)"

fun labelled_ivs :: "('v \<Rightarrow> bool) \<Rightarrow> u32 \<Rightarrow> (u32 \<times> 'v) list \<Rightarrow> (u32 \<times> u32) list" where
  "labelled_ivs P c [] = []"
| "labelled_ivs P c ((n, v) # rs) = (if P v then [(c, c + n + 1)] else []) @ labelled_ivs P (c + n + 1) rs"

fun runs_end :: "nat \<Rightarrow> nat \<Rightarrow> (u32 \<times> 'v) list \<Rightarrow> bool" where
  "runs_end fin c [] \<longleftrightarrow> c = fin"
| "runs_end fin c ((n, v) # rs) \<longleftrightarrow> runs_end fin (c + unat n + 1) rs"

lemma runs_end_le: "runs_end fin c rs \<Longrightarrow> c \<le> fin"
  by (induction fin c rs rule: runs_end.induct) auto

lemma labelled_ivs_props:
  "runs_end fin (unat c) rs \<Longrightarrow> fin < 2 ^ 32 \<Longrightarrow>
    ivs_between c (labelled_ivs P c rs) (word_of_nat fin) \<and>
    (\<forall>x. in_ivs (labelled_ivs P c rs) x \<longleftrightarrow> c \<le> x \<and> (\<exists>v. label_of c rs x = Some v \<and> P v))"
proof (induction P c rs rule: labelled_ivs.induct)
  case (2 P c n v rs)
  have fin: "unat c + unat n + 1 \<le> fin" using 2(2) runs_end_le by fastforce
  then have u: "unat (c + n + 1) = unat c + unat n + 1" using 2(3) by (simp add: unat_word_ariths)
  have le: "c < c + n + 1" using u by (simp add: word_less_nat_alt)
  have ih: "ivs_between (c + n + 1) (labelled_ivs P (c + n + 1) rs) (word_of_nat fin)"
      "\<And>x. in_ivs (labelled_ivs P (c + n + 1) rs) x \<longleftrightarrow> c + n + 1 \<le> x \<and> (\<exists>v. label_of (c + n + 1) rs x = Some v \<and> P v)"
    using 2(1) 2(2,3) u by auto
  have "ivs_between c (labelled_ivs P c ((n, v) # rs)) (word_of_nat fin)"
    using ivs_between_cons [OF order.refl le ih(1)] ivs_between_weaken [OF ih(1), of c] le by simp
  moreover have "in_ivs (labelled_ivs P c ((n, v) # rs)) x \<longleftrightarrow>
      c \<le> x \<and> (\<exists>w. label_of c ((n, v) # rs) x = Some w \<and> P w)" for x
    using le by (auto simp: ih(2) not_less)
  ultimately show ?case by blast
qed (simp add: word_le_nat_alt unat_of_nat)

text \<open>The contract of a decoder of entries, with the length of the run and of the entry computed on
  numbers: then one pass over the bytes decides that a table decodes, and where its runs end.\<close>

fun skim :: "(u8 list \<Rightarrow> (nat \<times> nat) option) \<Rightarrow> nat \<Rightarrow> nat \<Rightarrow> u8 list \<Rightarrow> nat option" where
  "skim extent k c [] = (if k = 0 then Some c else None)"
| "skim extent k c (b # p) =
     (if k = 0 then (case extent (b # p) of
          None \<Rightarrow> None
        | Some (n, len) \<Rightarrow> skim extent (len - 1) (c + n) p)
      else skim extent (k - 1) c p)"

locale run_decoder =
  fixes entry :: "u8 list \<Rightarrow> (u32 \<times> 'v \<times> u8 list) option" and extent :: "u8 list \<Rightarrow> (nat \<times> nat) option"
  assumes entry_extent: "extent p = Some (k, len) \<Longrightarrow>
      \<exists>n v. entry p = Some (n, v, drop len p) \<and> unat n + 1 = k \<and> 0 < len \<and> len \<le> length p"
    and extent_append: "extent p = Some (k, len) \<Longrightarrow> extent (p @ q) = Some (k, len)"
begin

lemma skim_decodes: "skim extent k c p = Some fin \<Longrightarrow> \<exists>rs. decodes entry (drop k p) rs \<and> runs_end fin c rs"
proof (induction p arbitrary: k c)
  case Nil
  then show ?case by (auto split: if_splits intro: exI [of _ "[]"])
next
  case (Cons b p)
  show ?case
  proof (cases k)
    case 0
    then obtain m len where e: "extent (b # p) = Some (m, len)" "skim extent (len - 1) (c + m) p = Some fin"
      using Cons.prems by (auto split: option.splits)
    obtain n v where nv: "entry (b # p) = Some (n, v, drop len (b # p))" "unat n + 1 = m" "0 < len"
      using entry_extent [OF e(1)] by blast
    then have n: "entry (b # p) = Some (n, v, drop (len - 1) p)" "c + m = c + unat n + 1" by (cases len; simp)+
    obtain rs where "decodes entry (drop (len - 1) p) rs" "runs_end fin (c + m) rs" using Cons.IH [OF e(2)] by blast
    then have "decodes entry (drop k (b # p)) ((n, v) # rs)" "runs_end fin c ((n, v) # rs)"
      using n 0 by simp_all
    then show ?thesis by blast
  next
    case (Suc k1)
    then show ?thesis using Cons.IH [of k1 c] Cons.prems by simp
  qed
qed

lemma skim_append: "skim extent k c p = Some d \<Longrightarrow> skim extent k c (p @ q) = skim extent 0 d q"
proof (induction p arbitrary: k c)
  case (Cons b p)
  then show ?case using extent_append [of "b # p" _ _ q] by (auto split: if_splits option.splits)
qed (auto split: if_splits)

end

section \<open>Scripts\<close>

text \<open>The length of a run and of its entry.\<close>

fun script_extent :: "u8 list \<Rightarrow> (nat \<times> nat) option" where
  "script_extent (b # p) =
     (let k = unat b mod 128; t = (if b < 128 then 0 else 1) in
      if k < 96 then if t \<le> length p then Some (k + 1, 1 + t) else None
      else (case p of
          [] \<Rightarrow> None
        | x # p1 \<Rightarrow>
            if k < 112 then if t \<le> length p1 then Some ((k - 96) * 256 + unat x + 97, 2 + t) else None
            else (case p1 of
                [] \<Rightarrow> None
              | y # p2 \<Rightarrow> if t \<le> length p2
                  then Some ((k - 112) * 65536 + unat x * 256 + unat y + 4193, 3 + t) else None)))"
| "script_extent [] = None"

lemma low_bits_7: "unat ((ucast (b :: u8) :: u32) AND 0x7f) = unat b mod 128"
proof -
  have "(ucast b :: u32) AND 0x7f = take_bit 7 (ucast b)"
    using take_bit_eq_mask [of 7 "ucast b :: u32"] by (simp add: mask_eq_exp_minus_1)
  then have "unat ((ucast b :: u32) AND 0x7f) = take_bit 7 (unat b)" by (simp only: unsigned_take_bit_eq unat_ucast_u8)
  then show ?thesis by (simp add: take_bit_eq_mod)
qed

lemma tail_label:
  "(if b < 128 then 0 else 1 :: nat) \<le> length p \<Longrightarrow>
    \<exists>v. (if drop_bit 7 (ucast (b :: u8) :: u32) = 0 then Some (n, 0, p)
      else (case p of v # q \<Rightarrow> Some (n, ucast v, q) | [] \<Rightarrow> None)) =
      Some (n :: u32, v :: u32, drop (if b < 128 then 0 else 1) p)"
proof -
  assume a: "(if b < 128 then 0 else 1 :: nat) \<le> length p"
  have "drop_bit 7 (ucast b :: u32) = 0 \<longleftrightarrow> b < 128"
    using u8_bound [of b] by (simp add: word_unat_eq_iff unat_drop word_less_nat_alt div_eq_0_iff)
  then show ?thesis using a by (cases p) auto
qed

interpretation script_runs: run_decoder script_entry script_extent
proof
  fix p q :: "u8 list" and k len
  assume e: "script_extent p = Some (k, len)"
  then show "script_extent (p @ q) = Some (k, len)"
    by (cases p) (auto simp: Let_def split: if_splits list.splits)
  obtain b p0 where p: "p = b # p0" using e by (cases p) auto
  let ?t = "if b < 128 then 0 else 1 :: nat"
  have cls: "((ucast b :: u32) AND 0x7f) < 96 \<longleftrightarrow> unat b mod 128 < 96" "((ucast b :: u32) AND 0x7f) < 112 \<longleftrightarrow> unat b mod 128 < 112"
    by (simp_all add: word_less_nat_alt low_bits_7)
  consider (one) "unat b mod 128 < 96" "?t \<le> length p0" "k = unat b mod 128 + 1" "len = 1 + ?t"
    | (two) x p1 where "96 \<le> unat b mod 128" "unat b mod 128 < 112" "p0 = x # p1" "?t \<le> length p1"
        "k = (unat b mod 128 - 96) * 256 + unat x + 97" "len = 2 + ?t"
    | (three) x y p2 where "112 \<le> unat b mod 128" "p0 = x # y # p2" "?t \<le> length p2"
        "k = (unat b mod 128 - 112) * 65536 + unat x * 256 + unat y + 4193" "len = 3 + ?t"
    using e unfolding p by (auto simp: Let_def not_less split: if_splits list.splits)
  then show "\<exists>n v. script_entry p = Some (n, v, drop len p) \<and> unat n + 1 = k \<and> 0 < len \<and> len \<le> length p"
  proof cases
    case one
    obtain v where "script_entry p = Some (ucast b AND 0x7f, v, drop len p)"
      using tail_label [OF one(2), of "ucast b AND 0x7f"] one(1,4) by (auto simp: p Let_def cls)
    then show ?thesis using one p low_bits_7 by simp
  next
    case (two x p1)
    let ?n0 = "(ucast b :: u32) AND 0x7f"
    have s: "unat (?n0 - 96) = unat b mod 128 - 96" using two(1) by (simp add: unat_sub word_le_nat_alt low_bits_7)
    have "unat (push_bit 8 (?n0 - 96) OR ucast x :: u32) = (unat b mod 128 - 96) * 256 + unat x"
      using unat_shifted_or [of "ucast x" 8 "?n0 - 96"] u8_bound [of x] s two(2) by simp
    then have n: "unat ((push_bit 8 (?n0 - 96) OR ucast x :: u32) + 96) + 1 = k"
      using u8_bound [of x] two(2,5) by (simp add: unat_word_ariths)
    obtain v where "script_entry p = Some ((push_bit 8 (?n0 - 96) OR ucast x) + 96, v, drop len p)"
      using tail_label [OF two(4), of "(push_bit 8 (?n0 - 96) OR ucast x) + 96"] two(1-3,6) by (auto simp: p Let_def cls)
    then show ?thesis using two(3,4,6) n p by simp
  next
    case (three x y p2)
    let ?n0 = "(ucast b :: u32) AND 0x7f"
    have s: "unat (?n0 - 112) = unat b mod 128 - 112" using three(1) by (simp add: unat_sub word_le_nat_alt low_bits_7)
    have lt: "unat b mod 128 < 128" by simp
    have lo: "unat (push_bit 8 (ucast x) OR ucast y :: u32) = unat x * 256 + unat y"
      using unat_shifted_or [of "ucast y" 8 "ucast x"] u8_bound [of x] u8_bound [of y] by simp
    have "unat (push_bit 16 (?n0 - 112) OR (push_bit 8 (ucast x) OR ucast y) :: u32) =
        (unat b mod 128 - 112) * 65536 + (unat x * 256 + unat y)"
      using unat_shifted_or [of "push_bit 8 (ucast x) OR ucast y" 16 "?n0 - 112"] u8_bound [of x] u8_bound [of y] s lt
      unfolding lo by simp
    then have n: "unat ((push_bit 16 (?n0 - 112) OR push_bit 8 (ucast x) OR ucast y :: u32) + 4192) + 1 = k"
      using u8_bound [of x] u8_bound [of y] lt three(4) by (simp add: unat_word_ariths or.assoc)
    obtain v where "script_entry p = Some ((push_bit 16 (?n0 - 112) OR push_bit 8 (ucast x) OR ucast y) + 4192, v, drop len p)"
      using tail_label [OF three(3), of "(push_bit 16 (?n0 - 112) OR push_bit 8 (ucast x) OR ucast y) + 4192"]
        three(1,2,5) by (cases "b < 128") (auto simp: p Let_def cls)
    then show ?thesis using three(2,3,5) n p by simp
  qed
qed

text \<open>The entries of the extensions: the length of a run, and the scripts in a list with its length.\<close>

definition listed :: "nat \<Rightarrow> nat \<Rightarrow> u8 list \<Rightarrow> (nat \<times> nat) option" where
  "listed k len p = (case p of
       [] \<Rightarrow> None
     | v_len # p1 \<Rightarrow> if unat v_len \<le> length p1 then Some (k, len + 1 + unat v_len) else None)"

fun ext_extent :: "u8 list \<Rightarrow> (nat \<times> nat) option" where
  "ext_extent (b # p) =
     (if b < 128 then listed (unat b + 1) 1 p
      else (case p of
          [] \<Rightarrow> None
        | x # p1 \<Rightarrow>
            if b < 192 then listed ((unat b - 128) * 256 + unat x + 129) 2 p1
            else (case p1 of
                [] \<Rightarrow> None
              | y # p2 \<Rightarrow> listed ((unat b - 192) * 65536 + unat x * 256 + unat y + 16513) 3 p2)))"
| "ext_extent [] = None"

lemma listed_SomeE:
  assumes "listed k0 len0 p = Some (k, len)"
  obtains v_len p1 where "p = v_len # p1" "unat v_len \<le> length p1" "k = k0" "len = len0 + 1 + unat v_len"
  using assms by (auto simp: listed_def split: list.splits if_splits)

lemma listed_append: "listed k0 len0 p = Some (k, len) \<Longrightarrow> listed k0 len0 (p @ q) = Some (k, len)"
  by (auto simp: listed_def split: list.splits if_splits)

interpretation ext_runs: run_decoder ext_entry ext_extent
proof
  fix p q :: "u8 list" and k len
  assume e: "ext_extent p = Some (k, len)"
  then show "ext_extent (p @ q) = Some (k, len)"
    by (cases p rule: ext_extent.cases) (simp_all add: listed_append split: if_split_asm list.split_asm)
  obtain b p0 where p: "p = b # p0" using e by (cases p) auto
  let ?B = "ucast b :: u32"
  have cls: "?B < 128 \<longleftrightarrow> b < 128" "?B < 192 \<longleftrightarrow> b < 192" by (simp_all add: word_less_nat_alt)
  consider (one) v_len p1 where "b < 128" "p0 = v_len # p1" "unat v_len \<le> length p1" "k = unat b + 1" "len = 2 + unat v_len"
    | (two) x v_len p1 where "\<not> b < 128" "b < 192" "p0 = x # v_len # p1" "unat v_len \<le> length p1"
        "k = (unat b - 128) * 256 + unat x + 129" "len = 3 + unat v_len"
    | (three) x y v_len p1 where "\<not> b < 128" "\<not> b < 192" "p0 = x # y # v_len # p1" "unat v_len \<le> length p1"
        "k = (unat b - 192) * 65536 + unat x * 256 + unat y + 16513" "len = 4 + unat v_len"
    using e unfolding p by (auto elim!: listed_SomeE split: if_splits list.splits)
  then show "\<exists>n v. ext_entry p = Some (n, v, drop len p) \<and> unat n + 1 = k \<and> 0 < len \<and> len \<le> length p"
  proof cases
    case one
    then show ?thesis by (simp add: p Let_def cls)
  next
    case two
    have s: "unat (?B - 128) = unat b - 128" using two(1) by (simp add: unat_sub word_le_nat_alt word_less_nat_alt)
    have "unat (push_bit 8 (?B - 128) OR ucast x :: u32) = (unat b - 128) * 256 + unat x"
      using unat_shifted_or [of "ucast x" 8 "?B - 128"] u8_bound [of x] u8_bound [of b] s by simp
    then have n: "unat ((push_bit 8 (?B - 128) OR ucast x :: u32) + 128) + 1 = k"
      using u8_bound [of x] u8_bound [of b] two(5) by (simp add: unat_word_ariths)
    have "len = Suc (Suc (Suc (unat v_len)))" using two(6) by simp
    then show ?thesis using two(1-5) n by (simp add: p Let_def cls)
  next
    case three
    have s: "unat (?B - 128 - 64) = unat b - 192" using three(2) by (simp add: unat_sub word_le_nat_alt word_less_nat_alt)
    have lo: "unat (push_bit 8 (ucast x) OR ucast y :: u32) = unat x * 256 + unat y"
      using unat_shifted_or [of "ucast y" 8 "ucast x"] u8_bound [of x] u8_bound [of y] by simp
    have "unat (push_bit 16 (?B - 128 - 64) OR (push_bit 8 (ucast x) OR ucast y) :: u32) =
        (unat b - 192) * 65536 + (unat x * 256 + unat y)"
      using unat_shifted_or [of "push_bit 8 (ucast x) OR ucast y" 16 "?B - 128 - 64"] u8_bound [of x] u8_bound [of y] s u8_bound [of b]
      unfolding lo by simp
    then have n: "unat ((push_bit 16 (?B - 128 - 64) OR push_bit 8 (ucast x) OR ucast y :: u32) + (128 + push_bit 14 1)) + 1 = k"
      using u8_bound [of x] u8_bound [of y] u8_bound [of b] three(5) by (simp add: unat_word_ariths or.assoc)
    have "len = Suc (Suc (Suc (Suc (unat v_len))))" using three(6) by simp
    then show ?thesis using three(1-5) n by (simp add: p Let_def cls)
  qed
qed

section \<open>The tables of scripts\<close>

lemma script_skim_1: "skim script_extent 0 0 unicode_script_table_1 = Some 1542"
  by (simp add: unicode_script_table_1_def)

lemma script_skim_2: "skim script_extent 0 1542 unicode_script_table_2 = Some 2492"
  by (simp add: unicode_script_table_2_def)

lemma script_skim_3: "skim script_extent 0 2492 unicode_script_table_3 = Some 2816"
  by (simp add: unicode_script_table_3_def)

lemma script_skim_4: "skim script_extent 0 2816 unicode_script_table_4 = Some 3150"
  by (simp add: unicode_script_table_4_def)

lemma script_skim_5: "skim script_extent 0 3150 unicode_script_table_5 = Some 3573"
  by (simp add: unicode_script_table_5_def)

lemma script_skim_6: "skim script_extent 0 3573 unicode_script_table_6 = Some 4790"
  by (simp add: unicode_script_table_6_def)

lemma script_skim_7: "skim script_extent 0 4790 unicode_script_table_7 = Some 6460"
  by (simp add: unicode_script_table_7_def)

lemma script_skim_8: "skim script_extent 0 6460 unicode_script_table_8 = Some 7467"
  by (simp add: unicode_script_table_8_def)

lemma script_skim_9: "skim script_extent 0 7467 unicode_script_table_9 = Some 8492"
  by (simp add: unicode_script_table_9_def)

lemma script_skim_10: "skim script_extent 0 8492 unicode_script_table_10 = Some 12246"
  by (simp add: unicode_script_table_10_def)

lemma script_skim_11: "skim script_extent 0 12246 unicode_script_table_11 = Some 42888"
  by (simp add: unicode_script_table_11_def)

lemma script_skim_12: "skim script_extent 0 42888 unicode_script_table_12 = Some 44026"
  by (simp add: unicode_script_table_12_def)

lemma script_skim_13: "skim script_extent 0 44026 unicode_script_table_13 = Some 65440"
  by (simp add: unicode_script_table_13_def)

lemma script_skim_14: "skim script_extent 0 65440 unicode_script_table_14 = Some 66730"
  by (simp add: unicode_script_table_14_def)

lemma script_skim_15: "skim script_extent 0 66730 unicode_script_table_15 = Some 68185"
  by (simp add: unicode_script_table_15_def)

lemma script_skim_16: "skim script_extent 0 68185 unicode_script_table_16 = Some 70113"
  by (simp add: unicode_script_table_16_def)

lemma script_skim_17: "skim script_extent 0 70113 unicode_script_table_17 = Some 71370"
  by (simp add: unicode_script_table_17_def)

lemma script_skim_18: "skim script_extent 0 71370 unicode_script_table_18 = Some 73065"
  by (simp add: unicode_script_table_18_def)

lemma script_skim_19: "skim script_extent 0 73065 unicode_script_table_19 = Some 94180"
  by (simp add: unicode_script_table_19_def)

lemma script_skim_20: "skim script_extent 0 94180 unicode_script_table_20 = Some 119971"
  by (simp add: unicode_script_table_20_def)

lemma script_skim_21: "skim script_extent 0 119971 unicode_script_table_21 = Some 125264"
  by (simp add: unicode_script_table_21_def)

lemma script_skim_22: "skim script_extent 0 125264 unicode_script_table_22 = Some 126635"
  by (simp add: unicode_script_table_22_def)

lemma script_skim_23: "skim script_extent 0 126635 unicode_script_table_23 = Some 129671"
  by (simp add: unicode_script_table_23_def)

lemma script_skim_24: "skim script_extent 0 129671 unicode_script_table_24 = Some 918000"
  by (simp add: unicode_script_table_24_def)

lemma script_ext_skim_1: "skim ext_extent 0 0 unicode_script_ext_table_1 = Some 2386"
  by (simp add: unicode_script_ext_table_1_def listed_def)

lemma script_ext_skim_2: "skim ext_extent 0 2386 unicode_script_ext_table_2 = Some 4347"
  by (simp add: unicode_script_ext_table_2_def listed_def)

lemma script_ext_skim_3: "skim ext_extent 0 4347 unicode_script_ext_table_3 = Some 7406"
  by (simp add: unicode_script_ext_table_3_def listed_def)

lemma script_ext_skim_4: "skim ext_extent 0 7406 unicode_script_ext_table_4 = Some 12308"
  by (simp add: unicode_script_ext_table_4_def listed_def)

lemma script_ext_skim_5: "skim ext_extent 0 12308 unicode_script_ext_table_5 = Some 13056"
  by (simp add: unicode_script_ext_table_5_def listed_def)

lemma script_ext_skim_6: "skim ext_extent 0 13056 unicode_script_ext_table_6 = Some 65011"
  by (simp add: unicode_script_ext_table_6_def listed_def)

lemma script_ext_skim_7: "skim ext_extent 0 65011 unicode_script_ext_table_7 = Some 119666"
  by (simp add: unicode_script_ext_table_7_def listed_def)

lemma script_ext_skim_8: "skim ext_extent 0 119666 unicode_script_ext_table_8 = Some 1114112"
  by (simp add: unicode_script_ext_table_8_def listed_def)

fun run_list :: "(u8 list \<Rightarrow> (u32 \<times> 'v \<times> u8 list) option) \<Rightarrow> nat \<Rightarrow> u8 list \<Rightarrow> (u32 \<times> 'v) list" where
  "run_list entry 0 p = []"
| "run_list entry (Suc k) p = (if p = [] then [] else (case entry p of
       None \<Rightarrow> []
     | Some (n, v, q) \<Rightarrow> (n, v) # run_list entry k q))"

lemma run_list_decodes: "decodes entry p rs \<Longrightarrow> length rs \<le> k \<Longrightarrow> run_list entry k p = rs"
proof (induction rs arbitrary: p k)
  case Nil
  then show ?case by (cases k) auto
next
  case (Cons r rs)
  then show ?case by (cases r; cases k) auto
qed

lemma decodes_length:
  assumes "\<And>p n v q. entry p = Some (n, v, q) \<Longrightarrow> length q < length p"
  shows "decodes entry p rs \<Longrightarrow> length rs \<le> length p"
proof (induction rs arbitrary: p)
  case (Cons r rs)
  then show ?case using assms by (cases r) (force dest: assms)
qed simp

lemma script_table_skim: "skim script_extent 0 0 unicode_script_table = Some 0xe01f0"
  unfolding unicode_script_table_def
  by (simp only: append_assoc script_runs.skim_append [OF script_skim_1] script_runs.skim_append [OF script_skim_2]
    script_runs.skim_append [OF script_skim_3] script_runs.skim_append [OF script_skim_4]
    script_runs.skim_append [OF script_skim_5] script_runs.skim_append [OF script_skim_6]
    script_runs.skim_append [OF script_skim_7] script_runs.skim_append [OF script_skim_8]
    script_runs.skim_append [OF script_skim_9] script_runs.skim_append [OF script_skim_10]
    script_runs.skim_append [OF script_skim_11] script_runs.skim_append [OF script_skim_12]
    script_runs.skim_append [OF script_skim_13] script_runs.skim_append [OF script_skim_14]
    script_runs.skim_append [OF script_skim_15] script_runs.skim_append [OF script_skim_16]
    script_runs.skim_append [OF script_skim_17] script_runs.skim_append [OF script_skim_18]
    script_runs.skim_append [OF script_skim_19] script_runs.skim_append [OF script_skim_20]
    script_runs.skim_append [OF script_skim_21] script_runs.skim_append [OF script_skim_22]
    script_runs.skim_append [OF script_skim_23] script_skim_24)

lemma ext_table_skim: "skim ext_extent 0 0 unicode_script_ext_table = Some 0x110000"
  unfolding unicode_script_ext_table_def
  by (simp only: append_assoc ext_runs.skim_append [OF script_ext_skim_1] ext_runs.skim_append [OF script_ext_skim_2]
    ext_runs.skim_append [OF script_ext_skim_3] ext_runs.skim_append [OF script_ext_skim_4]
    ext_runs.skim_append [OF script_ext_skim_5] ext_runs.skim_append [OF script_ext_skim_6]
    ext_runs.skim_append [OF script_ext_skim_7] script_ext_skim_8)

text \<open>The script of a character and the scripts listed for it in the extensions.\<close>

definition script_table_runs :: "(u32 \<times> u32) list" where
  "script_table_runs = run_list script_entry (length unicode_script_table) unicode_script_table"

definition ext_table_runs :: "(u32 \<times> u8 list) list" where
  "ext_table_runs = run_list ext_entry (length unicode_script_ext_table) unicode_script_ext_table"

definition script_of :: "u32 \<Rightarrow> u32 option" where
  "script_of c = label_of 0 script_table_runs c"

definition scripts_listed :: "u32 \<Rightarrow> u8 list" where
  "scripts_listed c = (case label_of 0 ext_table_runs c of Some vs \<Rightarrow> vs | None \<Rightarrow> [])"

lemma script_table_facts:
  "decodes script_entry unicode_script_table script_table_runs" "runs_end 0xe01f0 0 script_table_runs"
proof -
  obtain rs where "decodes script_entry unicode_script_table rs" "runs_end 0xe01f0 0 rs"
    using script_runs.skim_decodes [OF script_table_skim] by auto
  moreover from this(1) have "script_table_runs = rs"
    unfolding script_table_runs_def by (intro run_list_decodes decodes_length) (auto dest: script_entry_shorter)
  ultimately show "decodes script_entry unicode_script_table script_table_runs" "runs_end 0xe01f0 0 script_table_runs"
    by simp_all
qed

lemma ext_table_facts:
  "decodes ext_entry unicode_script_ext_table ext_table_runs" "runs_end 0x110000 0 ext_table_runs"
proof -
  obtain rs where "decodes ext_entry unicode_script_ext_table rs" "runs_end 0x110000 0 rs"
    using ext_runs.skim_decodes [OF ext_table_skim] by auto
  moreover from this(1) have "ext_table_runs = rs"
    unfolding ext_table_runs_def by (intro run_list_decodes decodes_length) (auto dest: ext_entry_shorter)
  ultimately show "decodes ext_entry unicode_script_ext_table ext_table_runs" "runs_end 0x110000 0 ext_table_runs"
    by simp_all
qed

section \<open>The loops\<close>

definition ext_chosen :: "int \<Rightarrow> bool \<Rightarrow> u8 list \<Rightarrow> bool" where
  "ext_chosen i common vs \<longleftrightarrow> (if common then vs \<noteq> [] else list_ex (\<lambda>v. uint v = i) vs)"

lemma script_loop_adds:
  "decodes script_entry p rs \<Longrightarrow> script_loop cr p c i = add_all cr (labelled_ivs (\<lambda>v. uint v = i) c rs)"
proof (induction rs arbitrary: cr p c)
  case (Cons r rs)
  obtain n v where r: "r = (n, v)" by (cases r)
  obtain q where e: "p \<noteq> []" "script_entry p = Some (n, v, q)" "decodes script_entry q rs" using Cons.prems r by auto
  show ?case using e(1,2) Cons.IH [OF e(3)] unfolding r
    by (subst script_loop.simps) (simp add: Let_def add_when_all add_all_append del: add_all.simps)
qed (simp add: script_loop.simps)

lemma ext_loop_adds:
  "decodes ext_entry p rs \<Longrightarrow> ext_loop cr p c i common = add_all cr
    (labelled_ivs (ext_chosen i common) c rs)"
proof (induction rs arbitrary: cr p c)
  case (Cons r rs)
  obtain n v where r: "r = (n, v)" by (cases r)
  obtain q where e: "p \<noteq> []" "ext_entry p = Some (n, v, q)" "decodes ext_entry q rs" using Cons.prems r by auto
  show ?case using e(1,2) Cons.IH [OF e(3)] unfolding r
    by (subst ext_loop.simps) (simp add: Let_def ext_chosen_def [symmetric] add_when_all add_all_append del: add_all.simps)
qed (simp add: ext_loop.simps)

lemma labelled_source:
  "runs_end fin 0 rs \<Longrightarrow> fin \<le> 0x110000 \<Longrightarrow>
    sorted (iv_points (labelled_ivs P 0 rs)) \<and> length (labelled_ivs P 0 rs) \<le> 2 ^ 21 \<and>
    (\<forall>x. in_ivs (labelled_ivs P 0 rs) x \<longleftrightarrow> (\<exists>v. label_of 0 rs x = Some v \<and> P v))"
  using labelled_ivs_props [of fin 0 rs P] ivs_between_source [of "labelled_ivs P 0 rs" "word_of_nat fin"]
  by (simp add: word_le_nat_alt unat_of_nat)

interpretation scripts: range_source "\<lambda>cr. script_loop cr unicode_script_table 0 i"
  "labelled_ivs (\<lambda>v. uint v = i) 0 script_table_runs" for i
  by unfold_locales (use labelled_source [OF script_table_facts(2)] script_loop_adds [OF script_table_facts(1)] in auto)

interpretation extensions: range_source "\<lambda>cr. ext_loop cr unicode_script_ext_table 0 i common"
  "labelled_ivs (ext_chosen i common) 0 ext_table_runs" for i common
  by unfold_locales (use labelled_source [OF ext_table_facts(2)] ext_loop_adds [OF ext_table_facts(1)] in auto)

section \<open>Scripts by name\<close>

definition script_chars :: "int \<Rightarrow> bool \<Rightarrow> u32 \<Rightarrow> bool" where
  "script_chars i is_ext c =
     (let main = (case script_of c of Some v \<Rightarrow> uint v = i | None \<Rightarrow> False) in
      if \<not> is_ext then main
      else if i = int UNICODE_SCRIPT_Common \<or> i = int UNICODE_SCRIPT_Inherited then main \<and> scripts_listed c = []
      else main \<or> list_ex (\<lambda>v. uint v = i) (scripts_listed c))"

text \<open>The outcome: a range of exactly these characters; and the label \<^verbatim>\<open>fail\<close>, for the two temporary
  ranges as they are there, only if the allocation function can fail.\<close>

definition returns :: "bool \<Rightarrow> 'h points_realloc \<Rightarrow> 'h script_end option \<Rightarrow> (u32 \<Rightarrow> bool) \<Rightarrow> bool" where
  "returns is_ext f out P \<longleftrightarrow>
     (\<exists>cr. out = Some (Script_end cr 0) \<and> cr_ok cr \<and> sorted (points_of cr) \<and> even (length (points_of cr)) \<and>
       (\<forall>c. c \<noteq> 0xffffffff \<longrightarrow> cr_mem (points_of cr) c = P c)) \<or>
     (\<exists>cr1 cr2. out = script_fail is_ext False cr1 cr2) \<and> \<not> grants f"

lemma returns_fails: "\<not> grants f \<Longrightarrow> returns is_ext f (script_fail is_ext False cr1 cr2) P"
  unfolding returns_def by blast

lemma in_script_ivs:
  "in_ivs (labelled_ivs (\<lambda>v. uint v = i) 0 script_table_runs) c = script_chars i False c"
  using labelled_source [OF script_table_facts(2), of "\<lambda>v. uint v = i"]
  by (auto simp: script_chars_def script_of_def split: option.splits)

lemma in_ext_ivs:
  "in_ivs (labelled_ivs (ext_chosen i common) 0 ext_table_runs) c =
    (if common then scripts_listed c \<noteq> [] else list_ex (\<lambda>v. uint v = i) (scripts_listed c))"
  using labelled_source [OF ext_table_facts(2), of "ext_chosen i common"]
  by (auto simp: scripts_listed_def ext_chosen_def split: option.splits)

lemma script_loop_returns:
  assumes "cr_ok cr" and "points_of cr = []"
  shows "returns False (cr_realloc_func cr) (do { (cr1, r) \<leftarrow> script_loop cr unicode_script_table 0 i;
    if r \<noteq> 0 then script_fail False False cr1 cr1 else Some (Script_end cr1 0) }) (script_chars i False)"
proof -
  obtain cr1 r where l: "script_loop cr unicode_script_table 0 i = Some (cr1, r)" "cr_ok cr1"
      "r = 0 \<and> sorted (points_of cr1) \<and> even (length (points_of cr1)) \<and> length (points_of cr1) \<le> 2 ^ 22 \<and>
       cr_realloc_func cr1 = cr_realloc_func cr \<and> (\<forall>c. cr_mem (points_of cr1) c = script_chars i False c) \<or>
     r = -1 \<and> \<not> grants (cr_realloc_func cr)"
    using scripts.fill_result [OF assms, of i] unfolding in_script_ivs by blast
  from l(3) show ?thesis
  proof
    assume "r = -1 \<and> \<not> grants (cr_realloc_func cr)"
    then show ?thesis using l(1) by (simp add: returns_fails)
  qed (use l(1,2) in \<open>auto simp: returns_def\<close>)
qed

text \<open>Two filled ranges combined into the result.\<close>

lemma cr_op_returns:
  assumes cr: "cr_ok cr" "points_of cr = []"
    and a: "cr_ok cr1" "sorted (points_of cr1)" "even (length (points_of cr1))" "length (points_of cr1) \<le> 2 ^ 23"
    and b: "cr_ok cr2" "sorted (points_of cr2)" "even (length (points_of cr2))" "length (points_of cr2) \<le> 2 ^ 23"
    and op: "\<And>x y. cr_is_in op1 x y = Some (g x y)" "g False False = False"
    and P: "\<And>c. c \<noteq> 0xffffffff \<Longrightarrow> P c = g (cr_mem (points_of cr1) c) (cr_mem (points_of cr2) c)"
    and fr: "\<And>cr3. cr_ok cr3 \<Longrightarrow> cr_ok (fin cr3) \<and> points_of (fin cr3) = points_of cr3"
    and f: "cr_realloc_func cr = f"
  shows "returns True f (do { x \<leftarrow> points_used (cr_points cr1) (cr_len cr1); y \<leftarrow> points_used (cr_points cr2) (cr_len cr2);
      (cr3, r) \<leftarrow> cr_op cr x (cr_len cr1) y (cr_len cr2) op1;
      if r \<noteq> 0 then script_fail True False (t1 cr3) cr2 else Some (Script_end (fin cr3) 0) }) P"
proof -
  have used: "points_used (cr_points cr1) (cr_len cr1) = Some (points_of cr1)" "points_used (cr_points cr2) (cr_len cr2) = Some (points_of cr2)"
    using a(1) b(1) by (simp_all add: points_used_of)
  have len: "cr_len cr1 = int (length (points_of cr1))" "cr_len cr2 = int (length (points_of cr2))"
    using length_points_of a(1) b(1) by metis+
  have srv: "served f (cr_op cr (points_of cr1) (int (length (points_of cr1))) (points_of cr2) (int (length (points_of cr2))) op1)"
    using cr_op_served [OF cr_ok_size [OF cr(1)]] unfolding f .
  have small: "length (points_of cr1) + length (points_of cr2) < 2 ^ 28" using a(4) b(4) by simp
  from cr_op_combines [OF cr a(2) b(2) a(3) b(3) small op] show ?thesis
  proof cases
    case (1 cr3)
    then have "sorted (points_of cr3)" "even (length (points_of cr3))" by (simp_all add: cr_wf_def strict_sorted_imp_sorted)
    then show ?thesis using used len 1 fr [OF 1(2)] P by (simp add: returns_def)
  next
    case (2 cr3)
    then have "\<not> grants f" using srv by (auto simp: served_def)
    then show ?thesis using used len 2 by (simp add: returns_fails)
  qed
qed

lemma using_state_ok [simp]: "cr_ok (using_state h cr) = cr_ok cr" "points_of (using_state h cr) = points_of cr"
    "cr_realloc_func (using_state h cr) = cr_realloc_func cr"
  by (simp_all add: using_state_def)

lemma script_with_extensions_returns:
  assumes cr: "cr_ok cr" "points_of cr = []"
  shows "returns True (cr_realloc_func cr) (script_with_extensions cr i) (script_chars i True)"
proof -
  define f where "f = cr_realloc_func cr"
  define common where "common \<longleftrightarrow> i = int UNICODE_SCRIPT_Common \<or> i = int UNICODE_SCRIPT_Inherited"
  have f: "lawful_points f" using cr by (simp add: cr_ok_def f_def)
  obtain cr1 r1 where l1: "script_loop (cr_init f (cr_opaque cr) (Some f)) unicode_script_table 0 i = Some (cr1, r1)" "cr_ok cr1"
      "r1 = 0 \<and> sorted (points_of cr1) \<and> even (length (points_of cr1)) \<and> length (points_of cr1) \<le> 2 ^ 22 \<and>
       (\<forall>c. cr_mem (points_of cr1) c = script_chars i False c) \<or> r1 = -1 \<and> \<not> grants f"
    using scripts.fill_result [OF conjunct1 [OF cr_init_some(1) [OF f]] conjunct2 [OF cr_init_some(1) [OF f]], of "cr_opaque cr" i]
    unfolding in_script_ivs cr_init_some(2) by blast
  define cr20 where "cr20 = using_state (cr_opaque cr1) (cr_init f (cr_opaque cr) (Some f))"
  have i2: "cr_ok cr20" "points_of cr20 = []" "cr_realloc_func cr20 = f"
    using cr_init_some [of f] f by (simp_all add: cr20_def)
  obtain cr2 r2 where l2: "ext_loop cr20 unicode_script_ext_table 0 i common = Some (cr2, r2)" "cr_ok cr2"
      "r2 = 0 \<and> sorted (points_of cr2) \<and> even (length (points_of cr2)) \<and> length (points_of cr2) \<le> 2 ^ 22 \<and>
       cr_realloc_func cr2 = f \<and> (\<forall>c. cr_mem (points_of cr2) c =
         (if common then scripts_listed c \<noteq> [] else list_ex (\<lambda>v. uint v = i) (scripts_listed c))) \<or> r2 = -1 \<and> \<not> grants f"
    using extensions.fill_result [OF i2(1,2), of i common] unfolding in_ext_ivs i2(3) by blast
  have step: "script_with_extensions cr i = (if r1 \<noteq> 0 then script_fail True False cr1 (cr_init f (cr_opaque cr) (Some f))
      else if r2 \<noteq> 0 then script_fail True False (using_state (cr_opaque cr2) cr1) cr2 else do {
      (cr2, r) \<leftarrow> (if common then cr_invert cr2 else Some (cr2, 0));
      if r \<noteq> 0 then script_fail True False (using_state (cr_opaque cr2) cr1) cr2 else do {
        a \<leftarrow> points_used (cr_points cr1) (cr_len cr1);
        b \<leftarrow> points_used (cr_points cr2) (cr_len cr2);
        (cr3, r) \<leftarrow> cr_op (using_state (cr_opaque cr2) cr) a (cr_len cr1) b (cr_len cr2)
          (if common then CR_OP_INTER else CR_OP_UNION);
        if r \<noteq> 0 then script_fail True False (using_state (cr_opaque cr3) cr1) cr2
        else Some (Script_end (using_state (cr_free (using_state (cr_free (using_state (cr_opaque cr3) cr1)) cr2)) cr3) 0)
      }
    })"
    using l1(1) l2(1)
    by (simp add: script_with_extensions_def Let_def f_def [symmetric] common_def [symmetric] cr20_def [symmetric]
        cong: if_cong)
  show ?thesis
  proof (cases "r1 = 0 \<and> r2 = 0")
    case False
    then have "\<not> grants f" using l1(3) l2(3) by auto
    then show ?thesis using False unfolding step f_def [symmetric] by (simp add: returns_fails)
  next
    case r: True
    have A: "sorted (points_of cr1)" "even (length (points_of cr1))" "length (points_of cr1) \<le> 2 ^ 23"
      using l1(3) r by auto
    note final = cr_op_returns [OF _ _ l1(2) A]
    show ?thesis
    proof (cases common)
      case False
      show ?thesis unfolding step f_def [symmetric] using r False l1(3) l2(2,3) cr
        by (simp, intro final [where g = "(\<or>)"])
          (auto simp: cr_is_in_simps f_def script_chars_def Let_def common_def)
    next
      case True
      have "cr_len cr2 + 2 \<le> 2 ^ 28" using length_points_of [OF l2(2)] l2(3) r by simp
      have srv: "served f (cr_invert cr2)" using cr_invert_served [OF cr_ok_size [OF l2(2)]] l2(3) r by simp
      have "sorted (points_of cr2)" "even (length (points_of cr2))" using l2(3) r by auto
      from cr_invert_complements [OF l2(2) this \<open>cr_len cr2 + 2 \<le> 2 ^ 28\<close>] show ?thesis
      proof cases
        case (1 cr3)
        have w: "sorted (points_of cr3)" "even (length (points_of cr3))" "length (points_of cr3) \<le> 2 ^ 23"
          using 1(3,5) l2(3) r by (auto simp: cr_wf_def strict_sorted_imp_sorted)
        show ?thesis unfolding step f_def [symmetric] using r True l1(3) l2(3) 1(1,4) cr
          by (simp, intro final [OF _ _ 1(2) w, where g = "(\<and>)"])
            (auto simp: cr_is_in_simps f_def script_chars_def Let_def common_def)
      next
        case (2 cr3)
        then have "\<not> grants f" using srv by (auto simp: served_def)
        then show ?thesis using step r True 2(1) by (simp add: returns_fails f_def [symmetric])
      qed
    qed
  qed
qed

lemma script_names_ok: "list_all (\<lambda>e. e \<noteq> [] \<and> NUL \<notin> set e) unicode_script_names"
  by (simp add: unicode_script_names_def)

definition script_number :: "string \<Rightarrow> int option" where
  "script_number name = (let i = alias_index (c_str name) unicode_script_names 0 in
     if i < 0 then None else Some (i + int UNICODE_SCRIPT_Unknown + 1))"

lemma unicode_script_by_name:
  assumes "cr_ok cr" and "points_of cr = []"
  shows "case script_number name of
      None \<Rightarrow> unicode_script cr name is_ext = Some (Script_end cr (-2))
    | Some i \<Rightarrow> returns is_ext (cr_realloc_func cr) (unicode_script cr name is_ext) (script_chars i is_ext)"
proof -
  have "unicode_find_name unicode_script_name_table name = Some (alias_index (c_str name) unicode_script_names 0)"
    unfolding unicode_script_name_table_def using script_names_ok
    by (intro unicode_find_name_table) (simp add: list_all_iff)
  then show ?thesis using script_loop_returns [OF assms] script_with_extensions_returns [OF assms]
    by (cases is_ext) (auto simp: unicode_script_def script_number_def Let_def)
qed

end
