(* ===== verification/Spec2Isabelle.thy ===== *)
theory Spec2Isabelle
  imports Kvm_Stubs Shared_Memory C_Examples Compress_Examples Lang_Bindings Python_Binding Js_App Crc32 Array_Swap Heap_Sort Rq_Sort Typed_Array_Sort Cutils Utf8 Dyn_Buf List_Head Js_Jobs Char_Range Case_Conv Unicode_Norm Index_Table Unicode_Scripts
begin

text \<open>
  \<^bold>\<open>The program.\<close> This repository holds example programs that run inside TinyKVM, a virtual machine
  per request in the Varnish cache: small guest programs in several languages, the C header they
  share (\<^verbatim>\<open>kvm_api.h\<close>, the guest's side of the hypercall interface), and the QuickJS engine that the
  JavaScript program is linked with. A guest registers callbacks, waits for requests, and answers
  each one; a second machine per tenant, the storage, runs calls that are serialised. The machines
  exchange bytes through hypercalls and through one shared memory area.

  \<^bold>\<open>How C becomes Isabelle.\<close> Integers keep their width (\<open>u8\<close> to \<open>u64\<close>) wherever a wrap-around or a
  comparison depends on it; a C \<^verbatim>\<open>int\<close> that is checked against overflow is an \<open>int\<close> with the check
  written out. A read or write outside an object, an \<^verbatim>\<open>assert\<close> that fails, an \<^verbatim>\<open>abort\<close> and a loop that
  does not end are \<^const>\<open>None\<close> (for guest programs: the outcome \<open>Fault\<close>); an error code of the source
  is a value. Loops are recursive functions, or \<^theory_text>\<open>partial_function (option)\<close> where termination is itself
  something to prove. Allocation functions, the hypercalls' answers, the compression libraries, the
  Python and JavaScript engines and the callbacks of guest languages are parameters, with laws that
  state their documented behaviour (an allocation function may fail at any time, and keeps the old
  contents when it does not).

  \<^bold>\<open>The theories.\<close>
  \<^item> \<open>Prelude\<close>: the integer types, checked array accesses, C strings, little-endian bytes.
  \<^item> \<open>Kvm_Stubs\<close>, \<open>Guest\<close>, \<open>Kvm_Api\<close>, \<open>Shared_Memory\<close>: \<^verbatim>\<open>kvm_api.h\<close>. The stubs and their numbers; a guest
    function as a function of the world it runs in with three outcomes (a value, the machine stopped,
    a fault) and the list of calls that reached the monitor; the inline functions for responses, header
    fields, storage calls, tasks, logging and fetching; the bump allocator of the shared area.
  \<^item> \<open>C_Examples\<close>, \<open>Compress_Examples\<close>: the programs under \<^verbatim>\<open>c/\<close>. The counter is also a step relation of
    any number of machines that share one word, with an invariant over all interleavings.
  \<^item> \<open>Lang_Bindings\<close>, \<open>Python_Binding\<close>, \<open>Js_App\<close>, \<open>Crc32\<close>: the C halves of the Nim, Deno, Go, Kotlin and Nelua
    bindings, \<^verbatim>\<open>python/python.c\<close>, and \<^verbatim>\<open>javascript/src\<close> with its checksum.
  \<^item> \<open>Array_Swap\<close>, \<open>Heap_Sort\<close>, \<open>Rq_Sort\<close>, \<open>Typed_Array_Sort\<close>: sorting in \<^verbatim>\<open>cutils.c\<close> (element exchange,
    \<^verbatim>\<open>heapsortx\<close>, \<^verbatim>\<open>rqsort\<close>) and the order that typed arrays are sorted by (\<^verbatim>\<open>quickjs.c\<close>).
  \<^item> \<open>Cutils\<close>, \<open>Utf8\<close>, \<open>Dyn_Buf\<close>, \<open>List_Head\<close>: the rest of \<^verbatim>\<open>cutils.c\<close> and \<^verbatim>\<open>cutils.h\<close> (bounded strings,
    unaligned accesses, byte order, UTF-8, the growing buffer) and the intrusive lists of \<^verbatim>\<open>list.h\<close> over
    an explicit store of nodes.
  \<^item> \<open>Js_Jobs\<close>: the queue of pending jobs (\<^verbatim>\<open>quickjs.c\<close>), which is such a list of records with reference
    counts, and the event loop that empties it (\<^verbatim>\<open>quickjs-libc.c\<close>).
  \<^item> \<open>Char_Range\<close>: the sets of characters of \<^verbatim>\<open>libunicode.c\<close> as sorted arrays of points, with every
    operation on them. \<open>Case_Conv\<close>, \<open>Unicode_Norm\<close>: case conversion and normalisation.
  \<^item> \<open>Unicode_Tables\<close>, \<open>Index_Table\<close>: the generated tables with an index and the lookups in them.
  \<^item> \<open>Unicode_Prop_Tables\<close>, \<open>Unicode_Prop\<close>: the other generated tables, and the functions that turn a
    property, a category or a script into a range. \<open>Unicode_Ranges\<close>, \<open>Unicode_Sets\<close>, \<open>Unicode_Stack\<close>,
    \<open>Unicode_Names\<close> and \<open>Unicode_Scripts\<close> prove what they compute; \<open>Case_Changes\<close> that the ranges of case
    changes are the characters that \<^verbatim>\<open>lre_case_conv\<close> changes.
  \<^bold>\<open>The interfaces.\<close> A locale states what one component relies on in another, and is interpreted on the
  model's own definitions: a consistent comparison (behind both sorts), a reply with a fallback (behind
  the handlers of the bindings), a sink of bytes (the buffer, for those that print into it), a queue of
  nodes (the lists, for the job queue), a sorted table of code ranges (case conversion), a table that
  agrees with its index (the four generated ones), a function that fills a range from a table (the
  categories, the properties, the case changes, the scripts), and a decoder of runs (the script tables).

  \<^bold>\<open>What the lemmas show.\<close> Every component has its invariant (blocks in the shared area, the buffer's size
  and contents, the circular list, the range of sorted points) and the lemma that each operation keeps
  it, failed allocations included; most have a specification they refine (bytes appended, a list of
  addresses, a queue, a set of characters, the bit-serial checksum, the canonical order). The properties
  below are the statements that a reader of the code would ask for, in the order of the components.
  Generated tables are copied as they stand, in pieces of about a hundred bytes that end where an entry
  ends, and one pass over each piece checks what the lookups need.

  \<^bold>\<open>Bounds.\<close> \<^verbatim>\<open>rqsort\<close> keeps a stack of 50 segments: enough for fewer than \<open>2 ^ 50\<close> elements, since the smaller
  part is always sorted first. Ranges have fewer than \<open>2 ^ 28\<close> points, so that no size computation
  overflows an \<^verbatim>\<open>int\<close>; there are \<open>0x110000\<close> characters. The stack of the property programs has four
  ranges, and each program is shown to need no more. Buffers stay below \<open>2 ^ 64\<close> bytes.

  \<^bold>\<open>Not modelled.\<close> The compiler, the interpreter and the class libraries of \<^verbatim>\<open>quickjs.c\<close> and
  \<^verbatim>\<open>quickjs-libc.c\<close>, and the regular expression engine: they are the engine behind the C API, vendored
  here, and parameters of the programs that use them. The big numbers of
  \<^verbatim>\<open>libbf.c\<close>. The generator of the
  tables and the conformance test driver, which are not part of the program. \<^verbatim>\<open>c/dns.c\<close>, which calls
  functions that the header of this commit does not declare. Programs in C++, Rust, Go, Nim, Zig,
  Kotlin and TypeScript: only their C halves are modelled. Console output, the start of the
  interpreters, and the text that \<^verbatim>\<open>printf\<close> formats, which is a parameter.
\<close>

section \<open>The platform API\<close>

text \<open>Hypercall numbers identify the call: two different stubs of the guest API carry
  different numbers, except for the two stubs that pause the machine.\<close>

theorem hypercall_numbers_identify_stubs:
  "eax (stub_code_of s) = eax (stub_code_of t) \<longleftrightarrow> s = t \<or> (pausing s \<and> pausing t)"
proof
  assume "eax (stub_code_of s) = eax (stub_code_of t)"
  then show "s = t \<or> (pausing s \<and> pausing t)"
    using request_numbers_inj storage_numbers_inj system_numbers_inj
      storage_number_not_request system_number_not_request system_number_not_storage
    by (cases s; cases t) (fastforce simp: eq_commute)+
qed (auto simp: pausing_def stub_simps)

text \<open>C1. The shared-memory allocator hands out blocks that lie in the shared area, are aligned as
  asked, and never overlap (each one ends before the next begins), as long as what is asked for
  does not carry the 64-bit bump pointer past its range.\<close>

theorem shm_blocks_disjoint:
  assumes "shm_ptr info \<noteq> 0" and "\<forall>(s, a) \<in> set rs. pow2 a"
    and "unat (shm_ptr info) + demand rs \<le> 2 ^ 64"
  shows "list_all (block_in (unat (shm_ptr info)) (unat (shm_end info)))
           (blocks rs (fst (shm_allocs area info rs)))
       \<and> sorted_wrt block_before (blocks rs (fst (shm_allocs area info rs)))"
  by (rule shm_allocs_blocks [OF assms])

theorem shm_blocks_disjoint_witness:
  "list_all (block_in 0x1000 0x1010) (blocks [(4, 4), (8, 8), (8, 8)]
     (fst (shm_allocs \<lparr>shm_ptr = 0x1000, shm_end = 0x1010\<rparr>
        \<lparr>shm_ptr = 0x1000, shm_end = 0x1010\<rparr> [(4, 4), (8, 8), (8, 8)])))
   \<and> sorted_wrt block_before (blocks [(4, 4), (8, 8), (8, 8)]
     (fst (shm_allocs \<lparr>shm_ptr = 0x1000, shm_end = 0x1010\<rparr>
        \<lparr>shm_ptr = 0x1000, shm_end = 0x1010\<rparr> [(4, 4), (8, 8), (8, 8)])))"
proof -
  have "pow2 4" "pow2 8"
    unfolding pow2_def by (rule exI [of _ 2], simp) (rule exI [of _ 3], simp)
  then show ?thesis
    using shm_blocks_disjoint [of "\<lparr>shm_ptr = 0x1000, shm_end = 0x1010\<rparr>" "[(4, 4), (8, 8), (8, 8)]"
        "\<lparr>shm_ptr = 0x1000, shm_end = 0x1010\<rparr>"] by simp
qed

text \<open>C2. When the first call asks the monitor for the area and the area can hold all that is
  asked for, alignment padding included, every request of a program is served.\<close>

theorem shm_all_served:
  assumes "shm_ptr info = 0" and "shm_ptr area \<noteq> 0" and "\<forall>(s, a) \<in> set (r # rs). pow2 a"
    and "unat (shm_ptr area) + demand (r # rs) \<le> unat (shm_end area)"
  shows "None \<notin> set (fst (shm_allocs area info (r # rs)))"
  unfolding shm_allocs_first [OF assms(1)] by (rule shm_allocs_all_served [OF assms(2-4)])

theorem shm_all_served_witness:
  "None \<notin> set (fst (shm_allocs \<lparr>shm_ptr = 0x1000, shm_end = 0x2000\<rparr>
     \<lparr>shm_ptr = 0, shm_end = 0\<rparr> [(4, 4), (100, 8)]))"
proof -
  have "pow2 4" "pow2 8"
    unfolding pow2_def by (rule exI [of _ 2], simp) (rule exI [of _ 3], simp)
  then show ?thesis
    using shm_all_served [of "\<lparr>shm_ptr = 0, shm_end = 0\<rparr>" "\<lparr>shm_ptr = 0x1000, shm_end = 0x2000\<rparr>"
        "(4, 4)" "[(100, 8)]"] by simp
qed

text \<open>C3. Logging never reads outside its buffer: a text that fits the buffer is logged whole, and
  one that does not, or that cannot be formatted, is replaced by the overflow notice.\<close>

theorem vlogf_logs:
  "vlogf stack out w = (Val (), w\<lparr>calls := calls w @ [HLog (case out of
     Some text \<Rightarrow> if length text < length stack then text else log_overflow
   | None \<Rightarrow> log_overflow)]\<rparr>)"
  by (cases stack; cases out) (auto simp: vlogf_def vsnprintf_def sys_log_def Let_def min_def)

text \<open>C4. Appending a formatted header field sends the whole text when it fits the 4096-byte
  buffer with its terminator. A text of exactly 4096 bytes loses its last byte to the terminator,
  and a longer one makes the call read past the buffer, because the length that
  \<^verbatim>\<open>vsnprintf\<close> returns is passed on unchecked.\<close>

theorem http_appendf_sends:
  assumes "length stack = HTTP_FMT_SIZE" and "length text < 2 ^ 31"
  shows "http_appendf h stack whr (Some text) w =
    (if length text < HTTP_FMT_SIZE then (Val (), w\<lparr>calls := calls w @ [HHttpAppend whr text]\<rparr>)
     else if length text = HTTP_FMT_SIZE then
       (Val (), w\<lparr>calls := calls w @ [HHttpAppend whr (butlast text @ [NUL])]\<rparr>)
     else (Fault, w))"
  by (rule http_appendf_run [OF assms])

theorem http_appendf_sends_witness:
  "\<forall>h w. fst (http_appendf h (replicate 4096 NUL) RESP (Some (replicate 5000 CHR ''x'')) w) = Fault"
proof (intro allI)
  fix h w
  show "fst (http_appendf h (replicate 4096 NUL) RESP (Some (replicate 5000 CHR ''x'')) w) = Fault"
    using http_appendf_sends [of "replicate 4096 NUL" "replicate 5000 CHR ''x''" h RESP w]
    by (simp add: HTTP_FMT_SIZE_def)
qed

text \<open>C5. Finding a header field gives a NUL-terminated copy of what the monitor wrote, when the
  monitor writes at most the buffer it is offered and returns how much it wrote, and when there
  is memory for the copy; when there is none, the result of \<^verbatim>\<open>malloc\<close> is written through all
  the same and the program faults.\<close>

theorem http_alloc_find_copies:
  assumes "lawful_malloc malloc" and "length stack = HTTP_FMT_SIZE"
    and "ans_find h (calls w) whr (c_str key) (Some HTTP_FMT_SIZE) = (bytes, length bytes)"
    and "length bytes \<le> HTTP_FMT_SIZE"
  shows "http_alloc_find h malloc stack whr key w =
    ((if malloc (length bytes + 1) = None then Fault else Val (bytes @ [NUL])),
     w\<lparr>calls := calls w @ [HHttpFind whr (c_str key) (Some HTTP_FMT_SIZE)]\<rparr>)"
  by (rule http_alloc_find_run [OF assms])

theorem http_alloc_find_copies_witness:
  "\<forall>h. fst (http_alloc_find (h\<lparr>ans_find := \<lambda>cs whr k n. (''Host: x'', 7)\<rparr>)
       (\<lambda>n. Some (replicate n (CHR ''?''))) (replicate 4096 NUL) REQ ''host''
       \<lparr>calls = [], vars = ()\<rparr>) = Val (''Host: x'' @ [NUL])
   \<and> fst (http_alloc_find (h\<lparr>ans_find := \<lambda>cs whr k n. (''Host: x'', 7)\<rparr>)
       (\<lambda>n. None) (replicate 4096 NUL) REQ ''host'' \<lparr>calls = [], vars = ()\<rparr>) = Fault"
  using http_alloc_find_copies [of "\<lambda>n. Some (replicate n (CHR ''?''))" "replicate 4096 NUL"
      "_\<lparr>ans_find := \<lambda>cs whr k n. (''Host: x'', 7)\<rparr>"
      "\<lparr>calls = [], vars = ()\<rparr>" REQ "''host''" "''Host: x''"]
    http_alloc_find_copies [of "\<lambda>n. None" "replicate 4096 NUL"
      "_\<lparr>ans_find := \<lambda>cs whr k n. (''Host: x'', 7)\<rparr>"
      "\<lparr>calls = [], vars = ()\<rparr>" REQ "''host''" "''Host: x''"]
  by (simp add: HTTP_FMT_SIZE_def lawful_malloc_def)

section \<open>The C programs\<close>

text \<open>C6. The shared counter loses no increment: however the machines interleave, its value is the
  number of requests counted, and each response shows a number between one and that, both as
  the 32-bit counter has them, modulo 2 to the 32.\<close>

theorem counter_loses_nothing:
  assumes "counter_reachable s" and "vms s i = Responded v"
  shows "finite (counted s) \<and> shared s = word_of_nat (card (counted s)) \<and>
    (\<exists>n. 1 \<le> n \<and> n \<le> card (counted s) \<and> v = word_of_nat n)"
  using counter_inv_reachable [OF assms(1)] assms(2) by (simp add: counter_inv_def)

theorem counter_loses_nothing_witness:
  "\<exists>s. counter_reachable s \<and> vms s 0 = Responded 2 \<and> shared s = word_of_nat (card (counted s))"
proof -
  let ?a = "\<lparr>shared = 1, vms = (\<lambda>_. Arrived)(0 := Added)\<rparr>"
  let ?b = "\<lparr>shared = 2, vms = (\<lambda>_. Arrived)(0 := Added, 1 := Added)\<rparr>"
  let ?c = "\<lparr>shared = 2, vms = (\<lambda>_. Arrived)(0 := Responded 2, 1 := Added)\<rparr>"
  have "counter_step counter_init ?a"
    using fetch_and_add [of counter_init 0] by (simp add: counter_init_def)
  moreover have "counter_step ?a ?b" using fetch_and_add [of ?a 1] by simp
  moreover have "counter_step ?b ?c" using respond [of ?b 0] by (simp add: fun_upd_twist)
  ultimately have "counter_reachable ?c" by (meson counter_reachable.intros)
  then show ?thesis using counter_loses_nothing [of ?c 0 2] by (intro exI [of _ ?c]) simp
qed

text \<open>A machine that runs the counter handler alone answers 200 with the incremented value in
  decimal, and leaves the incremented value behind: the 64-byte buffer always suffices.\<close>

theorem counter_handler_answers:
  assumes "length stack = 64"
  shows "responded (counter_on_get stack w) = Some (200, ''text/plain'', counter_text (vars w + 1))
    \<and> vars (snd (counter_on_get stack w)) = vars w + 1"
  by (rule counter_on_get_responds [OF assms])

theorem counter_handler_answers_witness:
  "responded (counter_on_get (replicate 64 NUL) \<lparr>calls = [], vars = 41\<rparr>)
     = Some (200, ''text/plain'', ''Hello 42 World!'')"
  using counter_handler_answers [of "replicate 64 NUL" "\<lparr>calls = [], vars = 41\<rparr>"]
  by (simp add: counter_text_def int_dec_def nat_dec.simps digit_char_def char_of_def bit_0)

text \<open>C7. The storage example's \<^verbatim>\<open>modify_content\<close> never returns normally: it writes its
  terminator one byte past the block it has allocated.\<close>

theorem storage_modify_overflows:
  assumes "lawful_malloc malloc"
  shows "fst (storage_modify_content malloc bufs res w) = Fault"
  by (rule modify_content_faults [OF assms])

theorem storage_modify_overflows_witness:
  "fst (storage_modify_content (\<lambda>n. Some (replicate n NUL)) [\<lparr>vb_data = Some ''abc'', vb_len = 3\<rparr>] 0
     \<lparr>calls = [], vars = \<lparr>cont = None, cont_len = 0\<rparr>\<rparr>) = Fault"
  by (rule storage_modify_overflows) (simp add: lawful_malloc_def)

text \<open>Streaming one byte at a time delivers the text, whatever piece size the monitor asks
  for.\<close>

theorem stream_delivers_text:
  assumes "1 \<le> m" and "length stream_data \<le> fuel"
  shows "deliver (stream_cb stream_data) m fuel 0 (length stream_data) = Some stream_data"
  using deliver_stream [OF assms(1), of 0 stream_data fuel] assms(2) by simp

theorem stream_delivers_text_witness:
  "deliver (stream_cb stream_data) 512 20 0 (length stream_data) = Some stream_data"
  using stream_delivers_text [of 512 20] by (simp add: stream_data_def)

text \<open>C8. A POST to the compressor is always answered: with 200 and what a finished deflate made of
  the content, or with 503. zlib counts in 32 bits, so what is compressed is the first
  \<^verbatim>\<open>content_length\<close> modulo 2 to the 32 bytes: the whole content below 4 GiB. The room offered is
  the size of a buffer of at least \<^verbatim>\<open>compressBound\<close> bytes, modulo 2 to the 32 too. The
  invariant is kept: a static buffer has the recorded size, and after a failed \<^verbatim>\<open>realloc\<close> there
  is none.\<close>

theorem zlib_post_answers:
  assumes "zlib_lawful z" and "zlib_inv (vars w)" and "n \<le> length content"
  shows "\<exists>st ct body. responded (zlib_on_post h z realloc_ok ctype content n w) = Some (st, ct, body)
    \<and> st \<in> {200, 503}
    \<and> (st = 200 \<longrightarrow> ct = c_str ctype \<and> (\<exists>room.
        (Z_STREAM_END, body) = deflate_ans z (take (n mod 2 ^ 32) content) (Some (room mod 2 ^ 32))
        \<and> compress_bound z n \<le> room))
    \<and> zlib_inv (vars (snd (zlib_on_post h z realloc_ok ctype content n w)))"
  by (rule zlib_on_post_responds [OF assms])

theorem zlib_post_answers_witness:
  "\<forall>h. \<exists>st ct body. responded (zlib_on_post h
      \<lparr>inflate_ans = \<lambda>i n. (-2, []), compress_bound = \<lambda>n. n + 13, deflate_init_ans = 0,
       deflate_ans = \<lambda>i r. case r of None \<Rightarrow> (-2, []) | Some n \<Rightarrow> (1, take n ''zz'')\<rparr>
      True ''a/b'' ''data'' 4
      \<lparr>calls = [], vars = \<lparr>compression_buffer = Some 8, compression_buffer_size = 8\<rparr>\<rparr>)
    = Some (st, ct, body) \<and> st \<in> {200, 503}"
  apply (rule allI)
  subgoal for h
  using zlib_post_answers [of "\<lparr>inflate_ans = \<lambda>i n. (-2, []), compress_bound = \<lambda>n. n + 13,
       deflate_init_ans = 0,
       deflate_ans = \<lambda>i r. case r of None \<Rightarrow> (-2, []) | Some n \<Rightarrow> (1, take n ''zz'')\<rparr>"
      "\<lparr>calls = [], vars = \<lparr>compression_buffer = Some 8, compression_buffer_size = 8\<rparr>\<rparr>" 4 "''data''"
      h True "''a/b''"]
  by (fastforce simp: zlib_lawful_def zlib_inv_def Z_STREAM_ERROR_def)
  done

section \<open>The language bindings\<close>

text \<open>C9. The Nim binding answers every GET: when the registered callback (if there is one)
  neither faults nor stops the machine without a response, the request gets the callback's
  response, or 404 when the callback gave none.\<close>

theorem nim_get_answers:
  assumes "\<And>f. request_handler (vars w) = Some f \<Longrightarrow> fst (tramp f url arg w) \<noteq> Fault"
    and "\<And>f. request_handler (vars w) = Some f \<Longrightarrow> answers (tramp f url arg)"
  shows "responded (nim_get tramp url arg w) = (case request_handler (vars w) of
      Some f \<Rightarrow> (if fst (tramp f url arg w) = Stop then responded (tramp f url arg w)
                else Some (404, ''text/plain'', ''No response''))
    | None \<Rightarrow> Some (404, ''text/plain'', ''No response''))
    \<and> responded (nim_get tramp url arg w) \<noteq> None"
  by (rule nim_get_responds) (fact assms)+

theorem nim_get_answers_witness:
  "responded (nim_get (\<lambda>f url arg. if f = 7 then backend_response_str 200 ''t'' url else ret ())
     ''/a'' [] \<lparr>calls = [], vars = \<lparr>request_handler = Some 7, post_handler = None, error_handler = None\<rparr>\<rparr>)
   = Some (200, ''t'', ''/a'')"
  using nim_get_answers [of
      "\<lparr>calls = [], vars = \<lparr>request_handler = Some 7, post_handler = None, error_handler = None\<rparr>\<rparr>"
      "\<lambda>f url arg. if f = 7 then backend_response_str 200 ''t'' url else ret ()" "''/a''" "[]"]
  by (simp add: answers_def responded_def int16_of_id)

text \<open>C10. A Nim storage call arrives: the pointers that the request machine packs into buffers are
  the pointers the storage machine calls, with the input bytes.\<close>

theorem nim_storage_arrives:
  assumes "len \<le> length input" and "0 < res"
  shows "\<exists>bufs. calls (snd (nim_storage h callback tramp input len res w))
        = calls w @ [HStorageCall ''storage_trampoline'' bufs res]
    \<and> nim_storage_trampoline run (length bufs) bufs res
        = andthen (run tramp callback (take len input)) storage_return_nothing"
  using assms
  by (intro exI [of _ "[ptr_bytes tramp, ptr_bytes callback, take len input]"])
    (simp add: nim_storage_def storage_callv_def nim_storage_trampoline_def)

theorem nim_storage_arrives_witness:
  "\<forall>h run. \<exists>bufs. calls (snd (nim_storage h 0x401000 0x402000 ''abcd'' 3 16 \<lparr>calls = [], vars = ()\<rparr>))
        = [HStorageCall ''storage_trampoline'' bufs 16]
    \<and> nim_storage_trampoline run (length bufs) bufs 16
        = andthen (run 0x402000 0x401000 ''abc'') storage_return_nothing"
  apply (intro allI)
  subgoal for h run
    using nim_storage_arrives [of 3 "''abcd''" 16 h "0x401000" "0x402000"
        "\<lparr>calls = [], vars = ()\<rparr>" run] by simp
  done

text \<open>C11. Deno's header lookup returns the first field of the request whose name, up to case, is a
  prefix of the name asked for, and \<^verbatim>\<open>NULL\<close> when there is none; it never reads past the
  header array.\<close>

theorem vd_request_header_finds:
  assumes "rq_num_headers req \<le> length (rq_headers req)"
  shows "vd_request_header req header = Some (map_option (\<lambda>hdr. c_str (rh_field hdr))
    (find (\<lambda>hdr. names_prefix hdr header) (take (rq_num_headers req) (rq_headers req))))"
  using vd_header_loop_find [OF assms, of header 0] by (simp add: vd_request_header_def)

theorem vd_request_header_finds_witness:
  "vd_request_header \<lparr>rq_method = ''GET'', rq_url = [], rq_arg = [], rq_content_type = [],
     rq_content = None, rq_content_len = 0,
     rq_headers = [\<lparr>rh_field = ''A: 1'', rh_field_colon = 1, rh_field_len = 4\<rparr>,
                   \<lparr>rh_field = ''Accept: 2'', rh_field_colon = 6, rh_field_len = 9\<rparr>],
     rq_num_headers = 2, rq_info_flags = 0\<rparr> ''accept'' = Some (Some ''A: 1'')"
  using vd_request_header_finds [of "\<lparr>rq_method = ''GET'', rq_url = [], rq_arg = [],
     rq_content_type = [], rq_content = None, rq_content_len = 0,
     rq_headers = [\<lparr>rh_field = ''A: 1'', rh_field_colon = 1, rh_field_len = 4\<rparr>,
                   \<lparr>rh_field = ''Accept: 2'', rh_field_colon = 6, rh_field_len = 9\<rparr>],
     rq_num_headers = 2, rq_info_flags = 0\<rparr>" "''accept''"]
  by (simp add: names_prefix_def field_name_def ascii_lower_def char_of_def bit_0)

text \<open>C12. Whatever call of the Python interpreter fails, \<^verbatim>\<open>main\<close> releases nothing it does not hold
  and, when it returns, has released every resource it acquired but three: the memory of its
  configuration, which no path clears, the decoded program name, which it keeps once the
  interpreter has started, and the reference to the imported module.\<close>

theorem python_main_releases:
  "holds_after r False (fst (python_main env)) = Some
    (r = R_Config
     \<or> r = R_Program \<and> decode_ok env \<and> config_ok env \<and> initialize_ok env
     \<or> r = R_Varnish \<and> config_ok env \<and> initialize_ok env \<and> import_ok env)"
proof (cases "r \<in> {R_Program, R_Config, R_Varnish}")
  case True
  then show ?thesis using python_main_leaks [of env] by auto
next
  case False
  then show ?thesis using python_main_balanced [OF False, of env] by simp
qed

text \<open>The exit code of the Python program is 0 exactly when no step failed (and outside the
  sandbox only the start-up steps count).\<close>

theorem python_main_exits:
  "snd (python_main env) = (if config_ok env \<and> initialize_ok env \<and>
     (if sandboxed env then open_ok env \<and> seek_end_ok env \<and> malloc_ok env \<and> seek_set_ok env \<and>
        read_ok env \<and> compile_ok env \<and> exec_ok env \<and> getattr_ok env \<and> pack_ok env \<and> call_ok env else True)
     then 0 else 1)"
  unfolding python_main_exit_code by simp

section \<open>The JavaScript program\<close>

text \<open>C13. The JavaScript program answers every GET: if the script functions it calls neither fault
  nor stop the machine without a response, the request is answered, with 404 when the script
  returned without a response or an exception.\<close>

theorem js_get_answers:
  assumes "\<And>f vs. answers (call f vs)" and "\<And>f vs w. fst (call f vs w) \<noteq> Fault"
  shows "responded (js_on_get call backend_func error_func url arg w) \<noteq> None
    \<and> (\<forall>v w'. call backend_func [JStr url, JStr arg] w = (Val v, w') \<and> \<not> is_exception v \<longrightarrow>
        responded (js_on_get call backend_func error_func url arg w)
          = Some (404, ''text/plain'', ''Not found''))"
  by (rule js_on_get_responds [OF assms])

theorem js_get_answers_witness:
  "responded (js_on_get (\<lambda>f vs. if f = JFun ''on_get'' then ret (JExc None) else ret JUndefined)
     (JFun ''on_get'') (JFun ''on_error'') ''/'' [] \<lparr>calls = [], vars = ()\<rparr>) \<noteq> None"
  using js_get_answers [of "\<lambda>f vs. if f = JFun ''on_get'' then ret (JExc None) else ret JUndefined"
      "JFun ''on_get''" "JFun ''on_error''" "''/''" "[]" "\<lparr>calls = [], vars = ()\<rparr>"]
  by (simp add: answers_def)

text \<open>C14. A storage call of the script arrives. When \<^verbatim>\<open>varnish.storage\<close> is called with at most
  twelve values, of any kind, and each converts to text, the monitor is sent those texts, and
  from them the storage machine calls the global function that the first text names with the
  others as its arguments; if that call returns normally and its result converts to a text of at
  most 2 MiB, that text is what is sent back. When the monitor hands that text over, it is the
  value of the storage call, or, with no memory for the result and a text that is not empty, the
  program faults. Conversions, property accesses and calls may change the world.\<close>

theorem js_storage_arrives:
  assumes "length argv \<le> MAX_STORAGE_ARGS"
    and "js_arg_texts e argv w = (Val (Some (name # args)), w1)"
    and "global_prop e' (c_str name) v = (Val sfunc, v1)" and "is_function sfunc"
    and "call sfunc (map JStr args) v1 = (Val r, v2)" and "\<not> is_exception r"
    and "to_cstr e' r v2 = (Val (Some res), v3)" and "length res \<le> js_result_size"
    and "lawful_malloc malloc"
    and "ans_callv h (calls w1) ''storage_trampoline'' (name # args) js_result_size
      = (res, int (length res))"
  shows "js_storage_call h e malloc argv w =
      (if malloc js_result_size = None \<and> res \<noteq> [] then Fault else Val (JStr res),
       w1\<lparr>calls := calls w1 @ [HStorageCall ''storage_trampoline'' (name # args) js_result_size]\<rparr>)
    \<and> js_storage_trampoline call e' (map text_buffer (name # args)) js_result_size v =
      (Val (), v3\<lparr>calls := calls v3 @ [HStorageReturn res]\<rparr>)"
proof
  have "length args \<le> MAX_STORAGE_ARGS" using js_arg_texts_length [OF assms(2)] assms(1) by simp
  then show "js_storage_trampoline call e' (map text_buffer (name # args)) js_result_size v =
      (Val (), v3\<lparr>calls := calls v3 @ [HStorageReturn res]\<rparr>)"
    using js_storage_trampoline_run [of args e' name v sfunc v1 call r v2 res v3] assms(3-8) by simp
qed (rule js_storage_call_run [OF assms(1,2) _ assms(10,9,8)], simp)

theorem js_storage_arrives_witness:
  "\<forall>e h. fst (js_storage_call (h\<lparr>ans_callv := \<lambda>cs f bs n. (''7'', 1)\<rparr>)
       (e\<lparr>to_cstr := \<lambda>v w. (Val (case v of JInt _ \<Rightarrow> Some ''3'' | JStr s \<Rightarrow> Some s | _ \<Rightarrow> None), w\<lparr>vars := Suc (vars w)\<rparr>)\<rparr>)
       (\<lambda>n. Some (replicate n (CHR ''?''))) [JStr ''add'', JInt 3] \<lparr>calls = [], vars = 0\<rparr>)
     = Val (JStr ''7'')"
proof (intro allI)
  fix e :: "nat engine" and h :: host
  let ?e = "e\<lparr>to_cstr := \<lambda>v w. (Val (case v of JInt _ \<Rightarrow> Some ''3'' | JStr s \<Rightarrow> Some s | _ \<Rightarrow> None),
      w\<lparr>vars := Suc (vars w)\<rparr>)\<rparr>"
  let ?e' = "?e\<lparr>global_prop := \<lambda>n. ret (JFun n)\<rparr>"
  let ?h = "h\<lparr>ans_callv := \<lambda>cs f bs n. (''7'', 1)\<rparr>"
  let ?malloc = "\<lambda>n. Some (replicate n (CHR ''?''))"
  have "js_arg_texts ?e [JStr ''add'', JInt 3] \<lparr>calls = [], vars = 0\<rparr>
      = (Val (Some [''add'', ''3'']), \<lparr>calls = [], vars = 2\<rparr>)"
    by (simp add: seq_def)
  moreover have "lawful_malloc ?malloc" by (simp add: lawful_malloc_def)
  ultimately show "fst (js_storage_call ?h ?e ?malloc [JStr ''add'', JInt 3] \<lparr>calls = [], vars = 0\<rparr>)
      = Val (JStr ''7'')"
    using js_storage_arrives [of "[JStr ''add'', JInt 3]" ?e "\<lparr>calls = [], vars = 0\<rparr>" "''add''"
        "[''3'']" "\<lparr>calls = [], vars = 2\<rparr>" ?e' "\<lparr>calls = [], vars = 0\<rparr>" "JFun ''add''" "\<lparr>calls = [], vars = 0\<rparr>"
        "\<lambda>f vs. ret (JStr ''7'')" "JStr ''7''" "\<lparr>calls = [], vars = 0\<rparr>" "''7''" "\<lparr>calls = [], vars = 1\<rparr>" ?malloc ?h]
    by (simp add: MAX_STORAGE_ARGS_def is_function_def is_exception_def js_result_size_def)
qed

text \<open>C15. Splitting a fetched header block gives back the lines it was made of: each line ends in
  CR LF and the block is followed by a NUL.\<close>

theorem get_headers_splits:
  assumes "\<forall>l \<in> set ls. CR \<notin> set l \<and> NUL \<notin> set l"
    and "op_headers op = Some (concat (map (\<lambda>l. l @ [CR, LF]) ls) @ NUL # rest)"
    and "op_headers_length op = length (concat (map (\<lambda>l. l @ [CR, LF]) ls))"
  shows "get_headers op = ret (JArr (map JStr ls))"
  by (rule get_headers_lines [OF assms])

theorem get_headers_splits_witness:
  "get_headers (curl_op_zero\<lparr>op_headers := Some (''A: 1'' @ [CR, LF] @ ''B: 2'' @ [CR, LF, NUL]),
     op_headers_length := 12\<rparr>) = ret (JArr [JStr ''A: 1'', JStr ''B: 2''])"
  using get_headers_splits [of "[''A: 1'', ''B: 2'']"
      "curl_op_zero\<lparr>op_headers := Some (''A: 1'' @ [CR, LF] @ ''B: 2'' @ [CR, LF, NUL]),
         op_headers_length := 12\<rparr>" "[]"] by simp

text \<open>C16. The request fields of a fetch: the elements of the script's array are read and converted
  one after the other, in worlds that each read and each conversion may change, and stored with
  their lengths cut to 16 bits. It goes on past the array's own end, up to twelve, and stops
  early only at an element whose read throws: the fields from there on stay empty.\<close>

theorem get_request_fields_fills:
  assumes "is_array e array w = (Val True, ws 0)" and "elements_read e array 0 k ws ts"
    and "k \<le> CURL_FIELDS_COUNT"
    and "k < CURL_FIELDS_COUNT \<longrightarrow> get_index e array k (ws k) = (Val x, w') \<and> is_exception x"
    and "k = CURL_FIELDS_COUNT \<longrightarrow> w' = ws k"
  shows "get_request_fields e curl_fields_zero array w = (Val (Some
    \<lparr>cf_ptr = map ts [0..<k] @ replicate (12 - k) None,
     cf_len = map (\<lambda>i. case ts i of None \<Rightarrow> 0 | Some s \<Rightarrow> length s mod 2 ^ 16) [0..<k]
       @ replicate (12 - k) 0\<rparr>), w')"
  unfolding get_request_fields_run [OF assms]
  by (simp add: fields_set_def curl_fields_zero_def CURL_FIELDS_COUNT_def field_len_def)

theorem get_request_fields_fills_witness:
  "\<forall>e. fst (get_request_fields (e\<lparr>is_array := \<lambda>_. ret True,
       get_index := \<lambda>a i w. (Val (if i < 2 then JUndefined else JExc None), w\<lparr>vars := Suc (vars w)\<rparr>),
       to_cstr := \<lambda>v w. (Val (Some (replicate (vars w) (CHR ''x''))), w)\<rparr>)
     curl_fields_zero (JArr []) \<lparr>calls = [], vars = 0\<rparr>)
    = Val (Some \<lparr>cf_ptr = [Some ''x'', Some ''xx''] @ replicate 10 None,
        cf_len = [1, 2] @ replicate 10 0\<rparr>)"
proof
  fix e :: "nat engine"
  let ?e = "e\<lparr>is_array := \<lambda>_. ret True,
       get_index := \<lambda>a i w. (Val (if i < 2 then JUndefined else JExc None), w\<lparr>vars := Suc (vars w)\<rparr>),
       to_cstr := \<lambda>v w. (Val (Some (replicate (vars w) (CHR ''x''))), w)\<rparr>"
  let ?ws = "\<lambda>n. \<lparr>calls = [], vars = n\<rparr>" and ?ts = "\<lambda>n. Some (replicate (Suc n) (CHR ''x''))"
  have "elements_read ?e (JArr []) 0 2 ?ws ?ts"
    by (auto simp: elements_read_def is_exception_def)
  then show "fst (get_request_fields ?e curl_fields_zero (JArr []) (?ws 0))
    = Val (Some \<lparr>cf_ptr = [Some ''x'', Some ''xx''] @ replicate 10 None,
        cf_len = [1, 2] @ replicate 10 0\<rparr>)"
    using get_request_fields_fills [of ?e "JArr []" "?ws 0" ?ws 2 ?ts "JExc None" "?ws 3"]
    by (simp add: CURL_FIELDS_COUNT_def is_exception_def upt_rec)
qed

text \<open>C17. Posting copies the content type into a 128-byte array without a bound: a longer content
  type is written past it, and before anything is sent.\<close>

theorem js_post_ctype_overflows:
  assumes "3 \<le> length argv" and "to_cstr e (argv ! 0) w = (Val (Some url), w1)"
    and "to_cstr e (argv ! 1) w1 = (Val (Some ctype), w2)" and "128 < length ctype"
  shows "js_http_post_call h e stack argv w = (Fault, w2)"
  using assms by (simp add: js_http_post_call_def seq_Val overwrite_def curl_op_zero_def)

theorem js_post_ctype_overflows_witness:
  "\<forall>h e stack w. fst (js_http_post_call h (e\<lparr>to_cstr := \<lambda>v. ret (Some (replicate 129 CHR ''x''))\<rparr>) stack
     [JUndefined, JUndefined, JUndefined] w) = Fault"
  apply (intro allI)
  subgoal for h e stack w
    using js_post_ctype_overflows [of "[JUndefined, JUndefined, JUndefined]"
      "e\<lparr>to_cstr := \<lambda>v. ret (Some (replicate 129 CHR ''x''))\<rparr>" w "replicate 129 CHR ''x''" w
      "replicate 129 CHR ''x''" w h stack] by simp
  done

text \<open>C18. The table-driven checksum is the CRC-32 of its definition: on a NUL-terminated string the
  loop gives what the bit-serial register with the reflected polynomial gives.\<close>

theorem crc32_is_bit_serial:
  assumes "0 \<notin> set s"
  shows "crc32 (s @ 0 # t) = Some (crc32_ref s)"
  unfolding crc32_def crc32_ref_def by (rule crc32_rec_ref [OF assms])

theorem crc32_is_bit_serial_witness:
  "crc32 [0x31, 0x32, 0x33, 0] = Some (crc32_ref [0x31, 0x32, 0x33])"
  using crc32_is_bit_serial [of "[0x31, 0x32, 0x33]" "[]"] by simp

section \<open>The script engine's utilities\<close>

text \<open>C19. Whatever exchange routine is chosen for an address and an element size, it exchanges
  exactly the bytes of two elements and nothing else, whichever of the two comes first in memory;
  an element exchanged with itself stays as it is.\<close>

theorem exchange_swaps_elements:
  fixes base sz :: u64
  assumes "sz \<noteq> 0" and "a + unat sz \<le> b \<or> b + unat sz \<le> a \<or> a = b"
    and "a + unat sz \<le> length mem" and "b + unat sz \<le> length mem"
  shows "\<exists>mem1. exchange_func base sz mem a b (unat sz) = Some mem1 \<and>
    ranges_swapped mem mem1 a b (unat sz)"
proof -
  obtain w where w: "0 < w" "w dvd unat sz"
      "exchange_func base sz = (\<lambda>mem a b n. exchange_loop w (n div w) mem a b) \<or>
       unat sz = w \<and> exchange_func base sz = (\<lambda>mem a b n. swap_bytes_at w mem a b)"
    using exchange_func_unit [OF assms(1)] by blast
  then have "unat sz div w * w = unat sz" by simp
  then show ?thesis
    using w(3) exchange_loop_swaps [of a "unat sz div w" w b mem]
      swap_bytes_at_swaps [of a w b mem] assms(2-4) by auto
qed

theorem exchange_swaps_elements_witness:
  "\<exists>mem1. exchange_func 0x1004 12 [0, 1, 2, 3, 4, 5, 6, 7, 8, 9, 10, 11,
      12, 13, 14, 15, 16, 17, 18, 19, 20, 21, 22, 23] 12 0 12 = Some mem1 \<and>
    ranges_swapped [0, 1, 2, 3, 4, 5, 6, 7, 8, 9, 10, 11,
      12, 13, 14, 15, 16, 17, 18, 19, 20, 21, 22, 23] mem1 12 0 12"
  using exchange_swaps_elements [of 12 12 0 "[0, 1, 2, 3, 4, 5, 6, 7, 8, 9, 10, 11,
      12, 13, 14, 15, 16, 17, 18, 19, 20, 21, 22, 23]" "0x1004"] by simp

text \<open>C20. Heap sort, the fallback for segments that are cut too often, returns on every array
  without an access out of bounds, and its result is a permutation that the comparison orders.\<close>

theorem heapsortx_permutes_and_orders:
  assumes "comparator cmp"
  shows "\<exists>ys. heapsortx cmp xs (length xs) = Some ys \<and> mset ys = mset xs \<and>
    sorted_wrt (\<lambda>x y. cmp x y \<le> 0) ys"
  by (rule comparator.heapsortx_sorts [OF assms])

theorem heapsortx_permutes_and_orders_witness:
  "\<exists>ys. heapsortx js_TA_cmp_int16 [3, 1, 0xffff, 2, 1] (length [3, 1, 0xffff, 2, 1 :: u16]) = Some ys \<and>
    mset ys = mset [3, 1, 0xffff, 2, 1] \<and> sorted_wrt (\<lambda>x y. js_TA_cmp_int16 x y \<le> 0) ys"
  by (rule heapsortx_permutes_and_orders) (rule ta_int16.comparator_axioms)

text \<open>C21. \<^verbatim>\<open>rqsort\<close> returns for every consistent comparison and every array of fewer than
  \<open>2 ^ 50\<close> elements: no access leaves the array, the stack of 50 segments never overflows, the
  loops end, and the result is an ordered permutation.\<close>

theorem rqsort_terminates_sorted:
  assumes "comparator cmp" and "length xs < 2 ^ 50"
  shows "\<exists>ys. rqsort cmp xs (length xs) = Some ys \<and> mset ys = mset xs \<and>
    sorted_wrt (\<lambda>x y. cmp x y \<le> 0) ys"
  by (rule rqsort_sorts) (fact assms)+

theorem rqsort_terminates_sorted_witness:
  "\<exists>ys. rqsort js_TA_cmp_uint8 [9, 4, 7, 4, 1, 200, 0, 8]
      (length [9, 4, 7, 4, 1, 200, 0, 8 :: u8]) = Some ys \<and>
    mset ys = mset [9, 4, 7, 4, 1, 200, 0, 8] \<and> sorted_wrt (\<lambda>x y. js_TA_cmp_uint8 x y \<le> 0) ys"
  by (rule rqsort_terminates_sorted [OF ta_uint8.comparator_axioms]) simp

text \<open>C22. Sorting a Float64Array without a comparison function puts the numbers first, in
  increasing order with \<open>-0\<close> before \<open>+0\<close>, and every NaN after them.\<close>

theorem typed_array_sort_float64:
  assumes "length xs < 2 ^ 50"
  shows "\<exists>nums nans. rqsort js_TA_cmp_float64 xs (length xs) = Some (nums @ nans) \<and>
    mset (nums @ nans) = mset xs \<and> list_all f64_isnan nans \<and>
    list_all (\<lambda>x. \<not> f64_isnan x) nums \<and>
    sorted_wrt (\<lambda>x y. f64_rank x < f64_rank y \<or>
      f64_rank x = f64_rank y \<and> (f64_signbit y \<longrightarrow> f64_signbit x)) nums"
proof -
  obtain ys where ys: "rqsort js_TA_cmp_float64 xs (length xs) = Some ys" "mset ys = mset xs"
      "sorted_wrt (\<lambda>x y. js_TA_cmp_float64 x y \<le> 0) ys"
    using rqsort_sorts [OF ta_float64.comparator_axioms assms] by blast
  obtain nums nans where "ys = nums @ nans" "list_all f64_isnan nans"
      "list_all (\<lambda>x. \<not> f64_isnan x) nums"
      "sorted_wrt (\<lambda>x y. f64_rank x < f64_rank y \<or>
        f64_rank x = f64_rank y \<and> (f64_signbit y \<longrightarrow> f64_signbit x)) nums"
    using float64_split [OF ys(3)] by blast
  then show ?thesis using ys(1,2) by (intro exI [of _ nums] exI [of _ nans]) simp
qed

theorem typed_array_sort_float64_witness:
  "\<exists>nums nans. rqsort js_TA_cmp_float64 [0x7ff8000000000000, 0, 0x8000000000000000]
      (length [0x7ff8000000000000, 0, 0x8000000000000000 :: u64]) = Some (nums @ nans) \<and>
    mset (nums @ nans) = mset [0x7ff8000000000000, 0, 0x8000000000000000] \<and>
    list_all f64_isnan nans \<and> list_all (\<lambda>x. \<not> f64_isnan x) nums \<and>
    sorted_wrt (\<lambda>x y. f64_rank x < f64_rank y \<or>
      f64_rank x = f64_rank y \<and> (f64_signbit y \<longrightarrow> f64_signbit x)) nums"
  by (rule typed_array_sort_float64) simp

text \<open>C23. \<^verbatim>\<open>pstrcat\<close> on a buffer with a terminated string below 2 GiB never writes outside its
  size: the result is the concatenation, cut to \<open>n - 1\<close> characters and terminated, or the old
  string when that fills the buffer already. From 2 GiB (and below 4) on the length kept in an
  \<^verbatim>\<open>int\<close> is negative and the copy starts before the buffer.\<close>

theorem pstrcat_bounded:
  assumes "NUL \<notin> set t" and "NUL \<in> set buf" and "n \<le> int (length buf)"
  shows "(c_strlen buf < 2 ^ 31 \<longrightarrow>
      (\<exists>out. pstrcat buf n (t @ NUL # rest) = Some out \<and> length out = length buf \<and>
        c_str out = (if int (c_strlen buf) < n
          then take (nat (n - 1)) (c_str buf @ t) else c_str buf)))
    \<and> (2 ^ 31 \<le> c_strlen buf \<and> c_strlen buf < 2 ^ 32 \<and> 0 \<le> n \<longrightarrow>
        pstrcat buf n (t @ NUL # rest) = None)"
  using pstrcat_appends [OF assms, of rest] pstrcat_long [OF assms(2), of n "t @ NUL # rest"] by blast

theorem pstrcat_bounded_witness:
  "\<exists>out. pstrcat (''ab'' @ [NUL, NUL]) 4 (''cd'' @ [NUL]) = Some out \<and>
    length out = length (''ab'' @ [NUL, NUL]) \<and> c_str out = ''abc''"
  using pstrcat_bounded [of "''cd''" "''ab'' @ [NUL, NUL]" 4 "[]"]
  by (simp add: c_strlen_def c_str_def)

text \<open>C24. The UTF-8 decoder accepts exactly the encodings the encoder writes: a decoded code has
  at most 31 bits, what was read is its one encoding (no overlong form, no bad continuation), it
  lies within the bytes allowed, and reading resumes right after it.\<close>

theorem utf8_round_trip:
  assumes "1 \<le> n"
  shows "unicode_from_utf8 p n = Some (Some (c, r)) \<longleftrightarrow> unat c < 2 ^ 31 \<and>
    p = unicode_to_utf8 c @ r \<and> int (length (unicode_to_utf8 c)) \<le> n"
  by (rule unicode_from_utf8_iff) (fact assms)

theorem utf8_round_trip_witness:
  "unicode_from_utf8 [0xe2, 0x82, 0xac, 0x21] 4 = Some (Some (0x20ac, [0x21])) \<longleftrightarrow>
    unat (0x20ac :: u32) < 2 ^ 31 \<and> [0xe2, 0x82, 0xac, 0x21] = unicode_to_utf8 0x20ac @ [0x21] \<and>
    int (length (unicode_to_utf8 0x20ac)) \<le> 4"
  by (rule utf8_round_trip) simp

text \<open>A 32-bit value stored at an unaligned place is read back, and the rest of the array is
  unchanged.\<close>

theorem unaligned_round_trip:
  assumes "put_u32 tab v = Some tab1"
  shows "get_u32 tab1 = Some v \<and> drop 4 tab1 = drop 4 tab \<and> length tab1 = length tab"
  using get_put_u32 [OF assms] assms by (auto simp: put_u32_def put_bytes_def split: if_splits)

theorem unaligned_round_trip_witness:
  "get_u32 [0xef, 0xbe, 0xad, 0xde, 7] = Some 0xdeadbeef"
proof -
  have "put_u32 [1, 2, 3, 4, 7] 0xdeadbeef = Some [0xef, 0xbe, 0xad, 0xde, 7]"
    by (simp add: put_u32_def put_bytes_def le_bytes_numeral)
  from unaligned_round_trip [OF this] show ?thesis by simp
qed

section \<open>The script engine's containers\<close>

text \<open>C25. The dynamic buffer refines the list of the bytes written to it: from an initialised buffer,
  any sequence of puts, integers, strings and formatted texts below 2 GiB (what \<^verbatim>\<open>vsnprintf\<close> can
  return the length of) runs without touching memory outside the block, and unless the error flag is set at the end, the contents are the concatenation, in
  order; an allocation that fails at any point leaves the flag set.\<close>

theorem dbuf_refines_bytes:
  assumes "lawful_realloc f" and "length stack = PRINT_BUF" and "list_all item_legal items"
    and "length (concat (map item_bytes items)) + 1 < 2 ^ 64"
  shows "\<exists>s. emit_all (dbuf_emit stack) (dbuf_init2 f opq None) items = Some s \<and> dbuf_ok s \<and>
    (\<not> dbuf_error s \<longrightarrow> dbuf_bytes s = concat (map item_bytes items))"
  using dbuf_emit_all_refines [OF assms(2) _ assms(3), of "dbuf_init2 f opq None"]
    dbuf_init_ok [OF assms(1), of None opq] assms(4) by (auto simp: dbuf_error_def)

theorem dbuf_refines_bytes_witness:
  "\<exists>s. emit_all (dbuf_emit (replicate PRINT_BUF 0)) (dbuf_init2 quota_realloc 20 None)
      [Putstr [104, 105], Put_u16 0x1234, Printf [52, 50]] = Some s \<and> dbuf_ok s \<and>
    (\<not> dbuf_error s \<longrightarrow> dbuf_bytes s =
      concat (map item_bytes [Putstr [104, 105], Put_u16 0x1234, Printf [52, 50]]))"
  by (rule dbuf_refines_bytes [OF lawful_quota_realloc]) simp_all

text \<open>C26. When \<^verbatim>\<open>vsnprintf\<close> reports an error, for an encoding error or a text of 2 GiB or more,
  \<^verbatim>\<open>dbuf_printf\<close> returns success, does not set the error flag, and the buffer has lost its last
  byte.\<close>

theorem dbuf_printf_loses_byte:
  assumes "dbuf_ok s" and "0 < db_size s" and "print_fails out"
  shows "\<exists>s1. dbuf_printf stack s out = Some (s1, 0) \<and>
    dbuf_bytes s1 = butlast (dbuf_bytes s) \<and> dbuf_error s1 = dbuf_error s"
  by (rule dbuf_printf_error) (fact assms)+

theorem dbuf_printf_loses_byte_witness:
  "\<exists>s1. dbuf_printf [] \<lparr>db_buf = Some [7, 8, 9], db_size = 2, db_allocated_size = 3, db_error = False,
      db_realloc_func = Some plain_realloc, db_opaque = ()\<rparr> None = Some (s1, 0) \<and>
    dbuf_bytes s1 = [7] \<and> \<not> dbuf_error s1"
  using dbuf_printf_loses_byte [of "\<lparr>db_buf = Some [7, 8, 9], db_size = 2, db_allocated_size = 3,
      db_error = False, db_realloc_func = Some plain_realloc, db_opaque = ()\<rparr>" None "[]"]
  by (simp add: print_fails_def dbuf_ok_def dbuf_bytes_def buf_list_def dbuf_error_def lawful_plain_realloc)

text \<open>C27. The intrusive lists refine lists of addresses: on a well-formed list, the empty one too,
  adding a node at the front, adding one at the end and deleting any element give a well-formed
  list with the expected elements; none of the three touches a node other than the head, the
  elements and the node given. Traversal in either direction visits the elements in order.\<close>

theorem list_head_refines_list:
  assumes "is_list h head xs" and "new \<in> dom h" and "new \<notin> set (head # xs)"
  shows "(\<exists>h1. list_add h new head = Some h1 \<and> is_list h1 head (new # xs) \<and>
       (\<forall>a. a \<notin> set (head # new # xs) \<longrightarrow> h1 a = h a)) \<and>
    (\<exists>h1. list_add_tail h new head = Some h1 \<and> is_list h1 head (xs @ [new]) \<and>
       (\<forall>a. a \<notin> set (head # new # xs) \<longrightarrow> h1 a = h a)) \<and>
    (\<forall>as el bs. xs = as @ el # bs \<longrightarrow>
       (\<exists>h1. list_del h el = Some h1 \<and> is_list h1 head (as @ bs) \<and>
         (\<forall>a. a \<notin> set (head # xs) \<longrightarrow> h1 a = h a))) \<and>
    list_for_each h head = Some xs \<and> list_for_each_prev h head = Some (rev xs)"
proof (intro conjI)
  show "\<exists>h1. list_add h new head = Some h1 \<and> is_list h1 head (new # xs) \<and>
      (\<forall>a. a \<notin> set (head # new # xs) \<longrightarrow> h1 a = h a)"
    by (rule list_add_is_list [OF assms]) blast
  show "\<exists>h1. list_add_tail h new head = Some h1 \<and> is_list h1 head (xs @ [new]) \<and>
      (\<forall>a. a \<notin> set (head # new # xs) \<longrightarrow> h1 a = h a)"
    by (rule list_add_tail_is_list [OF assms]) blast
  show "\<forall>as el bs. xs = as @ el # bs \<longrightarrow>
      (\<exists>h1. list_del h el = Some h1 \<and> is_list h1 head (as @ bs) \<and>
        (\<forall>a. a \<notin> set (head # xs) \<longrightarrow> h1 a = h a))"
  proof (intro allI impI)
    fix as el bs
    assume xs: "xs = as @ el # bs"
    show "\<exists>h1. list_del h el = Some h1 \<and> is_list h1 head (as @ bs) \<and>
        (\<forall>a. a \<notin> set (head # xs) \<longrightarrow> h1 a = h a)"
      unfolding xs by (rule list_del_is_list [OF assms(1) [unfolded xs]]) blast
  qed
qed (rule list_for_each_elements list_for_each_prev_elements, rule assms(1))+

theorem list_head_refines_list_witness:
  "(\<exists>h1. list_add_tail [1 \<mapsto> \<lparr>lh_prev = 1, lh_next = 1\<rparr>, 4 \<mapsto> \<lparr>lh_prev = 0, lh_next = 0\<rparr>] 4 1 = Some h1
      \<and> is_list h1 1 [4]) \<and>
   (\<exists>h1. list_del [1 \<mapsto> \<lparr>lh_prev = 3, lh_next = 2\<rparr>, 2 \<mapsto> \<lparr>lh_prev = 1, lh_next = 3\<rparr>,
      3 \<mapsto> \<lparr>lh_prev = 2, lh_next = 1\<rparr>, 4 \<mapsto> \<lparr>lh_prev = 0, lh_next = 0\<rparr>] 2 = Some h1 \<and> is_list h1 1 [3])"
proof
  let ?e = "[1 \<mapsto> \<lparr>lh_prev = 1, lh_next = 1\<rparr>, 4 \<mapsto> \<lparr>lh_prev = 0, lh_next = 0\<rparr>] :: nodes"
  have "is_list ?e 1 []" by (simp add: is_list_def get_next_def get_prev_def)
  from list_head_refines_list [OF this, of 4]
  show "\<exists>h1. list_add_tail ?e 4 1 = Some h1 \<and> is_list h1 1 [4]" by auto
  let ?h = "[1 \<mapsto> \<lparr>lh_prev = 3, lh_next = 2\<rparr>, 2 \<mapsto> \<lparr>lh_prev = 1, lh_next = 3\<rparr>,
      3 \<mapsto> \<lparr>lh_prev = 2, lh_next = 1\<rparr>, 4 \<mapsto> \<lparr>lh_prev = 0, lh_next = 0\<rparr>] :: nodes"
  have "is_list ?h 1 [2, 3]" by (simp add: is_list_def get_next_def get_prev_def)
  from list_head_refines_list [OF this, of 4]
  have "\<forall>as el bs. [2, 3] = as @ el # bs \<longrightarrow>
      (\<exists>h1. list_del ?h el = Some h1 \<and> is_list h1 1 (as @ bs) \<and> (\<forall>a. a \<notin> set [1, 2, 3] \<longrightarrow> h1 a = ?h a))"
    by (simp only: dom_fun_upd) simp
  from this [rule_format, of "[]" 2 "[3]"]
  show "\<exists>h1. list_del ?h 2 = Some h1 \<and> is_list h1 1 [3]" by auto
qed

text \<open>C28. The job loop refines a queue of jobs. The description of the jobs gives, for each, the
  outcomes it may have: what it enqueues, what it makes of the world, whether it throws. For jobs
  that keep to it, and a queue of which no run goes on for ever, the loop over the linked entries
  returns; what it leaves and the code it returns are those of a run of the abstract queue, up to
  the empty queue or to a job that throws; and every reference taken for a queued argument has been
  given back once.\<close>

theorem job_loop_refines_queue:
  assumes "queue_ends spec js (rt_world rt)" and "lawful_call head call spec"
    and "job_queue head rt js"
  shows "\<exists>rt1 r ctx js2. run_pending_jobs head call rt = Some (rt1, r, ctx) \<and>
    queue_run spec js (rt_world rt) js2 (rt_world rt1) r \<and> job_queue head rt1 js2 \<and>
    (\<forall>v. rt_refs rt1 v - queue_refs js2 v = rt_refs rt v - queue_refs js v)"
  by (rule run_pending_jobs_refines [OF assms(1,2)]) (fact assms(3), rule refl)

theorem job_loop_refines_queue_witness:
  "\<exists>rt1 r ctx js2. run_pending_jobs 1 (spawning 1 [8, 9]
        (\<lambda>f. if f = 20 then Some \<lparr>job_ctx = 7, job_func = 30, job_argv = [5, 5]\<rparr> else None))
      \<lparr>rt_nodes = [1 \<mapsto> \<lparr>lh_prev = 2, lh_next = 2\<rparr>, 2 \<mapsto> \<lparr>lh_prev = 1, lh_next = 1\<rparr>],
       rt_jobs = [2 \<mapsto> \<lparr>job_ctx = 7, job_func = 20, job_argv = [5]\<rparr>],
       rt_refs = (\<lambda>v. 2), rt_world = []\<rparr> = Some (rt1, r, ctx) \<and> job_queue 1 rt1 [] \<and> js2 = [] \<and>
    (r = 0 \<and> rt_world rt1 = [20, 30] \<or> r = -1 \<and> rt_world rt1 = [20]) \<and> rt_refs rt1 (5 :: nat) = 1"
proof -
  define rt :: "(nat, nat list) runtime" where
    "rt = \<lparr>rt_nodes = [1 \<mapsto> \<lparr>lh_prev = 2, lh_next = 2\<rparr>, 2 \<mapsto> \<lparr>lh_prev = 1, lh_next = 1\<rparr>],
       rt_jobs = [2 \<mapsto> \<lparr>job_ctx = 7, job_func = 20, job_argv = [5]\<rparr>], rt_refs = (\<lambda>v. 2), rt_world = []\<rparr>"
  define follow :: "nat \<Rightarrow> nat job option" where
    "follow = (\<lambda>f. if f = 20 then Some \<lparr>job_ctx = 7, job_func = 30, job_argv = [5, 5]\<rparr> else None)"
  define js :: "nat job list" where "js = [\<lparr>job_ctx = 7, job_func = 20, job_argv = [5]\<rparr>]"
  have "queue_ends (spawn_spec follow) js []"
    by (auto simp: js_def spawn_spec_def follow_def intro!: queue_ends.intros)
  then have q: "queue_ends (spawn_spec follow) js (rt_world rt)" by (simp add: rt_def)
  have "queued 1 rt [2] js"
    by (simp add: queued_def is_list_def get_next_def get_prev_def rt_def js_def)
  then have "job_queue 1 rt js" unfolding job_queue_def by blast
  from job_loop_refines_queue [OF q spawning_lawful this, of "[8, 9]"]
  obtain rt1 r ctx js2 where run: "run_pending_jobs 1 (spawning 1 [8, 9] follow) rt = Some (rt1, r, ctx)"
      "queue_run (spawn_spec follow) js (rt_world rt) js2 (rt_world rt1) r" "job_queue 1 rt1 js2"
      "\<forall>v. rt_refs rt1 v - queue_refs js2 v = rt_refs rt v - queue_refs js v" by blast
  have "js2 = [] \<and> (r = 0 \<and> rt_world rt1 = [20, 30] \<or> r = -1 \<and> rt_world rt1 = [20])"
    using run(2) by (auto simp: queue_run_simps js_def rt_def spawn_spec_def follow_def)
  moreover have "rt_refs rt 5 - queue_refs js 5 = 1" by (simp add: rt_def js_def)
  then have "rt_refs rt1 5 - queue_refs js2 5 = 1" using run(4) by simp
  ultimately show ?thesis using run(1,3) unfolding follow_def rt_def by auto
qed

section \<open>Unicode\<close>

text \<open>C29. Union, intersection and symmetric difference of two well-formed arrays of range points (strictly
  increasing, of even length) end in one that is well-formed again, or in -1, and that only with an
  allocation function that can fail;
  no point is read or written outside its array.\<close>

theorem char_ranges_stay_well_formed:
  assumes "cr_ok cr" and "points_of cr = []" and "cr_wf a" and "cr_wf b"
    and "length a + length b < 2 ^ 28" and "op1 \<in> {CR_OP_UNION, CR_OP_INTER, CR_OP_XOR}"
  shows "\<exists>cr1 r. cr_op cr a (int (length a)) b (int (length b)) op1 = Some (cr1, r) \<and> cr_ok cr1 \<and>
    (r = 0 \<and> cr_wf (points_of cr1) \<and> length (points_of cr1) \<le> length a + length b \<or>
     r = -1 \<and> \<not> grants (cr_realloc_func cr))"
proof -
  have b: "sorted b" "even (length b)" using assms(4) cr_wf_sorted by (auto simp: cr_wf_def)
  have "\<exists>f. (\<forall>x y. cr_is_in op1 x y = Some (f x y)) \<and> \<not> f False False"
    using assms(6) by (elim insertE emptyE) (auto simp: cr_is_in_simps intro: exI [of _ "(\<or>)"]
      exI [of _ "(\<and>)"] exI [of _ "(\<noteq>)"])
  then obtain f where f: "\<And>x y. cr_is_in op1 x y = Some (f x y)" "f False False = False" by auto
  have "served (cr_realloc_func cr) (cr_op cr a (int (length a)) b (int (length b)) op1)"
    using assms(1) by (intro cr_op_served) (simp add: cr_ok_def)
  then have "cr_op cr a (int (length a)) b (int (length b)) op1 = Some (cr1, r) \<Longrightarrow>
      grants (cr_realloc_func cr) \<Longrightarrow> r = 0" for cr1 r
    by (simp add: served_def)
  then show ?thesis using cr_op_result [OF assms(1-3) b assms(5), of op1 f, OF f] by fastforce
qed

theorem char_ranges_stay_well_formed_witness:
  "\<exists>cr1 r. cr_op (cr_init plain_points () None) [65, 91] 2 [80, 100, 120, 130] 4 CR_OP_XOR = Some (cr1, r) \<and>
    cr_ok cr1 \<and> r = 0 \<and> cr_wf (points_of cr1)"
  using grants_plain_points char_ranges_stay_well_formed [OF cr_init_ok(1) [OF lawful_plain_points] cr_init_ok(2),
      of "[65, 91]" "[80, 100, 120, 130]" CR_OP_XOR "()"]
  by (auto simp: cr_wf_def cr_init_def)

text \<open>C30. The range operations compute the set operations: a character is in the result of \<^verbatim>\<open>cr_op\<close> exactly
  when the operation holds of its membership in the two arrays; \<^verbatim>\<open>cr_invert\<close> gives the complement (of
  the codes below the largest 32-bit number); \<^verbatim>\<open>cr_union_interval\<close> adds the interval from \<open>c1\<close> to \<open>c2\<close>, where
  \<open>c1 \<le> c2\<close> and \<open>c2\<close> is below the largest 32-bit number. Fewer than \<open>2 ^ 28\<close> points in all.\<close>

theorem char_range_operations_are_set_operations:
  assumes "cr_ok cr" and "cr_wf (points_of cr)" and "cr_wf b" and "c1 \<le> c2" and "c2 \<noteq> 0xffffffff"
    and "length (points_of cr) + length b + 2 < 2 ^ 28" and "cr_ok empty_cr" and "points_of empty_cr = []"
    and "cr_is_in op1 = (\<lambda>x y. Some (f x y))" and "f False False = False"
  shows "(\<exists>cr1 r. cr_op empty_cr (points_of cr) (cr_len cr) b (int (length b)) op1 = Some (cr1, r) \<and>
      (r = 0 \<and> (\<forall>c. cr_mem (points_of cr1) c = f (cr_mem (points_of cr) c) (cr_mem b c)) \<or>
       r = -1 \<and> \<not> grants (cr_realloc_func empty_cr))) \<and>
    (\<exists>cr1 r. cr_invert cr = Some (cr1, r) \<and>
      (r = 0 \<and> (\<forall>c. c \<noteq> 0xffffffff \<longrightarrow> cr_mem (points_of cr1) c = (\<not> cr_mem (points_of cr) c)) \<or>
       r = -1 \<and> \<not> grants (cr_realloc_func cr))) \<and>
    (\<exists>cr1 r. cr_union_interval cr c1 c2 = Some (cr1, r) \<and>
      (r = 0 \<and> (\<forall>c. cr_mem (points_of cr1) c = (cr_mem (points_of cr) c \<or> c1 \<le> c \<and> c \<le> c2)) \<or>
       r = -1 \<and> \<not> grants (cr_realloc_func cr)))"
proof (intro conjI)
  have size: "0 \<le> cr_size cr" "0 \<le> cr_size empty_cr" using assms(1,7) by (simp_all add: cr_ok_def)
  have len: "cr_len cr = int (length (points_of cr))" using length_points_of [OF assms(1)] by simp
  have b: "sorted b" "even (length b)" using assms(3) cr_wf_sorted by (auto simp: cr_wf_def)
  have a: "sorted (points_of cr)" "even (length (points_of cr))" using assms(2) cr_wf_sorted by (auto simp: cr_wf_def)
  have small: "length (points_of cr) + length b < 2 ^ 28" using assms(6) by simp
  from cr_op_combines [OF assms(7,8) a(1) b(1) a(2) b(2) small, of op1 f] assms(9,10)
    cr_op_served [OF size(2), of "points_of cr" "cr_len cr" b "int (length b)" op1]
  show "\<exists>cr1 r. cr_op empty_cr (points_of cr) (cr_len cr) b (int (length b)) op1 = Some (cr1, r) \<and>
      (r = 0 \<and> (\<forall>c. cr_mem (points_of cr1) c = f (cr_mem (points_of cr) c) (cr_mem b c)) \<or>
       r = -1 \<and> \<not> grants (cr_realloc_func empty_cr))"
    unfolding len served_def by (metis (no_types, lifting) zero_neq_neg_one)
  have "cr_len cr + 2 \<le> 2 ^ 28" using assms(6) len by simp
  from cr_invert_complements [OF assms(1) a this] cr_invert_served [OF size(1)]
  show "\<exists>cr1 r. cr_invert cr = Some (cr1, r) \<and>
      (r = 0 \<and> (\<forall>c. c \<noteq> 0xffffffff \<longrightarrow> cr_mem (points_of cr1) c = (\<not> cr_mem (points_of cr) c)) \<or>
       r = -1 \<and> \<not> grants (cr_realloc_func cr))"
    unfolding served_def by (metis (no_types, lifting) zero_neq_neg_one)
  have "length (points_of cr) + 2 < 2 ^ 28" using assms(6) by simp
  from cr_union_interval_adds [OF assms(1,2,4,5) this] cr_union1_served [of cr "[c1, c2 + 1]" 2]
  show "\<exists>cr1 r. cr_union_interval cr c1 c2 = Some (cr1, r) \<and>
      (r = 0 \<and> (\<forall>c. cr_mem (points_of cr1) c = (cr_mem (points_of cr) c \<or> c1 \<le> c \<and> c \<le> c2)) \<or>
       r = -1 \<and> \<not> grants (cr_realloc_func cr))"
    unfolding served_def cr_union_interval_def [symmetric] by (metis (no_types, lifting) zero_neq_neg_one)
qed

theorem char_range_operations_are_set_operations_witness:
  "\<exists>cr1 r. cr_invert (cr_init plain_points () None) = Some (cr1, r) \<and> r = 0 \<and> cr_mem (points_of cr1) 65"
proof -
  have "grants (cr_realloc_func (cr_init plain_points () None))" using grants_plain_points by (simp add: cr_init_def)
  then show ?thesis
    using char_range_operations_are_set_operations [of "cr_init plain_points () None" "[65, 91]" 97 122
        "cr_init plain_points () None" CR_OP_UNION "(\<or>)"]
    by (auto simp: cr_init_ok(1) [OF lawful_plain_points] cr_init_ok(2) cr_wf_def cr_is_in_simps fun_eq_iff)
qed

text \<open>C31. Case conversion with the generated tables of this repository reads every table inside its bounds
  and writes between one and three codes, for every 32-bit code and every conversion type.\<close>

theorem lre_case_conv_in_bounds:
  "\<exists>res. lre_case_conv c conv_type = Some res \<and> 1 \<le> length res \<and> length res \<le> 3"
  by (rule lre_case_conv_safe)

text \<open>C32. The ordering of combining characters, three nested loops in place, is the canonical ordering: each
  maximal run of characters with a non-zero class is stably sorted by class, starters do not move, and
  the characters are those of the buffer.\<close>

theorem sort_cc_orders_canonically:
  "sort_cc cc buf (length buf) = Some (canonical_order cc buf) \<and>
    mset (canonical_order cc buf) = mset buf"
  by (simp add: sort_cc_canonical canonical_order_perm)

text \<open>C33. Hangul: composing the codes that a syllable decomposes to, from left to right, gives the syllable
  back, for all 11172 syllables and whatever the composition table holds.\<close>

theorem hangul_composes_back:
  assumes "0xac00 \<le> c" and "c < 0xd7a4"
  shows "fold (\<lambda>x acc. compose_pair pair acc x) (tl (hangul_decomp c)) (hd (hangul_decomp c)) = c"
  using hangul_recompose [OF assms, of pair] by (simp add: recompose_def)

theorem hangul_composes_back_witness:
  "fold (\<lambda>x acc. compose_pair (\<lambda>a b. 0) acc x) (tl (hangul_decomp 0xac01)) (hd (hangul_decomp 0xac01)) = 0xac01"
  by (rule hangul_composes_back) simp_all

section \<open>Sets of characters\<close>

text \<open>C34. The lookups with an index agree with the full decoding of the generated tables, for every 32-bit
  code: the index never leads the search to a wrong place, and no byte is read outside a table. A cased
  character is one in a case conversion range or in the table of the other cased ones.\<close>

theorem indexed_lookups_are_membership:
  "lre_is_case_ignorable c = Some (table_mem unicode_prop_Case_Ignorable_table c) \<and>
    lre_is_id_start c = Some (table_mem unicode_prop_ID_Start_table c) \<and>
    lre_is_id_continue c = Some (table_mem unicode_prop_ID_Start_table c \<or> table_mem unicode_prop_ID_Continue1_table c) \<and>
    lre_is_cased c = Some ((\<exists>i. range_covers case_conv_table1 case_code case_len i c) \<or>
      table_mem unicode_prop_Cased1_table c)"
  by (simp add: lookups_are_membership lre_is_cased_membership)

text \<open>C35. The stack machine that computes the derived properties evaluates set expressions: the postfix program
  of an expression of bounded depth and size leaves a range with exactly the characters of the expression
  (of the codes below the largest 32-bit number), or gives -1, and that only with an allocation function
  that can fail. The stack of four ranges never overflows. An atom of the expression is a category, one of
  the tables, or the characters that \<^verbatim>\<open>lre_case_conv\<close> changes (not the ranges \<^verbatim>\<open>unicode_case1\<close> takes from the
  runs of its table).\<close>

theorem prop_programs_evaluate_expressions:
  assumes "cr_ok cr" and "expr_ok e" and "expr_cells e \<le> POP_STACK_LEN_MAX" and "expr_weight e \<le> 32"
  shows "\<exists>cr1 r. unicode_prop_ops cr (expr_ops e @ [POP_END]) = Some (cr1, r) \<and>
    (r = 0 \<and> cr_ok cr1 \<and> sorted (points_of cr1) \<and>
       (\<forall>c. c \<noteq> 0xffffffff \<longrightarrow> cr_mem (points_of cr1) c = expr_mem e c) \<or>
     r = -1 \<and> \<not> grants (cr_realloc_func cr))"
  using unicode_prop_ops_expr [OF assms] unfolding denotes_def by blast

theorem prop_programs_evaluate_expressions_witness:
  "\<exists>cr1. unicode_prop_ops (cr_init plain_points () None)
      [POP_GC (gc_masks [UNICODE_GC_Sm]), POP_PROP UNICODE_PROP_Other_Math, POP_UNION, POP_END] = Some (cr1, 0) \<and>
    (\<forall>c. c \<noteq> 0xffffffff \<longrightarrow> cr_mem (points_of cr1) c =
      expr_mem (Unite (Gc (gc_masks [UNICODE_GC_Sm])) (Prop UNICODE_PROP_Other_Math)) c)"
proof -
  let ?e = "Unite (Gc (gc_masks [UNICODE_GC_Sm])) (Prop UNICODE_PROP_Other_Math)"
  have e: "expr_ok ?e" "expr_cells ?e \<le> POP_STACK_LEN_MAX" "expr_weight ?e \<le> 32"
    by (simp_all add: POP_STACK_LEN_MAX_def UNICODE_PROP_Other_Math_def unicode_prop_table_def)
  have g: "grants (cr_realloc_func (cr_init plain_points () None))"
    using grants_plain_points by (simp add: cr_init_def)
  show ?thesis
    using prop_programs_evaluate_expressions [OF cr_init_ok(1) [OF lawful_plain_points] e, of "()"] g by auto
qed

text \<open>C36. A property by name: an unknown name gives -2 and leaves the range as it is; any of the 53 names, or
  an alias of one, fills the range with exactly the characters of the property, or gives -1, and that only
  with an allocation function that can fail. For Changes_When_Uppercased, Changes_When_Lowercased and
  Changes_When_Casemapped they are the characters that the conversions of \<^verbatim>\<open>lre_case_conv\<close> change.\<close>

theorem unicode_prop_fills:
  assumes "cr_ok cr" and "points_of cr = []"
  shows "case prop_number name of
      None \<Rightarrow> unicode_prop cr name = Some (cr, -2)
    | Some idx \<Rightarrow> gives (cr_realloc_func cr) (unicode_prop cr name) (prop_chars idx)"
  by (rule unicode_prop_by_name [OF assms])

theorem unicode_prop_fills_witness:
  "gives plain_points (unicode_prop (cr_init plain_points () None) ''space'') (prop_chars UNICODE_PROP_White_Space) \<and>
    unicode_prop (cr_init plain_points () None) ''nothing'' = Some (cr_init plain_points () None, -2)"
proof -
  have n: "prop_number ''space'' = Some UNICODE_PROP_White_Space" "prop_number ''nothing'' = None"
    by (simp_all add: prop_number_def unicode_prop_names_def aliases.simps c_str_def UNICODE_PROP_ASCII_Hex_Digit_def
        UNICODE_PROP_White_Space_def)
  have f: "cr_realloc_func (cr_init plain_points () None) = plain_points" by (simp add: cr_init_def)
  note fills = unicode_prop_fills [where cr = "cr_init plain_points () None", OF cr_init_ok(1) [OF lawful_plain_points] cr_init_ok(2)]
  show ?thesis using fills [of "''space''"] fills [of "''nothing''"] unfolding n f by simp
qed

text \<open>C37. A general category by name, one of the thirty of the table or a union of them such as L: an unknown
  name gives -2; otherwise the range holds exactly the characters whose entry in the table of categories
  has one of them, upper and lower case alternating in the runs marked so; -1 only with an allocation
  function that can fail.\<close>

theorem unicode_general_category_fills:
  assumes "cr_ok cr" and "points_of cr = []"
  shows "case gc_number name of
      None \<Rightarrow> unicode_general_category cr name = Some (cr, -2)
    | Some i \<Rightarrow> gives (cr_realloc_func cr) (unicode_general_category cr name) (gc_chars i)"
  by (rule unicode_general_category_by_name [OF assms])

theorem unicode_general_category_fills_witness:
  "gives plain_points (unicode_general_category (cr_init plain_points () None) ''Uppercase_Letter'') (gc_chars UNICODE_GC_Lu)"
proof -
  have n: "gc_number ''Uppercase_Letter'' = Some UNICODE_GC_Lu"
    by (simp add: gc_number_def unicode_gc_names_def aliases.simps c_str_def UNICODE_GC_Lu_def)
  have f: "cr_realloc_func (cr_init plain_points () None) = plain_points" by (simp add: cr_init_def)
  show ?thesis
    using unicode_general_category_fills [where cr = "cr_init plain_points () None"
        and name = "''Uppercase_Letter''", OF cr_init_ok(1) [OF lawful_plain_points] cr_init_ok(2)] unfolding n f by simp
qed

text \<open>C38. A script by name, with or without the extensions: an unknown name gives -2; otherwise the call
  returns 0 and the range holds exactly the characters of the script (with extensions: also those that
  list it, or for Common and Inherited those that list none), or it ends at the label \<^verbatim>\<open>fail\<close>, and that
  only with an allocation function that can fail. That label jumps to itself: for ever without
  extensions, and with them up to the second freeing of a block of the temporary ranges.\<close>

theorem unicode_script_returns:
  assumes "cr_ok cr" and "points_of cr = []"
  shows "case script_number name of
      None \<Rightarrow> unicode_script cr name is_ext = Some (Script_end cr (-2))
    | Some i \<Rightarrow> returns is_ext (cr_realloc_func cr) (unicode_script cr name is_ext) (script_chars i is_ext)"
  by (rule unicode_script_by_name [OF assms])

theorem unicode_script_returns_witness:
  "\<exists>cr1. unicode_script (cr_init plain_points () None) ''Latn'' True = Some (Script_end cr1 0) \<and>
    (\<forall>c. c \<noteq> 0xffffffff \<longrightarrow> cr_mem (points_of cr1) c = script_chars (the (script_number ''Latn'')) True c)"
proof -
  have "script_number ''Latn'' \<noteq> None"
    by (simp add: script_number_def unicode_script_names_def aliases.simps c_str_def)
  then obtain i where i: "script_number ''Latn'' = Some i" by blast
  have g: "cr_realloc_func (cr_init plain_points () None) = plain_points" by (simp add: cr_init_def)
  show ?thesis
    using unicode_script_returns [where cr = "cr_init plain_points () None"
        and name = "''Latn''" and is_ext = True, OF cr_init_ok(1) [OF lawful_plain_points] cr_init_ok(2)] grants_plain_points
    unfolding i g by (auto simp: returns_def)
qed

text \<open>C39. Two ways to the same set: the range that \<^verbatim>\<open>unicode_prop\<close> builds for ID_Start and Case_Ignorable from
  the whole table holds exactly the characters that the lookups with an index accept.\<close>

theorem ranges_agree_with_lookups:
  assumes "cr_ok cr" and "points_of cr = []"
  shows "gives (cr_realloc_func cr) (unicode_prop cr ''ID_Start'') (\<lambda>c. lre_is_id_start c = Some True) \<and>
    gives (cr_realloc_func cr) (unicode_prop cr ''Case_Ignorable'') (\<lambda>c. lre_is_case_ignorable c = Some True)"
proof -
  have n: "prop_number ''ID_Start'' = Some UNICODE_PROP_ID_Start" "prop_number ''Case_Ignorable'' = Some UNICODE_PROP_Case_Ignorable"
    by (simp_all add: prop_number_def unicode_prop_names_def aliases.simps c_str_def UNICODE_PROP_ASCII_Hex_Digit_def
        UNICODE_PROP_ID_Start_def UNICODE_PROP_Case_Ignorable_def)
  have c: "prop_chars UNICODE_PROP_ID_Start = (\<lambda>c. lre_is_id_start c = Some True)"
      "prop_chars UNICODE_PROP_Case_Ignorable = (\<lambda>c. lre_is_case_ignorable c = Some True)"
    by (simp_all add: fun_eq_iff prop_chars_def lookups_are_membership direct_ids prop_definition_def prop_definitions_def
        prop_ids UNICODE_PROP_Case_Ignorable_def unicode_prop_table_def)
  show ?thesis
    using unicode_prop_by_name [OF assms, of "''ID_Start''"] unicode_prop_by_name [OF assms, of "''Case_Ignorable''"]
    unfolding n by (simp add: c)
qed

theorem ranges_agree_with_lookups_witness:
  "gives plain_points (unicode_prop (cr_init plain_points () None) ''ID_Start'') (\<lambda>c. lre_is_id_start c = Some True)"
  using ranges_agree_with_lookups [where cr = "cr_init plain_points () None", OF cr_init_ok(1) [OF lawful_plain_points] cr_init_ok(2)]
  by (simp add: cr_init_def)

end
